(* ===== verification/Prelude.thy ===== *)
theory Prelude
  imports Main "HOL-Library.Char_ord" "HOL-Library.List_Lexorder" "HOL-Library.Sublist"
    "HOL-Library.Word"
begin

text \<open>
  Shared vocabulary of the development: Go strings as byte lists with their bytewise order,
  ordered association lists (the finite maps of the model: the contents of etcd and Go's
  \<open>map[string]string\<close>), results of fallible calls as sums, and the lemma collections that
  the component theories extend.
\<close>

named_theorems store_laws \<open>what one operation does to the contents of a store\<close>
named_theorems codec_simps \<open>encoding followed by decoding, one equation per type\<close>

type_synonym key = string
type_synonym bytes = string
type_synonym int32 = "32 word"
type_synonym 'a contents = "key \<Rightarrow> 'a option"

subsection \<open>Ordered association lists\<close>

primrec alist_put :: "'k::linorder \<Rightarrow> 'v \<Rightarrow> ('k \<times> 'v) list \<Rightarrow> ('k \<times> 'v) list" where
  "alist_put k v [] = [(k, v)]"
| "alist_put k v (e # es) =
     (if k < fst e then (k, v) # e # es
      else if k = fst e then (k, v) # es
      else e # alist_put k v es)"

definition alist_ok :: "('k::linorder \<times> 'v) list \<Rightarrow> bool" where
  "alist_ok es \<longleftrightarrow> sorted_wrt (<) (map fst es)"

lemma alist_ok_Nil [simp]: "alist_ok []"
  by (simp add: alist_ok_def)

lemma alist_ok_Cons: "alist_ok (e # es) \<longleftrightarrow> (\<forall>x\<in>set es. fst e < fst x) \<and> alist_ok es"
  by (auto simp: alist_ok_def)

lemma set_alist_put: "fst ` set (alist_put k v es) = insert k (fst ` set es)"
  by (induction es) auto

lemma alist_ok_put [intro]: "alist_ok es \<Longrightarrow> alist_ok (alist_put k v es)"
proof (induction es)
  case (Cons e es)
  have "\<forall>x\<in>set (alist_put k v es). fst e < fst x" if "fst e < k"
    using Cons.prems that set_alist_put [of k v es]
    by (metis (no_types, lifting) alist_ok_Cons image_iff insert_iff)
  with Cons show ?case
    by (auto simp: alist_ok_Cons intro: less_trans)
qed (simp add: alist_ok_def)

lemma alist_ok_filter [intro]: "alist_ok es \<Longrightarrow> alist_ok (filter P es)"
  by (induction es) (auto simp: alist_ok_Cons)

lemma alist_ok_distinct: "alist_ok es \<Longrightarrow> distinct (map fst es)"
  by (simp add: alist_ok_def strict_sorted_iff)

lemma map_of_alist_put: "map_of (alist_put k v es) = (map_of es)(k \<mapsto> v)"
  by (induction es) (auto simp: fun_eq_iff)

lemma map_of_filter_key:
  "map_of (filter (\<lambda>e. P (fst e)) es) k = (if P k then map_of es k else None)"
  by (induction es) auto

lemma alist_put_last:
  "\<forall>x\<in>set es. fst x < k \<Longrightarrow> alist_put k v es = es @ [(k, v)]"
  by (induction es) auto

subsection \<open>Results of fallible calls\<close>

text \<open>A Go function returning \<open>(T, error)\<close> is modelled by \<open>error + 'a\<close>; the first error ends
  a traversal, as the early \<open>return\<close> in the body of a Go loop does.\<close>

primrec traverse :: "('a \<Rightarrow> 'e + 'b) \<Rightarrow> 'a list \<Rightarrow> 'e + 'b list" where
  "traverse f [] = Inr []"
| "traverse f (x # xs) =
     (case f x of Inl e \<Rightarrow> Inl e
      | Inr y \<Rightarrow> (case traverse f xs of Inl e \<Rightarrow> Inl e | Inr ys \<Rightarrow> Inr (y # ys)))"

lemma traverse_Inr_iff: "traverse f xs = Inr ys \<longleftrightarrow> list_all2 (\<lambda>x y. f x = Inr y) xs ys"
proof (induction xs arbitrary: ys)
  case (Cons x xs)
  show ?case
    by (cases ys) (auto split: sum.splits simp: Cons.IH [symmetric])
qed auto

lemma traverse_Inl: "traverse f xs = Inl e \<Longrightarrow> \<exists>x\<in>set xs. f x = Inl e"
  by (induction xs) (auto split: sum.splits)

lemma traverse_total: "(\<And>x. x \<in> set xs \<Longrightarrow> f x = Inr (g x)) \<Longrightarrow> traverse f xs = Inr (map g xs)"
  by (induction xs) auto

end
