(* ===== verification/Goerror.thy ===== *)
theory Goerror
  imports Prelude
begin

text \<open>
  Go's error values. An error is a package-level sentinel (\<open>errors.New\<close>), an error built by
  \<open>fmt.Errorf\<close>, or an error of code outside the repository. \<open>fmt.Errorf\<close> keeps what
  \<open>errors.Is\<close> can see: the operand of the verb \<open>%w\<close> stays in the chain, an error formatted
  with \<open>%v\<close> is only text.
\<close>

datatype sentinel =
    ErrEncoding | ErrDecoding | ErrNotFound | ErrEtcdClient
  | ErrInternal
  | ErrNodeNotFound | ErrNodeAlreadyExists | ErrListNodesFailed | ErrNodeInvalid
  | ErrPodAlreadyExists | ErrPodNotFound | ErrListPodsFailed | ErrPodInvalid
  | ErrReplicaSetExists | ErrReplicaSetNotFound | ErrListReplicaSets
  | ErrInvalidPodSpec | ErrInvalidNodeSpec
  | ContextCanceled | ContextDeadlineExceeded

datatype json_error = SyntaxError | DecodeError | MarshalerError

text \<open>\<open>Errorf w s v\<close>: the error wrapped with \<open>%w\<close> (if any), the text of the message, and
  the error formatted with \<open>%v\<close> (if any).\<close>

datatype error =
    Sentinel sentinel
  | Errorf "error option" string "error option"
  | JsonError json_error
  | External string

text \<open>\<open>errors.Is(err, target)\<close> for a sentinel target walks the \<open>%w\<close> chain.\<close>

fun errors_Is :: "error \<Rightarrow> sentinel \<Rightarrow> bool" where
  "errors_Is (Sentinel s) t \<longleftrightarrow> s = t"
| "errors_Is (Errorf (Some e) _ _) t \<longleftrightarrow> errors_Is e t"
| "errors_Is (Errorf None _ _) t \<longleftrightarrow> False"
| "errors_Is (JsonError _) t \<longleftrightarrow> False"
| "errors_Is (External _) t \<longleftrightarrow> False"

text \<open>The two shapes the repository uses: \<open>"%w: %s"\<close> with a text, \<open>"%w: ...%v"\<close> with a cause.\<close>

abbreviation wrap_text :: "sentinel \<Rightarrow> string \<Rightarrow> error" where
  "wrap_text s t \<equiv> Errorf (Some (Sentinel s)) t None"

abbreviation wrap_cause :: "sentinel \<Rightarrow> string \<Rightarrow> error \<Rightarrow> error" where
  "wrap_cause s t e \<equiv> Errorf (Some (Sentinel s)) t (Some e)"

end
