(* ===== verification/Jsonstring.thy ===== *)
theory Jsonstring
  imports Gostring
begin

text \<open>
  JSON string literals as \<open>encoding/json\<close> writes and reads them. Writing escapes quotes,
  backslashes, control characters, the HTML characters, U+2028 and U+2029, and replaces
  bytes that are not UTF-8 by U+FFFD. Reading splits into the scanner, which finds the end of
  the literal and checks its escapes, and \<open>unquote\<close>, which decodes the literal's body.
\<close>

subsection \<open>UTF-8\<close>

definition byte_in :: "nat \<Rightarrow> nat \<Rightarrow> char \<Rightarrow> bool" where
  "byte_in lo hi c \<longleftrightarrow> lo \<le> of_char c \<and> of_char c \<le> hi"

definition cont_byte :: "char \<Rightarrow> bool" where
  "cont_byte = byte_in 128 191"

text \<open>The second byte of a sequence is restricted further after some first bytes (no
  overlong forms, no surrogates, nothing above U+10FFFF).\<close>

definition second_ok :: "char \<Rightarrow> char \<Rightarrow> bool" where
  "second_ok b0 b1 =
     (let n = of_char b0 :: nat in
        if n = 224 then byte_in 160 191 b1
        else if n = 237 then byte_in 128 159 b1
        else if n = 240 then byte_in 144 191 b1
        else if n = 244 then byte_in 128 143 b1
        else cont_byte b1)"

text \<open>The size of the UTF-8 sequence at the start of the string, 0 if there is none
  (\<open>utf8.DecodeRune\<close> returns \<open>RuneError\<close> with size 1, or 0 on the empty string).\<close>

definition utf8_len :: "string \<Rightarrow> nat" where
  "utf8_len s =
     (case s of
        [] \<Rightarrow> 0
      | b0 # r \<Rightarrow>
          if byte_in 0 127 b0 then 1
          else if byte_in 194 223 b0 then
            (case r of b1 # _ \<Rightarrow> if cont_byte b1 then 2 else 0 | _ \<Rightarrow> 0)
          else if byte_in 224 239 b0 then
            (case r of
               b1 # b2 # _ \<Rightarrow> if second_ok b0 b1 \<and> cont_byte b2 then 3 else 0
             | _ \<Rightarrow> 0)
          else if byte_in 240 244 b0 then
            (case r of
               b1 # b2 # b3 # _ \<Rightarrow>
                 if second_ok b0 b1 \<and> cont_byte b2 \<and> cont_byte b3 then 4 else 0
             | _ \<Rightarrow> 0)
          else 0)"

lemma utf8_len_le: "utf8_len s \<le> length s"
  by (auto simp: utf8_len_def split: list.splits)

text \<open>The units of a string: its UTF-8 sequences, and single bytes where there is none.\<close>

function utf8_units :: "string \<Rightarrow> string list" where
  "utf8_units [] = []"
| "utf8_units (c # cs) =
     (let n = max 1 (utf8_len (c # cs))
      in take n (c # cs) # utf8_units (drop n (c # cs)))"
  by pat_completeness auto
termination
  by (relation "measure length") auto

declare utf8_units.simps(2) [simp del]

definition replacement :: string where
  "replacement = [char_of (239::nat), char_of (191::nat), char_of (189::nat)]"

definition unit_ok :: "string \<Rightarrow> bool" where
  "unit_ok u \<longleftrightarrow> u \<noteq> [] \<and> utf8_len u = length u"

definition unit_fix :: "string \<Rightarrow> string" where
  "unit_fix u = (if unit_ok u then u else replacement)"

definition to_valid :: "string \<Rightarrow> string" where
  "to_valid s = concat (map unit_fix (utf8_units s))"

definition valid_utf8 :: "string \<Rightarrow> bool" where
  "valid_utf8 s \<longleftrightarrow> list_all unit_ok (utf8_units s)"

lemma concat_utf8_units: "concat (utf8_units s) = s"
proof (induction s rule: utf8_units.induct)
  case (2 c cs)
  then show ?case by (simp add: utf8_units.simps Let_def)
qed simp

lemma to_valid_valid: "valid_utf8 s \<Longrightarrow> to_valid s = s"
proof -
  assume "valid_utf8 s"
  then have "map unit_fix (utf8_units s) = utf8_units s"
    by (auto simp: valid_utf8_def list_all_iff unit_fix_def intro: map_idI)
  then show ?thesis by (simp add: to_valid_def concat_utf8_units)
qed

text \<open>What a unit is: a valid sequence, which is recognised whatever follows it, or a single
  byte above 127.\<close>

lemma utf8_len_take: "utf8_len s = n \<Longrightarrow> 0 < n \<Longrightarrow> utf8_len (take n s @ t) = n"
  by (cases s) (auto simp: utf8_len_def split: list.splits if_splits)

lemma utf8_units_shape:
  "u \<in> set (utf8_units s) \<Longrightarrow> unit_ok u \<or> (\<exists>c. u = [c] \<and> \<not> byte_in 0 127 c)"
proof (induction s rule: utf8_units.induct)
  case (2 c cs)
  let ?n = "utf8_len (c # cs)"
  have "unit_ok (take ?n (c # cs))" if "0 < ?n"
    using utf8_len_take [of "c # cs" ?n "[]"] utf8_len_le [of "c # cs"] that
    by (simp add: unit_ok_def)
  moreover have "\<not> byte_in 0 127 c" if "?n = 0"
    using that by (auto simp: utf8_len_def split: if_splits)
  ultimately show ?case
    using 2 by (auto simp: utf8_units.simps Let_def max_def split: if_splits)
qed simp

lemma unit_ok_cases:
  assumes "unit_ok u"
  obtains (ascii) c where "u = [c]" "byte_in 0 127 c"
    | (multi) c cs where "u = c # cs" "\<not> byte_in 0 127 c" "cs \<noteq> []"
proof (cases u)
  case (Cons c cs)
  show ?thesis
  proof (cases "byte_in 0 127 c")
    case True
    with assms Cons have "u = [c]" by (simp add: unit_ok_def utf8_len_def)
    with True show ?thesis using that(1) by simp
  next
    case False
    with assms Cons have "cs \<noteq> []"
      by (auto simp: unit_ok_def utf8_len_def split: if_splits)
    with Cons False show ?thesis using that(2) by simp
  qed
qed (use assms in \<open>simp add: unit_ok_def\<close>)

lemma unit_ok_append: "unit_ok u \<Longrightarrow> utf8_len (u @ t) = length u"
  using utf8_len_take [of u "length u" t] by (simp add: unit_ok_def)

text \<open>\<open>utf8.EncodeRune\<close>.\<close>

definition encode_rune :: "nat \<Rightarrow> string" where
  "encode_rune r =
     (if r < 128 then [char_of r]
      else if r < 2048 then [char_of (192 + r div 64), char_of (128 + r mod 64)]
      else if r > 1114111 \<or> (55296 \<le> r \<and> r \<le> 57343) then replacement
      else if r < 65536 then
        [char_of (224 + r div 4096), char_of (128 + r div 64 mod 64), char_of (128 + r mod 64)]
      else
        [char_of (240 + r div 262144), char_of (128 + r div 4096 mod 64),
         char_of (128 + r div 64 mod 64), char_of (128 + r mod 64)])"

subsection \<open>Writing\<close>

definition hex_digit :: "nat \<Rightarrow> char" where
  "hex_digit n = (if n < 10 then char_of (48 + n) else char_of (87 + n))"

definition hex_val :: "char \<Rightarrow> nat option" where
  "hex_val c =
     (if byte_in 48 57 c then Some (of_char c - 48)
      else if byte_in 97 102 c then Some (of_char c - 87)
      else if byte_in 65 70 c then Some (of_char c - 55)
      else None)"

lemma hex_val_digit [simp]: "n < 16 \<Longrightarrow> hex_val (hex_digit n) = Some n"
  by (auto simp: hex_val_def hex_digit_def byte_in_def)

definition escape_ascii :: "char \<Rightarrow> string" where
  "escape_ascii c =
     (let b = of_char c :: nat in
        if c = CHR 0x5C \<or> c = CHR 0x22 then [CHR 0x5C, c]
        else if b = 8 then [CHR 0x5C, CHR ''b'']
        else if b = 12 then [CHR 0x5C, CHR ''f'']
        else if b = 10 then [CHR 0x5C, CHR ''n'']
        else if b = 13 then [CHR 0x5C, CHR ''r'']
        else if b = 9 then [CHR 0x5C, CHR ''t'']
        else if b < 32 \<or> c = CHR ''<'' \<or> c = CHR ''>'' \<or> c = CHR ''&'' then
          [CHR 0x5C, CHR ''u'', CHR ''0'', CHR ''0'', hex_digit (b div 16), hex_digit (b mod 16)]
        else [c])"

definition escape_unit :: "string \<Rightarrow> string" where
  "escape_unit u =
     (if \<not> unit_ok u then CHR 0x5C # ''ufffd''
      else if u = encode_rune 8232 then CHR 0x5C # ''u2028''
      else if u = encode_rune 8233 then CHR 0x5C # ''u2029''
      else (case u of [c] \<Rightarrow> escape_ascii c | _ \<Rightarrow> u))"

definition quote_body :: "string \<Rightarrow> string" where
  "quote_body s = concat (map escape_unit (utf8_units s))"

subsection \<open>Reading\<close>

definition simple_escape :: "char \<Rightarrow> bool" where
  "simple_escape e \<longleftrightarrow>
     e \<in> {CHR ''b'', CHR ''f'', CHR ''n'', CHR ''r'', CHR ''t'', CHR 0x5C, CHR ''/'', CHR 0x22}"

text \<open>The scanner, after the opening quote: the body of the literal and what follows the
  closing quote.\<close>

fun scan_string :: "string \<Rightarrow> (string \<times> string) option" where
  "scan_string [] = None"
| "scan_string (c # cs) =
     (if c = CHR 0x22 then Some ([], cs)
      else if c = CHR 0x5C then
        (case cs of
           [] \<Rightarrow> None
         | e # r \<Rightarrow>
             if simple_escape e
             then map_option (apfst ((@) [c, e])) (scan_string r)
             else if e = CHR ''u'' then
               (case r of
                  h1 # h2 # h3 # h4 # r' \<Rightarrow>
                    if hex_val h1 \<noteq> None \<and> hex_val h2 \<noteq> None \<and> hex_val h3 \<noteq> None \<and> hex_val h4 \<noteq> None
                    then map_option (apfst ((@) [c, e, h1, h2, h3, h4])) (scan_string r')
                    else None
                | _ \<Rightarrow> None)
             else None)
      else if of_char c < (32::nat) then None
      else map_option (apfst ((@) [c])) (scan_string cs))"

text \<open>\<open>getu4\<close>: the code unit of an escape \<open>\uXXXX\<close> at the start of the string.\<close>

definition getu4 :: "string \<Rightarrow> nat option" where
  "getu4 s =
     (case s of
        b # u # h1 # h2 # h3 # h4 # _ \<Rightarrow>
          if b = CHR 0x5C \<and> u = CHR ''u'' then
            (case (hex_val h1, hex_val h2, hex_val h3, hex_val h4) of
               (Some d1, Some d2, Some d3, Some d4) \<Rightarrow> Some (((d1 * 16 + d2) * 16 + d3) * 16 + d4)
             | _ \<Rightarrow> None)
          else None
      | _ \<Rightarrow> None)"

text \<open>\<open>utf16.DecodeRune\<close> on a pair: a high surrogate followed by a low one.\<close>

definition surrogate_pair :: "nat \<Rightarrow> nat \<Rightarrow> nat option" where
  "surrogate_pair r1 r2 =
     (if 55296 \<le> r1 \<and> r1 < 56320 \<and> 56320 \<le> r2 \<and> r2 < 57344
      then Some ((r1 - 55296) * 1024 + (r2 - 56320) + 65536) else None)"

function unquote :: "string \<Rightarrow> string option" where
  "unquote [] = Some []"
| "unquote (c # cs) =
     (if c = CHR 0x5C then
        (case cs of
           [] \<Rightarrow> None
         | e # r \<Rightarrow>
             if e = CHR 0x22 \<or> e = CHR 0x5C \<or> e = CHR ''/'' \<or> e = CHR 0x27
             then map_option ((@) [e]) (unquote r)
             else if e = CHR ''b'' then map_option ((@) [CHR 0x08]) (unquote r)
             else if e = CHR ''f'' then map_option ((@) [CHR 0x0C]) (unquote r)
             else if e = CHR ''n'' then map_option ((@) [CHR 0x0A]) (unquote r)
             else if e = CHR ''r'' then map_option ((@) [CHR 0x0D]) (unquote r)
             else if e = CHR ''t'' then map_option ((@) [CHR 0x09]) (unquote r)
             else if e = CHR ''u'' then
               (case getu4 (c # cs) of
                  None \<Rightarrow> None
                | Some rr \<Rightarrow>
                    if 55296 \<le> rr \<and> rr < 57344 then
                      (case Option.bind (getu4 (drop 5 cs)) (surrogate_pair rr) of
                         Some dec \<Rightarrow> map_option ((@) (encode_rune dec)) (unquote (drop 11 cs))
                       | None \<Rightarrow> map_option ((@) replacement) (unquote (drop 5 cs)))
                    else map_option ((@) (encode_rune rr)) (unquote (drop 5 cs)))
             else None)
      else if c = CHR 0x22 \<or> of_char c < (32::nat) then None
      else if byte_in 0 127 c then map_option ((@) [c]) (unquote cs)
      else (let n = utf8_len (c # cs) in
              if n = 0 then map_option ((@) replacement) (unquote cs)
              else map_option ((@) (take n (c # cs))) (unquote (drop n (c # cs)))))"
  by pat_completeness auto
termination
  by (relation "measure length") (auto simp: Let_def)

declare unquote.simps(2) [simp del] scan_string.simps(2) [simp del]

subsection \<open>Reading back what was written\<close>

lemma byte_in_127: "byte_in 0 127 c \<longleftrightarrow> of_char c < (128::nat)"
  by (auto simp: byte_in_def)

lemma cont_high:
  "cont_byte b \<Longrightarrow> 128 \<le> (of_char b :: nat)"
  "second_ok a b \<Longrightarrow> 128 \<le> (of_char b :: nat)"
  by (auto simp: second_ok_def cont_byte_def byte_in_def Let_def split: if_splits)

lemma unit_ok_multi_high:
  assumes "unit_ok (c # cs)" and "\<not> byte_in 0 127 c" and "x \<in> set (c # cs)"
  shows "128 \<le> (of_char x :: nat)"
  using assms unfolding unit_ok_def utf8_len_def
  by (auto simp: byte_in_127 split: if_splits list.splits intro: cont_high)

lemma scan_string_high:
  "\<forall>x\<in>set u. 128 \<le> (of_char x :: nat) \<Longrightarrow>
   scan_string (u @ t) = map_option (apfst ((@) u)) (scan_string t)"
proof (induction u)
  case Nil
  then show ?case by (cases "scan_string t") auto
next
  case (Cons c u)
  then have "c \<noteq> CHR 0x22" "c \<noteq> CHR 0x5C" "\<not> of_char c < (32::nat)" by auto
  with Cons show ?case
    by (simp add: scan_string.simps(2) option.map_comp comp_def apfst_def map_prod_def case_prod_unfold)
qed

lemma of_char_eq_iff: "of_char c = (n::nat) \<longleftrightarrow> n < 256 \<and> c = char_of n"
  by auto

lemma escape_ascii_cases:
  obtains (quote) "c = CHR 0x5C \<or> c = CHR 0x22"
  | (ctl) n where "c = char_of (n :: nat)" "n \<in> {8, 9, 10, 12, 13}"
  | (hex) "escape_ascii c =
      [CHR 0x5C, CHR ''u'', CHR ''0'', CHR ''0'',
       hex_digit (of_char c div 16), hex_digit (of_char c mod 16)]"
  | (plain) "escape_ascii c = [c]" "c \<noteq> CHR 0x5C" "c \<noteq> CHR 0x22" "\<not> of_char c < (32::nat)"
  unfolding escape_ascii_def Let_def of_char_eq_iff
  by (cases "c = CHR 0x5C \<or> c = CHR 0x22"; cases "c \<in> char_of ` {8, 9, 10, 12, 13::nat}";
      cases "of_char c < (32::nat) \<or> c = CHR ''<'' \<or> c = CHR ''>'' \<or> c = CHR ''&''") auto

lemma char_of_ctl:
  "char_of (8::nat) = CHR 0x08" "char_of (9::nat) = CHR 0x09" "char_of (10::nat) = CHR 0x0A"
  "char_of (12::nat) = CHR 0x0C" "char_of (13::nat) = CHR 0x0D"
  by code_simp+

lemma of_char_less_256: "of_char c < (256::nat)"
  by simp

lemma hex_val_0 [simp]: "hex_val (CHR ''0'') = Some 0"
  by (simp add: hex_val_def byte_in_def)

lemma of_char_div_16: "of_char c div 16 < (16::nat)"
  using of_char_less_256 [of c] by (intro less_mult_imp_div_less) simp

lemma scan_escape_ascii:
  "byte_in 0 127 c \<Longrightarrow>
   scan_string (escape_ascii c @ t) = map_option (apfst ((@) (escape_ascii c))) (scan_string t)"
proof (cases c rule: escape_ascii_cases)
  case quote
  then show ?thesis by (auto simp: escape_ascii_def scan_string.simps(2) simple_escape_def)
next
  case (ctl n)
  then show ?thesis by (auto simp: escape_ascii_def scan_string.simps(2) simple_escape_def)
next
  case hex
  then show ?thesis by (simp add: scan_string.simps(2) of_char_div_16 simple_escape_def)
next
  case plain
  then show ?thesis by (simp add: scan_string.simps(2))
qed

lemma getu4_00:
  "getu4 (CHR 0x5C # CHR ''u'' # CHR ''0'' # CHR ''0'' #
          hex_digit (of_char c div 16) # hex_digit (of_char c mod 16) # t) = Some (of_char c)"
  by (simp add: getu4_def of_char_div_16)

lemma unquote_escape_ascii:
  assumes "byte_in 0 127 c"
  shows "unquote (escape_ascii c @ t) = map_option ((@) [c]) (unquote t)"
  using assms
proof (cases c rule: escape_ascii_cases)
  case quote
  then show ?thesis by (auto simp: escape_ascii_def unquote.simps(2))
next
  case (ctl n)
  then show ?thesis by (auto simp: escape_ascii_def unquote.simps(2) char_of_ctl)
next
  case hex
  with assms show ?thesis
    by (simp add: unquote.simps(2) getu4_00 byte_in_127 encode_rune_def)
next
  case plain
  with assms show ?thesis by (simp add: unquote.simps(2))
qed

lemma escape_special:
  "scan_string (CHR 0x5C # ''ufffd'' @ t) = map_option (apfst ((@) (CHR 0x5C # ''ufffd''))) (scan_string t)"
  "scan_string (CHR 0x5C # ''u2028'' @ t) = map_option (apfst ((@) (CHR 0x5C # ''u2028''))) (scan_string t)"
  "scan_string (CHR 0x5C # ''u2029'' @ t) = map_option (apfst ((@) (CHR 0x5C # ''u2029''))) (scan_string t)"
  "unquote (CHR 0x5C # ''ufffd'' @ t) = map_option ((@) replacement) (unquote t)"
  "unquote (CHR 0x5C # ''u2028'' @ t) = map_option ((@) (encode_rune 8232)) (unquote t)"
  "unquote (CHR 0x5C # ''u2029'' @ t) = map_option ((@) (encode_rune 8233)) (unquote t)"
  by (simp_all add: scan_string.simps(2) simple_escape_def unquote.simps(2) hex_val_def byte_in_def getu4_def
      encode_rune_def replacement_def)

lemma escape_unit_ascii: "byte_in 0 127 c \<Longrightarrow> escape_unit [c] = escape_ascii c"
  by (simp add: escape_unit_def unit_ok_def utf8_len_def encode_rune_def)

lemma escape_unit_multi:
  "unit_ok u \<Longrightarrow> u = c # cs \<Longrightarrow> cs \<noteq> [] \<Longrightarrow> u \<noteq> encode_rune 8232 \<Longrightarrow> u \<noteq> encode_rune 8233 \<Longrightarrow>
   escape_unit u = u"
  by (simp add: escape_unit_def split: list.splits)

lemma escape_unit_other:
  "\<not> (unit_ok u \<and> u \<noteq> encode_rune 8232 \<and> u \<noteq> encode_rune 8233) \<Longrightarrow>
   (escape_unit u = CHR 0x5C # ''ufffd'' \<and> unit_fix u = replacement) \<or>
   (escape_unit u = CHR 0x5C # ''u2028'' \<and> unit_fix u = encode_rune 8232) \<or>
   (escape_unit u = CHR 0x5C # ''u2029'' \<and> unit_fix u = encode_rune 8233)"
  by (cases "unit_ok u"; cases "u = encode_rune 8232") (simp_all add: escape_unit_def unit_fix_def)

lemma scan_escape_unit:
  assumes "unit_ok u \<or> (\<exists>c. u = [c] \<and> \<not> byte_in 0 127 c)"
  shows "scan_string (escape_unit u @ t) = map_option (apfst ((@) (escape_unit u))) (scan_string t)"
proof (cases "unit_ok u \<and> u \<noteq> encode_rune 8232 \<and> u \<noteq> encode_rune 8233")
  case True
  then have "unit_ok u" by simp
  then show ?thesis
  proof (cases rule: unit_ok_cases)
    case (ascii c)
    then show ?thesis by (simp add: escape_unit_ascii scan_escape_ascii)
  next
    case (multi c cs)
    then have "\<forall>x\<in>set u. 128 \<le> (of_char x :: nat)"
      using True unit_ok_multi_high [of c cs] by blast
    moreover have "escape_unit u = u"
      using True multi by (intro escape_unit_multi) auto
    ultimately show ?thesis by (simp add: scan_string_high)
  qed
next
  case False
  from escape_unit_other [OF this] show ?thesis
    using escape_special(1-3) [of t] by (elim disjE conjE) simp_all
qed

lemma unquote_escape_unit:
  assumes "unit_ok u \<or> (\<exists>c. u = [c] \<and> \<not> byte_in 0 127 c)"
  shows "unquote (escape_unit u @ t) = map_option ((@) (unit_fix u)) (unquote t)"
proof (cases "unit_ok u \<and> u \<noteq> encode_rune 8232 \<and> u \<noteq> encode_rune 8233")
  case True
  then have "unit_ok u" and ux: "unit_fix u = u" by (simp_all add: unit_fix_def)
  then show ?thesis
  proof (cases rule: unit_ok_cases)
    case (ascii c)
    with ux show ?thesis by (simp add: escape_unit_ascii unquote_escape_ascii)
  next
    case (multi c cs)
    then have esc: "escape_unit u = u" and hi: "128 \<le> (of_char c :: nat)"
      using True by (auto intro: escape_unit_multi simp: byte_in_127)
    have len: "utf8_len (c # cs @ t) = Suc (length cs)"
      using unit_ok_append [of u t] \<open>unit_ok u\<close> multi by simp
    have "c \<noteq> CHR 0x5C" "c \<noteq> CHR 0x22" "\<not> of_char c < (32::nat)" using hi by auto
    with multi len show ?thesis
      unfolding esc ux by (simp add: unquote.simps(2) Let_def)
  qed
next
  case False
  from escape_unit_other [OF this] show ?thesis
    using escape_special(4-6) [of t] by (elim disjE conjE) simp_all
qed

lemma scan_quote_body: "scan_string (quote_body s @ CHR 0x22 # t) = Some (quote_body s, t)"
proof -
  have "scan_string (concat (map escape_unit us) @ CHR 0x22 # t) = Some (concat (map escape_unit us), t)"
    if "\<forall>u\<in>set us. unit_ok u \<or> (\<exists>c. u = [c] \<and> \<not> byte_in 0 127 c)" for us
    using that by (induction us) (simp_all add: scan_escape_unit scan_string.simps(2))
  then show ?thesis
    unfolding quote_body_def using utf8_units_shape by blast
qed

lemma unquote_quote_body: "unquote (quote_body s) = Some (to_valid s)"
proof -
  have "unquote (concat (map escape_unit us)) = Some (concat (map unit_fix us))"
    if "\<forall>u\<in>set us. unit_ok u \<or> (\<exists>c. u = [c] \<and> \<not> byte_in 0 127 c)" for us
    using that by (induction us) (simp_all add: unquote_escape_unit)
  then show ?thesis
    unfolding quote_body_def to_valid_def using utf8_units_shape by blast
qed

text \<open>Plain ASCII text needs no escapes.\<close>

definition safe_char :: "char \<Rightarrow> bool" where
  "safe_char c \<longleftrightarrow> byte_in 32 126 c \<and>
     c \<notin> {CHR 0x22, CHR 0x5C, CHR ''<'', CHR ''>'', CHR ''&''}"

lemma utf8_units_ascii: "\<forall>c\<in>set s. byte_in 0 127 c \<Longrightarrow> utf8_units s = map (\<lambda>c. [c]) s"
  by (induction s) (simp_all add: utf8_units.simps utf8_len_def)

lemma safe_char_ascii: "safe_char c \<Longrightarrow> byte_in 0 127 c"
  by (simp add: safe_char_def byte_in_def)

lemma escape_ascii_safe: "safe_char c \<Longrightarrow> escape_ascii c = [c]"
  by (auto simp: safe_char_def escape_ascii_def byte_in_def Let_def)

lemma quote_body_safe: "\<forall>c\<in>set s. safe_char c \<Longrightarrow> quote_body s = s"
proof -
  assume s: "\<forall>c\<in>set s. safe_char c"
  then have "map escape_unit (utf8_units s) = map (\<lambda>c. [c]) s"
    by (simp add: utf8_units_ascii safe_char_ascii escape_unit_ascii escape_ascii_safe)
  then show ?thesis by (simp add: quote_body_def)
qed

lemma valid_utf8_ascii: "\<forall>c\<in>set s. byte_in 0 127 c \<Longrightarrow> valid_utf8 s"
  by (auto simp: valid_utf8_def utf8_units_ascii list_all_iff unit_ok_def utf8_len_def)

end
