(* ===== verification/Json.thy ===== *)
theory Json
  imports Jsonstring
begin

text \<open>
  JSON texts as \<open>encoding/json\<close> prints and parses them. String literals are kept as written
  (\<^const>\<open>quote_body\<close> and \<^const>\<open>unquote\<close> go between literals and Go strings) and so are numbers,
  because the decoder looks at the literal. Parsing is a lexer and a parser with an explicit
  stack, both recursive over the input, so they always return; the stack is bounded by Go's
  limit on nesting.
\<close>

datatype json =
    JNull
  | JBool bool
  | JNum string
  | JStr string
  | JArr "json list"
  | JObj "(string \<times> json) list"

subsection \<open>Printing\<close>

fun separate :: "'a \<Rightarrow> 'a list list \<Rightarrow> 'a list" where
  "separate x [] = []"
| "separate x [ys] = ys"
| "separate x (ys # zs # zss) = ys @ x # separate x (zs # zss)"

fun print_json :: "json \<Rightarrow> string" where
  "print_json JNull = ''null''"
| "print_json (JBool b) = (if b then ''true'' else ''false'')"
| "print_json (JNum n) = n"
| "print_json (JStr b) = CHR 0x22 # b @ [CHR 0x22]"
| "print_json (JArr js) = CHR ''['' # separate (CHR '','') (map print_json js) @ '']''"
| "print_json (JObj ms) =
     CHR 0x7B # separate (CHR '','')
       (map (\<lambda>m. CHR 0x22 # fst m @ CHR 0x22 # CHR '':'' # print_json (snd m)) ms) @ [CHR 0x7D]"

subsection \<open>Lexing\<close>

datatype tok =
    TLbrace | TRbrace | TLbrack | TRbrack | TColon | TComma
  | TNull | TBool bool | TNum string | TStr string

definition is_ws :: "char \<Rightarrow> bool" where
  "is_ws c \<longleftrightarrow> c = CHR '' '' \<or> c = CHR 0x09 \<or> c = CHR 0x0A \<or> c = CHR 0x0D"

definition scan_int :: "string \<Rightarrow> (string \<times> string) option" where
  "scan_int s =
     (case s of
        [] \<Rightarrow> None
      | c # cs \<Rightarrow>
          if c = CHR ''0'' then Some ([c], cs)
          else if is_digit c then Some (c # takeWhile is_digit cs, dropWhile is_digit cs)
          else None)"

definition scan_digits1 :: "string \<Rightarrow> (string \<times> string) option" where
  "scan_digits1 s =
     (let ds = takeWhile is_digit s in if ds = [] then None else Some (ds, dropWhile is_digit s))"

definition scan_frac :: "string \<Rightarrow> (string \<times> string) option" where
  "scan_frac s =
     (case s of
        [] \<Rightarrow> Some ([], s)
      | c # cs \<Rightarrow>
          if c = CHR ''.'' then map_option (apfst (Cons c)) (scan_digits1 cs)
          else Some ([], s))"

definition scan_exp :: "string \<Rightarrow> (string \<times> string) option" where
  "scan_exp s =
     (case s of
        [] \<Rightarrow> Some ([], s)
      | c # cs \<Rightarrow>
          if c = CHR ''e'' \<or> c = CHR ''E'' then
            (case cs of
               [] \<Rightarrow> None
             | g # r \<Rightarrow>
                 if g = CHR ''+'' \<or> g = CHR ''-''
                 then map_option (apfst (\<lambda>d. c # g # d)) (scan_digits1 r)
                 else map_option (apfst (Cons c)) (scan_digits1 cs))
          else Some ([], s))"

definition scan_number :: "string \<Rightarrow> (string \<times> string) option" where
  "scan_number s =
     (let (sign, s1) = (case s of [] \<Rightarrow> ([], s)
                        | c # cs \<Rightarrow> if c = CHR ''-'' then ([c], cs) else ([], s)) in
      case scan_int s1 of None \<Rightarrow> None
      | Some (i, s2) \<Rightarrow>
          (case scan_frac s2 of None \<Rightarrow> None
           | Some (f, s3) \<Rightarrow>
               (case scan_exp s3 of None \<Rightarrow> None
                | Some (e, s4) \<Rightarrow> Some (sign @ i @ f @ e, s4))))"

lemma scan_digits1_length: "scan_digits1 s = Some (d, r) \<Longrightarrow> length r \<le> length s"
  using length_dropWhile_le by (auto simp: scan_digits1_def Let_def split: if_splits)

lemma map_option_apfst_Some:
  "map_option (apfst f) x = Some (b, r) \<longleftrightarrow> (\<exists>a. x = Some (a, r) \<and> b = f a)"
  by (cases x) auto

lemma scan_int_length: "scan_int s = Some (n, r) \<Longrightarrow> length r < length s"
  by (auto simp: scan_int_def less_Suc_eq_le length_dropWhile_le split: list.splits if_splits)

lemma scan_frac_length: "scan_frac s = Some (n, r) \<Longrightarrow> length r \<le> length s"
  by (auto simp: scan_frac_def map_option_apfst_Some split: list.splits if_splits
      dest: scan_digits1_length)

lemma scan_exp_length: "scan_exp s = Some (n, r) \<Longrightarrow> length r \<le> length s"
  by (auto simp: scan_exp_def map_option_apfst_Some split: list.splits if_splits
      dest: scan_digits1_length)

lemma scan_number_length:
  assumes "scan_number s = Some (n, r)"
  shows "length r < length s"
proof -
  define p where "p = (case s of [] \<Rightarrow> ([], s)
    | c # cs \<Rightarrow> if c = CHR ''-'' then ([c], cs) else ([], s))"
  have "length (snd p) \<le> length s" by (simp add: p_def split: list.split)
  moreover obtain i s2 f s3 e where
    "scan_int (snd p) = Some (i, s2)" "scan_frac s2 = Some (f, s3)" "scan_exp s3 = Some (e, r)"
    using assms unfolding scan_number_def p_def [symmetric] Let_def
    by (auto split: option.splits prod.splits)
  ultimately show ?thesis
    by (auto dest!: scan_int_length scan_frac_length scan_exp_length)
qed

lemma scan_string_step:
  assumes "scan_string (c # cs) = Some (b, r)"
  obtains "r = cs" | s a where "length s \<le> length cs" "scan_string s = Some (a, r)"
proof (cases "c = CHR 0x5C")
  case True
  then obtain e s where cs: "cs = e # s"
    using assms by (cases cs) (simp_all add: scan_string.simps(2))
  show ?thesis
  proof (cases "simple_escape e")
    case True
    with assms cs \<open>c = CHR 0x5C\<close> that(2) [of s] show ?thesis
      by (auto simp: scan_string.simps(2) map_option_apfst_Some)
  next
    case False
    with assms cs \<open>c = CHR 0x5C\<close> obtain h1 h2 h3 h4 s' a
      where "s = h1 # h2 # h3 # h4 # s'" "scan_string s' = Some (a, r)"
      by (auto simp: scan_string.simps(2) map_option_apfst_Some split: if_splits list.splits)
    with cs that(2) [of s'] show ?thesis by simp
  qed
next
  case False
  with assms that show ?thesis
    by (auto simp: scan_string.simps(2) map_option_apfst_Some split: if_splits)
qed

lemma scan_string_length: "scan_string s = Some (b, r) \<Longrightarrow> length r < length s"
proof (induction "length s" arbitrary: s b rule: less_induct)
  case less
  obtain c cs where s: "s = c # cs" using less.prems by (cases s) auto
  from less.prems [unfolded s] show ?case
  proof (cases rule: scan_string_step)
    case (2 s' a)
    with less.hyps [of s'] s show ?thesis by fastforce
  qed (simp add: s)
qed

definition prepend :: "'a list \<Rightarrow> 'a list option \<Rightarrow> 'a list option" where
  "prepend xs = map_option (\<lambda>ys. xs @ ys)"

lemma prepend_simps [simp]:
  "prepend [] z = z" "prepend xs None = None" "prepend xs (Some ys) = Some (xs @ ys)"
  "prepend xs (prepend ys z) = prepend (xs @ ys) z"
  by (cases z; simp add: prepend_def)+

function lex :: "string \<Rightarrow> tok list option" where
  "lex [] = Some []"
| "lex (c # cs) =
     (if is_ws c then lex cs
      else if c = CHR 0x7B then prepend [TLbrace] (lex cs)
      else if c = CHR 0x7D then prepend [TRbrace] (lex cs)
      else if c = CHR ''['' then prepend [TLbrack] (lex cs)
      else if c = CHR '']'' then prepend [TRbrack] (lex cs)
      else if c = CHR '':'' then prepend [TColon] (lex cs)
      else if c = CHR '','' then prepend [TComma] (lex cs)
      else if c = CHR 0x22 then
        (case scan_string cs of None \<Rightarrow> None
         | Some (b, r) \<Rightarrow> prepend [TStr b] (lex r))
      else if c = CHR ''t'' \<and> take 3 cs = ''rue'' then prepend [TBool True] (lex (drop 3 cs))
      else if c = CHR ''f'' \<and> take 4 cs = ''alse'' then prepend [TBool False] (lex (drop 4 cs))
      else if c = CHR ''n'' \<and> take 3 cs = ''ull'' then prepend [TNull] (lex (drop 3 cs))
      else if c = CHR ''-'' \<or> is_digit c then
        (case scan_number (c # cs) of None \<Rightarrow> None
         | Some (n, r) \<Rightarrow> prepend [TNum n] (lex r))
      else None)"
  by pat_completeness auto
termination
proof (relation "measure length", simp_all only: in_measure length_drop list.size wf_measure)
  show "length r < length cs + Suc 0" if "scan_string cs = Some x2" "(b, r) = x2" for cs b r x2
    using that scan_string_length [of cs b r] by simp
  show "length r < length cs + Suc 0" if "scan_number (c # cs) = Some x2" "(n, r) = x2" for c cs n r x2
    using that scan_number_length [of "c # cs" n r] by simp
qed

declare lex.simps(2) [simp del]

subsection \<open>Parsing\<close>

datatype frame = FArr "json list" | FObj "(string \<times> json) list" string

definition maxNestingDepth :: nat where
  "maxNestingDepth = 10000"

text \<open>\<open>parse_value st ts\<close> expects a value inside the open arrays and objects \<open>st\<close>;
  \<open>parse_rest st v ts\<close> has just read the value \<open>v\<close>. The elements of an open array or object
  are kept in reverse.\<close>

fun
  parse_value :: "frame list \<Rightarrow> tok list \<Rightarrow> json option" and
  parse_rest :: "frame list \<Rightarrow> json \<Rightarrow> tok list \<Rightarrow> json option"
where
  "parse_value st [] = None"
| "parse_value st (t # ts) =
     (case t of
        TNull \<Rightarrow> parse_rest st JNull ts
      | TBool b \<Rightarrow> parse_rest st (JBool b) ts
      | TNum n \<Rightarrow> parse_rest st (JNum n) ts
      | TStr b \<Rightarrow> parse_rest st (JStr b) ts
      | TLbrack \<Rightarrow>
          if length st < maxNestingDepth then
            (case ts of
               TRbrack # ts' \<Rightarrow> parse_rest st (JArr []) ts'
             | _ \<Rightarrow> parse_value (FArr [] # st) ts)
          else None
      | TLbrace \<Rightarrow>
          if length st < maxNestingDepth then
            (case ts of
               TRbrace # ts' \<Rightarrow> parse_rest st (JObj []) ts'
             | TStr k # TColon # ts' \<Rightarrow> parse_value (FObj [] k # st) ts'
             | _ \<Rightarrow> None)
          else None
      | _ \<Rightarrow> None)"
| "parse_rest st v [] = (if st = [] then Some v else None)"
| "parse_rest st v (t # ts) =
     (case st of
        [] \<Rightarrow> None
      | FArr vs # st' \<Rightarrow>
          (case t of
             TComma \<Rightarrow> parse_value (FArr (v # vs) # st') ts
           | TRbrack \<Rightarrow> parse_rest st' (JArr (rev (v # vs))) ts
           | _ \<Rightarrow> None)
      | FObj ms k # st' \<Rightarrow>
          (case t of
             TComma \<Rightarrow>
               (case ts of
                  TStr k' # TColon # ts' \<Rightarrow> parse_value (FObj ((k, v) # ms) k' # st') ts'
                | _ \<Rightarrow> None)
           | TRbrace \<Rightarrow> parse_rest st' (JObj (rev ((k, v) # ms))) ts
           | _ \<Rightarrow> None))"

definition parse_json :: "string \<Rightarrow> json option" where
  "parse_json s = Option.bind (lex s) (parse_value [])"

subsection \<open>Parsing what was printed\<close>

fun toks :: "json \<Rightarrow> tok list" where
  "toks JNull = [TNull]"
| "toks (JBool b) = [TBool b]"
| "toks (JNum n) = [TNum n]"
| "toks (JStr b) = [TStr b]"
| "toks (JArr js) = TLbrack # separate TComma (map toks js) @ [TRbrack]"
| "toks (JObj ms) =
     TLbrace # separate TComma (map (\<lambda>m. TStr (fst m) # TColon # toks (snd m)) ms) @ [TRbrace]"

fun depth :: "json \<Rightarrow> nat" where
  "depth (JArr js) = Suc (foldr (\<lambda>j. max (depth j)) js 0)"
| "depth (JObj ms) = Suc (foldr (\<lambda>m. max (depth (snd m))) ms 0)"
| "depth _ = 0"

text \<open>The documents the encoder builds: integers as numbers, quoted strings.\<close>

fun wf_json :: "json \<Rightarrow> bool" where
  "wf_json (JNum n) \<longleftrightarrow> (\<exists>i. n = show_int i)"
| "wf_json (JStr b) \<longleftrightarrow> (\<exists>s. b = quote_body s)"
| "wf_json (JArr js) \<longleftrightarrow> (\<forall>j\<in>set js. wf_json j)"
| "wf_json (JObj ms) \<longleftrightarrow> (\<forall>m\<in>set ms. (\<exists>s. fst m = quote_body s) \<and> wf_json (snd m))"
| "wf_json _ \<longleftrightarrow> True"

text \<open>What follows a value inside a document.\<close>

definition delim :: "string \<Rightarrow> bool" where
  "delim s \<longleftrightarrow> s = [] \<or> hd s = CHR '','' \<or> hd s = CHR '']'' \<or> hd s = CHR 0x7D"

lemma delim_Cons [simp]: "delim (CHR '','' # s)" "delim (CHR '']'' # s)" "delim (CHR 0x7D # s)" "delim []"
  by (simp_all add: delim_def)

lemma delim_not_digit: "delim (c # s) \<Longrightarrow> \<not> is_digit c \<and> c \<noteq> CHR ''.'' \<and> c \<noteq> CHR ''e'' \<and> c \<noteq> CHR ''E''"
  by (auto simp: delim_def is_digit_def digit_val_def)

lemma digit_0: "digit 0 = CHR ''0''"
  by code_simp

lemma show_nat_shape:
  "show_nat n = ''0'' \<or> (\<exists>c cs. show_nat n = c # cs \<and> c \<noteq> CHR ''0'' \<and> is_digit c \<and> (\<forall>x\<in>set cs. is_digit x))"
proof (induction n rule: show_nat.induct)
  case (1 n)
  show ?case
  proof (cases "n < 10")
    case True
    have "digit n \<noteq> CHR ''0''" if "n \<noteq> 0"
      using digit_val_digit [OF True] digit_val_digit [of 0] that by (auto simp: digit_0)
    with True show ?thesis
      by (subst (1 2) show_nat.simps) (auto simp: digit_0)
  next
    case False
    have "show_nat (n div 10) \<noteq> ''0''"
      using read_nat_show_nat [of "n div 10"] False by (auto simp: read_nat_def digit_val_def)
    with 1 False show ?thesis
      by (subst (1 2) show_nat.simps) auto
  qed
qed

lemma scan_int_show_nat: "delim s \<Longrightarrow> scan_int (show_nat n @ s) = Some (show_nat n, s)"
proof -
  assume d: "delim s"
  have stop: "takeWhile is_digit s = []" "dropWhile is_digit s = s"
    using delim_not_digit d by (cases s; simp)+
  from show_nat_shape [of n] show ?thesis
    by (auto simp: scan_int_def takeWhile_append2 dropWhile_append2 stop)
qed

lemma scan_number_show_int: "delim s \<Longrightarrow> scan_number (show_int i @ s) = Some (show_int i, s)"
proof -
  assume d: "delim s"
  then have "scan_frac s = Some ([], s)" "scan_exp s = Some ([], s)"
    by (cases s; auto simp: scan_frac_def scan_exp_def dest: delim_not_digit)+
  moreover have "show_nat (nat i) @ s \<noteq> CHR ''-'' # cs" for cs
    using show_nat_digits [of "nat i"] not_digit_minus(1) by (cases "show_nat (nat i)") auto
  ultimately show ?thesis
    using scan_int_show_nat [OF d, of "nat i"] scan_int_show_nat [OF d, of "nat (- i)"]
    by (cases "i < 0"; cases "show_nat (nat i) @ s") (auto simp: scan_number_def show_int_def)
qed

lemma lex_number: "delim s \<Longrightarrow> lex (show_int i @ s) = prepend [TNum (show_int i)] (lex s)"
proof -
  assume d: "delim s"
  obtain c cs where i: "show_int i = c # cs" and c: "c = CHR ''-'' \<or> is_digit c"
    using show_nat_shape [of "nat i"] show_nat_digits [of "nat i"]
    by (cases "i < 0"; cases "show_nat (nat i)") (auto simp: show_int_def)
  have "\<not> is_ws c \<and> c \<notin> {CHR 0x7B, CHR 0x7D, CHR ''['', CHR '']'', CHR '':'', CHR '','', CHR 0x22,
    CHR ''t'', CHR ''f'', CHR ''n''}"
    using c by (auto simp: is_digit_def digit_val_def is_ws_def)
  with c scan_number_show_int [OF d, of i] show ?thesis
    unfolding i by (simp add: lex.simps(2))
qed

lemma lex_punct:
  "lex (CHR 0x7B # s) = prepend [TLbrace] (lex s)"
  "lex (CHR 0x7D # s) = prepend [TRbrace] (lex s)"
  "lex (CHR ''['' # s) = prepend [TLbrack] (lex s)"
  "lex (CHR '']'' # s) = prepend [TRbrack] (lex s)"
  "lex (CHR '':'' # s) = prepend [TColon] (lex s)"
  "lex (CHR '','' # s) = prepend [TComma] (lex s)"
  by (simp_all add: lex.simps(2) is_ws_def)

lemma lex_string:
  "lex (CHR 0x22 # quote_body b @ CHR 0x22 # s) = prepend [TStr (quote_body b)] (lex s)"
  by (simp add: lex.simps(2) is_ws_def scan_quote_body)

lemma lex_words:
  "lex (''null'' @ s) = prepend [TNull] (lex s)"
  "lex (''true'' @ s) = prepend [TBool True] (lex s)"
  "lex (''false'' @ s) = prepend [TBool False] (lex s)"
  by (simp_all add: lex.simps(2) is_ws_def)

lemma lex_separate:
  assumes "\<And>x s. x \<in> set xs \<Longrightarrow> delim s \<Longrightarrow> lex (p x @ s) = prepend (q x) (lex s)" and "delim s"
  shows "lex (separate (CHR '','') (map p xs) @ s)
         = prepend (separate TComma (map q xs)) (lex s)"
  using assms(1)
proof (induction xs rule: induct_list012)
  case 1
  then show ?case by (cases "lex s") auto
next
  case (3 x y zs)
  then show ?case
    by (simp add: lex_punct assms(2))
qed (simp add: assms(2))

lemma lex_print_json:
  "wf_json j \<Longrightarrow> delim s \<Longrightarrow> lex (print_json j @ s) = prepend (toks j) (lex s)"
proof (induction j arbitrary: s)
  case (JNum n)
  then show ?case by (auto simp: lex_number)
next
  case (JStr b)
  then show ?case by (auto simp: lex_string)
next
  case (JArr js)
  then have "lex (separate (CHR '','') (map print_json js) @ CHR '']'' # s)
      = prepend (separate TComma (map toks js)) (lex (CHR '']'' # s))"
    by (intro lex_separate) auto
  then show ?case by (simp add: lex_punct)
next
  case (JObj ms)
  have "lex (separate (CHR '','')
         (map (\<lambda>m. CHR 0x22 # fst m @ CHR 0x22 # CHR '':'' # print_json (snd m)) ms) @ CHR 0x7D # s)
      = prepend (separate TComma (map (\<lambda>m. TStr (fst m) # TColon # toks (snd m)) ms))
          (lex (CHR 0x7D # s))"
  proof (intro lex_separate)
    fix m t assume m: "m \<in> set ms" and t: "delim t"
    from m JObj.prems obtain k where k: "fst m = quote_body k" by auto
    have "lex (print_json (snd m) @ t) = prepend (toks (snd m)) (lex t)"
      using JObj.prems m t by (intro JObj.IH [of m]) (auto simp: prod_set_defs)
    then show "lex ((CHR 0x22 # fst m @ CHR 0x22 # CHR '':'' # print_json (snd m)) @ t)
        = prepend (TStr (fst m) # TColon # toks (snd m)) (lex t)"
      by (simp add: k lex_string lex_punct)
  qed simp
  then show ?case by (simp add: lex_punct)
qed (use lex_words in auto)

lemma depth_le: "j \<in> set js \<Longrightarrow> depth j \<le> foldr (\<lambda>j. max (depth j)) js 0"
  by (induction js) auto

lemma depth_snd_le: "m \<in> set ms \<Longrightarrow> depth (snd m) \<le> foldr (\<lambda>m. max (depth (snd m))) ms 0"
  by (induction ms) auto

text \<open>What follows the first element of an array and the first member of an object.\<close>

primrec more_elements :: "json list \<Rightarrow> tok list" where
  "more_elements [] = []"
| "more_elements (j # js) = TComma # toks j @ more_elements js"

primrec more_members :: "(string \<times> json) list \<Rightarrow> tok list" where
  "more_members [] = []"
| "more_members (m # ms) = TComma # TStr (fst m) # TColon # toks (snd m) @ more_members ms"

lemma separate_elements: "separate TComma (map toks (j # js)) = toks j @ more_elements js"
  by (induction js arbitrary: j) auto

lemma separate_members:
  "separate TComma (map (\<lambda>m. TStr (fst m) # TColon # toks (snd m)) (m # ms))
   = TStr (fst m) # TColon # toks (snd m) @ more_members ms"
  by (induction ms arbitrary: m) auto

lemma parse_elements:
  assumes "\<And>j vs ts. j \<in> set js \<Longrightarrow>
      parse_value (FArr vs # st) (toks j @ ts) = parse_rest (FArr vs # st) j ts"
  shows "parse_rest (FArr vs # st) v (more_elements js @ TRbrack # ts)
         = parse_rest st (JArr (rev vs @ v # js)) ts"
  using assms by (induction js arbitrary: v vs) simp_all

lemma parse_members:
  assumes "\<And>m ws k ts. m \<in> set ms \<Longrightarrow>
      parse_value (FObj ws k # st) (toks (snd m) @ ts) = parse_rest (FObj ws k # st) (snd m) ts"
  shows "parse_rest (FObj ws k # st) v (more_members ms @ TRbrace # ts)
         = parse_rest st (JObj (rev ws @ (k, v) # ms)) ts"
  using assms by (induction ms arbitrary: k v ws) simp_all

lemma parse_array_open:
  "length st < maxNestingDepth \<Longrightarrow>
   parse_value st (TLbrack # toks j @ ts) = parse_value (FArr [] # st) (toks j @ ts)"
  by (cases j) simp_all

lemma parse_value_toks:
  "length st + depth j \<le> maxNestingDepth \<Longrightarrow> parse_value st (toks j @ ts) = parse_rest st j ts"
proof (induction j arbitrary: st ts)
  case (JArr js)
  have IH: "parse_value (FArr vs # st) (toks j @ ts') = parse_rest (FArr vs # st) j ts'"
    if "j \<in> set js" for j vs ts'
    using that depth_le [of j js] JArr.prems by (intro JArr.IH) auto
  show ?case
  proof (cases js)
    case (Cons j js')
    have "parse_value st (toks (JArr js) @ ts)
        = parse_value st (TLbrack # toks j @ more_elements js' @ TRbrack # ts)"
      unfolding Cons toks.simps separate_elements by simp
    also have "\<dots> = parse_rest (FArr [] # st) j (more_elements js' @ TRbrack # ts)"
      using JArr.prems IH Cons by (simp only: parse_array_open depth.simps) simp
    also have "\<dots> = parse_rest st (JArr js) ts"
      using IH Cons by (subst parse_elements) simp_all
    finally show ?thesis .
  qed (use JArr.prems in simp)
next
  case (JObj ms)
  have IH: "parse_value (FObj ws k # st) (toks (snd m) @ ts')
      = parse_rest (FObj ws k # st) (snd m) ts'" if "m \<in> set ms" for m ws k ts'
    using that depth_snd_le [of m ms] JObj.prems
    by (intro JObj.IH [of m]) (auto simp: prod_set_defs)
  show ?case
  proof (cases ms)
    case (Cons m ms')
    have "parse_value st (toks (JObj ms) @ ts)
        = parse_value (FObj [] (fst m) # st) (toks (snd m) @ more_members ms' @ TRbrace # ts)"
      using JObj.prems unfolding Cons toks.simps separate_members by simp
    also have "\<dots> = parse_rest (FObj [] (fst m) # st) (snd m) (more_members ms' @ TRbrace # ts)"
      using IH Cons by simp
    also have "\<dots> = parse_rest st (JObj ms) ts"
      using IH Cons by (subst parse_members) simp_all
    finally show ?thesis .
  qed (use JObj.prems in simp)
qed simp_all

lemma parse_print_json:
  "wf_json j \<Longrightarrow> depth j \<le> maxNestingDepth \<Longrightarrow> parse_json (print_json j) = Some j"
  using lex_print_json [of j "[]"] parse_value_toks [of "[]" j "[]"]
  by (simp add: parse_json_def)

end
