(* ===== verification/Gotime.thy ===== *)
theory Gotime
  imports Json
begin

text \<open>
  \<open>time.Time\<close> as the repository uses it: a value of \<open>ObjectMeta.CreationTimestamp\<close>, which is
  only ever the zero time or read from JSON, and is written back as JSON. A time is its wall
  clock reading with the offset of its zone. Writing is \<open>Time.MarshalJSON\<close> (RFC 3339 with
  trimmed nanoseconds), reading is \<open>Time.UnmarshalJSON\<close>, which parses with the layout
  \<open>2006-01-02T15:04:05Z07:00\<close>: an hour may have one digit, a fraction may follow the seconds,
  an offset may go up to 24:60.
\<close>

record Time =
  t_year :: nat
  t_month :: nat
  t_day :: nat
  t_hour :: nat
  t_min :: nat
  t_sec :: nat
  t_nsec :: nat
  t_offset :: int

definition zero_Time :: Time where
  "zero_Time = \<lparr>t_year = 1, t_month = 1, t_day = 1, t_hour = 0, t_min = 0, t_sec = 0, t_nsec = 0,
     t_offset = 0\<rparr>"

definition is_leap :: "nat \<Rightarrow> bool" where
  "is_leap y \<longleftrightarrow> 4 dvd y \<and> (\<not> 100 dvd y \<or> 400 dvd y)"

definition days_in :: "nat \<Rightarrow> nat \<Rightarrow> nat" where
  "days_in m y =
     (if m = 2 then (if is_leap y then 29 else 28)
      else if m = 4 \<or> m = 6 \<or> m = 9 \<or> m = 11 then 30 else 31)"

subsection \<open>Writing\<close>

primrec digits_n :: "nat \<Rightarrow> nat \<Rightarrow> string" where
  "digits_n 0 n = []"
| "digits_n (Suc k) n = digits_n k (n div 10) @ [digit (n mod 10)]"

definition trim_zeros :: "string \<Rightarrow> string" where
  "trim_zeros s = rev (dropWhile (\<lambda>c. c = CHR ''0'') (rev s))"

definition print_frac :: "nat \<Rightarrow> string" where
  "print_frac ns = (if ns = 0 then [] else CHR ''.'' # trim_zeros (digits_n 9 ns))"

definition print_zone :: "int \<Rightarrow> string" where
  "print_zone off =
     (if off = 0 then ''Z''
      else (let z = nat \<bar>off\<bar> div 60 in
        (if off < 0 then CHR ''-'' else CHR ''+'') # digits_n 2 (z div 60) @ CHR '':'' # digits_n 2 (z mod 60)))"

definition print_time :: "Time \<Rightarrow> string" where
  "print_time t =
     digits_n 4 (t_year t) @ CHR ''-'' # digits_n 2 (t_month t) @ CHR ''-'' # digits_n 2 (t_day t) @
     CHR ''T'' # digits_n 2 (t_hour t) @ CHR '':'' # digits_n 2 (t_min t) @ CHR '':'' #
     digits_n 2 (t_sec t) @ print_frac (t_nsec t) @ print_zone (t_offset t)"

text \<open>\<open>MarshalJSON\<close> refuses a year outside 0..9999 and a zone of 24 hours or more.\<close>

definition marshal_time :: "Time \<Rightarrow> string option" where
  "marshal_time t =
     (if t_year t \<le> 9999 \<and> nat \<bar>t_offset t\<bar> div 3600 < 24 then Some (print_time t) else None)"

subsection \<open>Reading\<close>

definition skip_char :: "char \<Rightarrow> string \<Rightarrow> string option" where
  "skip_char c s = (case s of [] \<Rightarrow> None | x # xs \<Rightarrow> if x = c then Some xs else None)"

definition getnum :: "bool \<Rightarrow> string \<Rightarrow> (nat \<times> string) option" where
  "getnum fixed s =
     (case s of
        [] \<Rightarrow> None
      | c # cs \<Rightarrow>
          (case digit_val c of
             None \<Rightarrow> None
           | Some d \<Rightarrow>
               (case cs of
                  [] \<Rightarrow> if fixed then None else Some (d, cs)
                | c' # cs' \<Rightarrow>
                    (case digit_val c' of
                       None \<Rightarrow> if fixed then None else Some (d, cs)
                     | Some d' \<Rightarrow> Some (10 * d + d', cs')))))"

definition getyear :: "string \<Rightarrow> (nat \<times> string) option" where
  "getyear s =
     (if length s < 4 then None
      else map_option (\<lambda>y. (y, drop 4 s)) (read_nat (take 4 s)))"

definition getfrac :: "string \<Rightarrow> nat \<times> string" where
  "getfrac s =
     (case s of
        c # d # _ \<Rightarrow>
          if (c = CHR ''.'' \<or> c = CHR '','') \<and> is_digit d then
            (let ds = take 9 (takeWhile is_digit (tl s)) in
               (case read_nat ds of
                  None \<Rightarrow> (0, s)
                | Some n \<Rightarrow> (n * 10 ^ (9 - length ds), dropWhile is_digit (tl s))))
          else (0, s)
      | _ \<Rightarrow> (0, s))"

definition getzone :: "string \<Rightarrow> (int \<times> string) option" where
  "getzone s =
     (case s of
        [] \<Rightarrow> None
      | c # cs \<Rightarrow>
          if c = CHR ''Z'' then Some (0, cs)
          else (case cs of
              h1 # h2 # k # m1 # m2 # r \<Rightarrow>
                if k = CHR '':'' then
                  (case (getnum True [h1, h2], getnum True [m1, m2]) of
                     (Some (hr, _), Some (mm, _)) \<Rightarrow>
                       if hr \<le> 24 \<and> mm \<le> 60 then
                         (if c = CHR ''+'' then Some (int ((hr * 60 + mm) * 60), r)
                          else if c = CHR ''-'' then Some (- int ((hr * 60 + mm) * 60), r)
                          else None)
                       else None
                   | _ \<Rightarrow> None)
                else None
            | _ \<Rightarrow> None))"

definition parse_time :: "string \<Rightarrow> Time option" where
  "parse_time s0 =
     Option.bind (getyear s0) (\<lambda>(year, s1).
     Option.bind (skip_char (CHR ''-'') s1) (\<lambda>s2.
     Option.bind (getnum True s2) (\<lambda>(month, s3).
     if month = 0 \<or> 12 < month then None else
     Option.bind (skip_char (CHR ''-'') s3) (\<lambda>s4.
     Option.bind (getnum True s4) (\<lambda>(day, s5).
     Option.bind (skip_char (CHR ''T'') s5) (\<lambda>s6.
     Option.bind (getnum False s6) (\<lambda>(hour, s7).
     if 24 \<le> hour then None else
     Option.bind (skip_char (CHR '':'') s7) (\<lambda>s8.
     Option.bind (getnum True s8) (\<lambda>(mins, s9).
     if 60 \<le> mins then None else
     Option.bind (skip_char (CHR '':'') s9) (\<lambda>s10.
     Option.bind (getnum True s10) (\<lambda>(sec, s11).
     if 60 \<le> sec then None else
     (let (nsec, s12) = getfrac s11 in
     Option.bind (getzone s12) (\<lambda>(off, s13).
     if s13 \<noteq> [] \<or> day = 0 \<or> days_in month year < day then None else
     Some \<lparr>t_year = year, t_month = month, t_day = day, t_hour = hour, t_min = mins, t_sec = sec,
       t_nsec = nsec, t_offset = off\<rparr>)))))))))))))"

subsection \<open>Reading what was written\<close>

text \<open>The times that JSON can hold.\<close>

definition valid_time :: "Time \<Rightarrow> bool" where
  "valid_time t \<longleftrightarrow>
     t_year t \<le> 9999 \<and> 1 \<le> t_month t \<and> t_month t \<le> 12 \<and> 1 \<le> t_day t \<and>
     t_day t \<le> days_in (t_month t) (t_year t) \<and> t_hour t < 24 \<and> t_min t < 60 \<and> t_sec t < 60 \<and>
     t_nsec t < 1000000000 \<and> 60 dvd t_offset t \<and> \<bar>t_offset t\<bar> < 86400"

lemma length_digits_n [simp]: "length (digits_n k n) = k"
  by (induction k arbitrary: n) auto

lemma digits_n_digits: "\<forall>c\<in>set (digits_n k n). is_digit c"
  by (induction k arbitrary: n) auto

lemma read_digits_n: "n < 10 ^ k \<Longrightarrow> read_digits acc (digits_n k n) = Some (acc * 10 ^ k + n)"
proof (induction k arbitrary: n)
  case (Suc k)
  have "n div 10 < 10 ^ k" using Suc.prems by (simp add: div_less_iff_less_mult)
  then show ?case using Suc.IH [of "n div 10"]
    by (simp add: read_digits_append algebra_simps)
qed simp

lemma digits_2: "digits_n 2 n = [digit (n div 10 mod 10), digit (n mod 10)]"
  by (simp add: numeral_2_eq_2)

lemma getnum_digits_n: "n < 100 \<Longrightarrow> getnum b (digits_n 2 n @ s) = Some (n, s)"
  by (simp add: digits_2 getnum_def)

lemma getyear_digits_n: "n \<le> 9999 \<Longrightarrow> getyear (digits_n 4 n @ s) = Some (n, s)"
proof -
  assume "n \<le> 9999"
  moreover have "digits_n 4 n \<noteq> []"
    using length_digits_n [of 4 n] by (metis list.size(3) zero_neq_numeral)
  ultimately show ?thesis
    using read_digits_n [of n 4 0] by (simp add: getyear_def read_nat_def)
qed

lemma trim_zeros_decomp: "\<exists>k. s = trim_zeros s @ replicate k (CHR ''0'')"
proof -
  define z where "z = takeWhile (\<lambda>c. c = CHR ''0'') (rev s)"
  have "replicate (length z) (CHR ''0'') = z"
    by (rule replicate_length_same) (auto simp: z_def dest: set_takeWhileD)
  then have "rev z = replicate (length z) (CHR ''0'')" by (metis rev_replicate)
  moreover have "s = trim_zeros s @ rev z"
    unfolding trim_zeros_def z_def by (simp flip: rev_append)
  ultimately show ?thesis by metis
qed

lemma read_digits_zeros: "read_digits acc (replicate k (CHR ''0'')) = Some (acc * 10 ^ k)"
  by (induction k arbitrary: acc) (auto simp: digit_val_def algebra_simps)

text \<open>Nanoseconds: the digits that were trimmed are the factor that the parser restores.\<close>

lemma trim_frac:
  assumes "0 < n" "n < 1000000000"
  obtains ds m where "trim_zeros (digits_n 9 n) = ds" "ds \<noteq> []" "length ds \<le> 9"
    "\<forall>c\<in>set ds. is_digit c" "read_nat ds = Some m" "m * 10 ^ (9 - length ds) = n"
proof -
  define ds where "ds = trim_zeros (digits_n 9 n)"
  obtain k where k: "digits_n 9 n = ds @ replicate k (CHR ''0'')"
    using trim_zeros_decomp unfolding ds_def by blast
  then have len: "length ds + k = 9"
    by (metis length_append length_digits_n length_replicate)
  have "read_digits 0 (ds @ replicate k (CHR ''0'')) = Some n"
    using read_digits_n [of n 9 0] assms(2) unfolding k by simp
  then obtain m where m: "read_digits 0 ds = Some m" "m * 10 ^ k = n"
    by (auto simp: read_digits_append read_digits_zeros bind_eq_Some_conv)
  moreover have "ds \<noteq> []" using m assms(1) by auto
  moreover have "\<forall>c\<in>set ds. is_digit c"
    using digits_n_digits [of 9 n] unfolding k by simp
  moreover have "9 - length ds = k" using len by simp
  ultimately show ?thesis
    using that [of ds m] ds_def len by (simp add: read_nat_def)
qed

lemma print_zone_start:
  "\<exists>c cs. print_zone off = c # cs \<and> \<not> is_digit c \<and> c \<noteq> CHR ''.'' \<and> c \<noteq> CHR '',''"
  by (simp add: print_zone_def Let_def is_digit_def digit_val_def)

lemma getfrac_print:
  assumes "ns < 1000000000"
  shows "getfrac (print_frac ns @ print_zone off) = (ns, print_zone off)"
proof -
  obtain c cs where z: "print_zone off = c # cs" "\<not> is_digit c" "c \<noteq> CHR ''.''" "c \<noteq> CHR '',''"
    using print_zone_start by blast
  show ?thesis
  proof (cases "ns = 0")
    case True
    with z show ?thesis by (simp add: print_frac_def getfrac_def split: list.splits)
  next
    case False
    obtain ds m where ds: "trim_zeros (digits_n 9 ns) = ds" "ds \<noteq> []" "length ds \<le> 9"
        "\<forall>c\<in>set ds. is_digit c" "read_nat ds = Some m" "m * 10 ^ (9 - length ds) = ns"
      using trim_frac [of ns] False assms by blast
    then obtain d ds' where d: "ds = d # ds'" by (cases ds) auto
    have "takeWhile is_digit (ds @ c # cs) = ds" "dropWhile is_digit (ds @ c # cs) = c # cs"
      using ds(4) z(2) by (simp_all add: takeWhile_append2 dropWhile_append2)
    with ds d z False show ?thesis by (simp add: print_frac_def getfrac_def)
  qed
qed

lemma getzone_print:
  assumes "60 dvd off" "\<bar>off\<bar> < 86400"
  shows "getzone (print_zone off) = Some (off, [])"
proof (cases "off = 0")
  case False
  define z where "z = nat \<bar>off\<bar> div 60"
  have z: "z < 1440" "int z * 60 = \<bar>off\<bar>"
    using assms by (auto simp: z_def zdiv_int dvd_div_mult_self)
  define hr where "hr = z div 60"
  define mm where "mm = z mod 60"
  have hm: "hr < 24" "mm < 60" "hr * 60 + mm = z"
    using z(1) by (auto simp: hr_def mm_def)
  have "getnum True (digits_n 2 n) = Some (n, [])" if "n < 100" for n
    using getnum_digits_n [OF that, of True "[]"] by simp
  then have "getnum True [digit (hr div 10 mod 10), digit (hr mod 10)] = Some (hr, [])"
    "getnum True [digit (mm div 10 mod 10), digit (mm mod 10)] = Some (mm, [])"
    using hm by (simp_all add: digits_2)
  with False hm z(2) show ?thesis
    by (auto simp: print_zone_def getzone_def digits_2 Let_def simp flip: z_def hr_def mm_def)
qed (simp add: print_zone_def getzone_def)

lemma skip_char_Cons [simp]: "skip_char c (c # s) = Some s"
  by (simp add: skip_char_def)

lemma valid_time_days: "valid_time t \<Longrightarrow> t_day t < 100"
  by (auto simp: valid_time_def days_in_def split: if_splits)

lemma parse_print_time: "valid_time t \<Longrightarrow> parse_time (print_time t) = Some t"
  using valid_time_days [of t]
  by (simp add: valid_time_def parse_time_def print_time_def getyear_digits_n getnum_digits_n
      getfrac_print getzone_print)

lemma marshal_valid_time: "valid_time t \<Longrightarrow> marshal_time t = Some (print_time t)"
  by (auto simp: valid_time_def marshal_time_def)

lemma safe_char_is_digit: "is_digit c \<Longrightarrow> safe_char c"
  by (auto simp: is_digit_def digit_val_def safe_char_def byte_in_def Let_def split: if_splits)

lemma safe_digits_n: "list_all safe_char (digits_n k n)"
  using digits_n_digits safe_char_is_digit by (auto simp: list_all_iff)

lemma safe_trim_zeros: "list_all safe_char s \<Longrightarrow> list_all safe_char (trim_zeros s)"
  unfolding trim_zeros_def list_all_iff using set_dropWhileD by fastforce

lemma safe_print_time: "\<forall>c\<in>set (print_time t). safe_char c"
proof -
  have "safe_char (CHR ''-'')" "safe_char (CHR '':'')" "safe_char (CHR ''T'')"
    "safe_char (CHR ''.'')" "safe_char (CHR ''+'')" "safe_char (CHR ''Z'')"
    by (simp_all add: safe_char_def byte_in_def)
  then have "list_all safe_char (print_time t)"
    by (simp add: print_time_def print_frac_def print_zone_def Let_def safe_digits_n safe_trim_zeros)
  then show ?thesis by (simp add: list_all_iff)
qed

end
