(* ===== verification/Api.thy ===== *)
theory Api
  imports Goerror Gotime
begin

text \<open>
  The API objects (\<open>pkg/api/types.go\<close>, \<open>pkg/api/pod.go\<close>, \<open>pkg/api/node.go\<close>): pods, nodes and
  replica sets as records with the source's fields, their zero values, validation by struct
  tags, and the ownership test of the replica set controller. Status types are strings, as in
  the source: JSON can put any string there. A slice or map is \<open>None\<close> when it is nil.
  \<open>int32\<close> fields are 32-bit words read with \<^const>\<open>sint\<close>.
\<close>

subsection \<open>Types\<close>

type_synonym PodStatus = string

definition PodPending :: PodStatus where "PodPending = ''Pending''"
definition PodRunning :: PodStatus where "PodRunning = ''Running''"
definition PodSucceeded :: PodStatus where "PodSucceeded = ''Succeeded''"
definition PodFailed :: PodStatus where "PodFailed = ''Failed''"
definition PodScheduled :: PodStatus where "PodScheduled = ''Scheduled''"

type_synonym NodeStatus = string

definition NodeNotReady :: NodeStatus where "NodeNotReady = ''NotReady''"
definition NodeReady :: NodeStatus where "NodeReady = ''Ready''"

lemmas status_defs = PodPending_def PodRunning_def PodSucceeded_def PodFailed_def PodScheduled_def
  NodeNotReady_def NodeReady_def

record Container =
  Container_Name :: string
  Container_Image :: string

record ObjectMeta =
  Meta_Name :: string
  Meta_Namespace :: string
  Meta_UID :: string
  Meta_ResourceVersion :: string
  Meta_CreationTimestamp :: Time

record NodeSpec =
  NodeSpec_Unschedulable :: bool
  NodeSpec_ProviderID :: string

record Node =
  Node_ObjectMeta :: ObjectMeta
  Node_Spec :: NodeSpec
  Node_Status :: NodeStatus

record PodSpec =
  PodSpec_Containers :: "Container list option"
  PodSpec_Replicas :: int32

record Pod =
  Pod_ObjectMeta :: ObjectMeta
  Pod_Spec :: PodSpec
  Pod_NodeName :: string
  Pod_Status :: PodStatus

record PodTemplateSpec =
  Template_ObjectMeta :: ObjectMeta
  Template_Spec :: PodSpec

record ReplicaSetSpec =
  RSSpec_Replicas :: int32
  RSSpec_Selector :: "(string \<times> string) list option"
  RSSpec_Template :: PodTemplateSpec

record ReplicaSetStatus =
  RSStatus_Replicas :: int32
  RSStatus_FullyLabeledReplicas :: int32
  RSStatus_ReadyReplicas :: int32
  RSStatus_AvailableReplicas :: int32

record ReplicaSet =
  RS_ObjectMeta :: ObjectMeta
  RS_Spec :: ReplicaSetSpec
  RS_Status :: ReplicaSetStatus

abbreviation Pod_Name :: "Pod \<Rightarrow> string" where "Pod_Name p \<equiv> Meta_Name (Pod_ObjectMeta p)"
abbreviation Node_Name :: "Node \<Rightarrow> string" where "Node_Name n \<equiv> Meta_Name (Node_ObjectMeta n)"
abbreviation RS_Name :: "ReplicaSet \<Rightarrow> string" where "RS_Name r \<equiv> Meta_Name (RS_ObjectMeta r)"

text \<open>Ranging over a nil slice visits nothing.\<close>

definition slice :: "'a list option \<Rightarrow> 'a list" where
  "slice s = (case s of None \<Rightarrow> [] | Some xs \<Rightarrow> xs)"

lemma slice_simps [simp]: "slice None = []" "slice (Some xs) = xs"
  by (simp_all add: slice_def)

subsection \<open>Zero values\<close>

definition zero_Container :: Container where
  "zero_Container = \<lparr>Container_Name = '''', Container_Image = ''''\<rparr>"

definition zero_ObjectMeta :: ObjectMeta where
  "zero_ObjectMeta = \<lparr>Meta_Name = '''', Meta_Namespace = '''', Meta_UID = '''',
     Meta_ResourceVersion = '''', Meta_CreationTimestamp = zero_Time\<rparr>"

definition zero_NodeSpec :: NodeSpec where
  "zero_NodeSpec = \<lparr>NodeSpec_Unschedulable = False, NodeSpec_ProviderID = ''''\<rparr>"

definition zero_Node :: Node where
  "zero_Node = \<lparr>Node_ObjectMeta = zero_ObjectMeta, Node_Spec = zero_NodeSpec, Node_Status = ''''\<rparr>"

definition zero_PodSpec :: PodSpec where
  "zero_PodSpec = \<lparr>PodSpec_Containers = None, PodSpec_Replicas = 0\<rparr>"

definition zero_Pod :: Pod where
  "zero_Pod = \<lparr>Pod_ObjectMeta = zero_ObjectMeta, Pod_Spec = zero_PodSpec, Pod_NodeName = '''',
     Pod_Status = ''''\<rparr>"

definition zero_PodTemplateSpec :: PodTemplateSpec where
  "zero_PodTemplateSpec = \<lparr>Template_ObjectMeta = zero_ObjectMeta, Template_Spec = zero_PodSpec\<rparr>"

definition zero_ReplicaSetSpec :: ReplicaSetSpec where
  "zero_ReplicaSetSpec = \<lparr>RSSpec_Replicas = 0, RSSpec_Selector = None,
     RSSpec_Template = zero_PodTemplateSpec\<rparr>"

definition zero_ReplicaSetStatus :: ReplicaSetStatus where
  "zero_ReplicaSetStatus = \<lparr>RSStatus_Replicas = 0, RSStatus_FullyLabeledReplicas = 0,
     RSStatus_ReadyReplicas = 0, RSStatus_AvailableReplicas = 0\<rparr>"

definition zero_ReplicaSet :: ReplicaSet where
  "zero_ReplicaSet = \<lparr>RS_ObjectMeta = zero_ObjectMeta, RS_Spec = zero_ReplicaSetSpec,
     RS_Status = zero_ReplicaSetStatus\<rparr>"

lemmas zero_defs = zero_Container_def zero_ObjectMeta_def zero_NodeSpec_def zero_Node_def
  zero_PodSpec_def zero_Pod_def zero_PodTemplateSpec_def zero_ReplicaSetSpec_def
  zero_ReplicaSetStatus_def zero_ReplicaSet_def

text \<open>\<open>runtime.Object\<close> is \<open>interface{}\<close>; these are the dynamic types the program stores in it.\<close>

datatype Object = PodObj Pod | NodeObj Node | ReplicaSetObj ReplicaSet

subsection \<open>Validation\<close>

text \<open>
  \<open>validator.New().Struct\<close> belongs to \<open>go-playground/validator\<close>: the operations that validate
  take it as an argument. The struct tags are the repository's: \<open>required\<close> on a string means
  not empty, on a slice not nil; \<open>dive\<close> validates the elements; \<open>gte=0\<close> is signed.
\<close>

type_synonym validator = "Object \<Rightarrow> error option"

definition container_tags :: "Container \<Rightarrow> bool" where
  "container_tags c \<longleftrightarrow> Container_Name c \<noteq> '''' \<and> Container_Image c \<noteq> ''''"

definition meta_tags :: "ObjectMeta \<Rightarrow> bool" where
  "meta_tags m \<longleftrightarrow> Meta_Name m \<noteq> ''''"

definition podspec_tags :: "PodSpec \<Rightarrow> bool" where
  "podspec_tags s \<longleftrightarrow> PodSpec_Containers s \<noteq> None \<and>
     list_all container_tags (slice (PodSpec_Containers s)) \<and> 0 \<le> sint (PodSpec_Replicas s)"

definition replicaset_tags :: "ReplicaSet \<Rightarrow> bool" where
  "replicaset_tags r \<longleftrightarrow> meta_tags (RS_ObjectMeta r) \<and> 0 \<le> sint (RSSpec_Replicas (RS_Spec r)) \<and>
     meta_tags (Template_ObjectMeta (RSSpec_Template (RS_Spec r))) \<and>
     podspec_tags (Template_Spec (RSSpec_Template (RS_Spec r)))"

fun struct_tags :: "Object \<Rightarrow> bool" where
  "struct_tags (PodObj p) \<longleftrightarrow> meta_tags (Pod_ObjectMeta p) \<and> podspec_tags (Pod_Spec p)"
| "struct_tags (NodeObj n) \<longleftrightarrow> meta_tags (Node_ObjectMeta n)"
| "struct_tags (ReplicaSetObj r) \<longleftrightarrow> replicaset_tags r"

text \<open>What the validator promises: it accepts a struct exactly when the tags hold.\<close>

locale struct_validator =
  fixes V :: validator
  assumes validates: "V obj = None \<longleftrightarrow> struct_tags obj"

definition tag_validator :: validator where
  "tag_validator obj = (if struct_tags obj then None else Some (External ''validation''))"

interpretation tags: struct_validator tag_validator
  by unfold_locales (simp add: tag_validator_def)

definition Pod_Validate :: "validator \<Rightarrow> Pod \<Rightarrow> error option" where
  "Pod_Validate V p =
     (case V (PodObj p) of
        Some err \<Rightarrow> Some (wrap_cause ErrInvalidPodSpec '''' err)
      | None \<Rightarrow> None)"

definition Node_Validate :: "validator \<Rightarrow> Node \<Rightarrow> error option" where
  "Node_Validate V n =
     (case V (NodeObj n) of
        Some err \<Rightarrow> Some (Sentinel ErrInvalidNodeSpec)
      | None \<Rightarrow> None)"

context struct_validator
begin

lemma Pod_Validate_None: "Pod_Validate V p = None \<longleftrightarrow> struct_tags (PodObj p)"
  by (simp add: Pod_Validate_def validates [symmetric] split: option.split)

lemma Node_Validate_None: "Node_Validate V n = None \<longleftrightarrow> struct_tags (NodeObj n)"
  by (simp add: Node_Validate_def validates [symmetric] split: option.split)

end

subsection \<open>Activity and ownership\<close>

definition Pod_IsActive :: "Pod \<Rightarrow> bool" where
  "Pod_IsActive p \<longleftrightarrow> Pod_Status p \<noteq> PodFailed"

definition IsOwnedBy :: "Pod \<Rightarrow> ObjectMeta \<Rightarrow> bool" where
  "IsOwnedBy pod meta \<longleftrightarrow> prefix (Meta_Name meta) (Pod_Name pod)"

definition IsPodActiveAndOwnedBy :: "Pod \<Rightarrow> ObjectMeta \<Rightarrow> bool" where
  "IsPodActiveAndOwnedBy pod meta \<longleftrightarrow> IsOwnedBy pod meta \<and> Pod_IsActive pod"

end
