(* ===== verification/Runtime.thy ===== *)
theory Runtime
  imports Api
begin

text \<open>
  \<open>pkg/runtime/object.go\<close>: \<open>Encode\<close> and \<open>Decode\<close> are \<open>json.Marshal\<close> and \<open>json.Unmarshal\<close>.
  Both follow the struct tags of \<open>pkg/api\<close>: field names, field order, \<open>omitempty\<close>. Decoding
  writes into an existing value: absent fields and \<open>null\<close> leave it alone, field names match
  exactly or after case folding, unknown fields are skipped. The main result is that an
  encoded object decodes to itself (\<open>Decode_Encode\<close>).
\<close>

subsection \<open>Decoding into a value\<close>

type_synonym 'a dec = "json \<Rightarrow> 'a \<Rightarrow> 'a option"

definition dec_string :: "string dec" where
  "dec_string j old = (case j of JNull \<Rightarrow> Some old | JStr b \<Rightarrow> unquote b | _ \<Rightarrow> None)"

definition dec_bool :: "bool dec" where
  "dec_bool j old = (case j of JNull \<Rightarrow> Some old | JBool b \<Rightarrow> Some b | _ \<Rightarrow> None)"

definition dec_int32 :: "int32 dec" where
  "dec_int32 j old =
     (case j of
        JNull \<Rightarrow> Some old
      | JNum n \<Rightarrow>
          (case read_int n of
             None \<Rightarrow> None
           | Some i \<Rightarrow> if - (2 ^ 31) \<le> i \<and> i < 2 ^ 31 then Some (word_of_int i) else None)
      | _ \<Rightarrow> None)"

definition dec_time :: "Time dec" where
  "dec_time j old = (case j of JNull \<Rightarrow> Some old | JStr b \<Rightarrow> parse_time b | _ \<Rightarrow> None)"

text \<open>The elements of a slice are decoded into the elements it has, then into zero values.\<close>

fun dec_elements :: "'a dec \<Rightarrow> 'a \<Rightarrow> json list \<Rightarrow> 'a list \<Rightarrow> 'a list option" where
  "dec_elements d zero [] olds = Some []"
| "dec_elements d zero (j # js) olds =
     Option.bind (d j (case olds of [] \<Rightarrow> zero | old # _ \<Rightarrow> old))
       (\<lambda>x. map_option (Cons x) (dec_elements d zero js (tl olds)))"

definition dec_slice :: "'a dec \<Rightarrow> 'a \<Rightarrow> 'a list option dec" where
  "dec_slice d zero j old =
     (case j of
        JNull \<Rightarrow> Some None
      | JArr js \<Rightarrow> map_option Some (dec_elements d zero js (slice old))
      | _ \<Rightarrow> None)"

text \<open>Entries are added to the map that is there.\<close>

fun dec_entries :: "(string \<times> json) list \<Rightarrow> (string \<times> string) list \<Rightarrow> (string \<times> string) list option" where
  "dec_entries [] m = Some m"
| "dec_entries (e # es) m =
     Option.bind (unquote (fst e)) (\<lambda>k. Option.bind (dec_string (snd e) '''')
       (\<lambda>v. dec_entries es (alist_put k v m)))"

definition dec_map :: "(string \<times> string) list option dec" where
  "dec_map j old =
     (case j of
        JNull \<Rightarrow> Some None
      | JObj es \<Rightarrow> map_option Some (dec_entries es (slice old))
      | _ \<Rightarrow> None)"

text \<open>\<open>foldName\<close>, as far as it can match an ASCII field name: letters to upper case, and the
  two other code points that fold to ASCII (U+017F to \<open>S\<close>, U+212A to \<open>K\<close>).\<close>

function fold_name :: "string \<Rightarrow> string" where
  "fold_name [] = []"
| "fold_name (c # cs) =
     (if byte_in 97 122 c then char_of (of_char c - 32 :: nat) # fold_name cs
      else if c # take 1 cs = encode_rune 383 then CHR ''S'' # fold_name (drop 1 cs)
      else if c # take 2 cs = encode_rune 8490 then CHR ''K'' # fold_name (drop 2 cs)
      else c # fold_name cs)"
  by pat_completeness auto
termination
  by (relation "measure length") (auto simp only: in_measure length_drop list.size wf_measure)

definition lookup_field :: "(string \<times> 'a dec) list \<Rightarrow> string \<Rightarrow> 'a dec option" where
  "lookup_field fs n =
     (case map_of fs n of
        Some d \<Rightarrow> Some d
      | None \<Rightarrow> map_option snd (find (\<lambda>f. fold_name (fst f) = fold_name n) fs))"

fun dec_members :: "(string \<times> 'a dec) list \<Rightarrow> (string \<times> json) list \<Rightarrow> 'a \<Rightarrow> 'a option" where
  "dec_members fs [] s = Some s"
| "dec_members fs (m # ms) s =
     Option.bind (unquote (fst m)) (\<lambda>n.
       Option.bind (case lookup_field fs n of None \<Rightarrow> Some s | Some d \<Rightarrow> d (snd m) s)
         (dec_members fs ms))"

definition dec_struct :: "(string \<times> 'a dec) list \<Rightarrow> 'a dec" where
  "dec_struct fs j old =
     (case j of JNull \<Rightarrow> Some old | JObj ms \<Rightarrow> dec_members fs ms old | _ \<Rightarrow> None)"

text \<open>A field of a struct: how to read it, how to replace it, how its type decodes.\<close>

definition field :: "('s \<Rightarrow> 'a) \<Rightarrow> (('a \<Rightarrow> 'a) \<Rightarrow> 's \<Rightarrow> 's) \<Rightarrow> 'a dec \<Rightarrow> 's dec" where
  "field get upd d j s = map_option (\<lambda>a. upd (\<lambda>_. a) s) (d j (get s))"

definition dec_Container :: "Container dec" where
  "dec_Container = dec_struct
     [(''name'', field Container_Name Container_Name_update dec_string),
      (''image'', field Container_Image Container_Image_update dec_string)]"

definition dec_ObjectMeta :: "ObjectMeta dec" where
  "dec_ObjectMeta = dec_struct
     [(''name'', field Meta_Name Meta_Name_update dec_string),
      (''namespace'', field Meta_Namespace Meta_Namespace_update dec_string),
      (''uid'', field Meta_UID Meta_UID_update dec_string),
      (''resourceVersion'', field Meta_ResourceVersion Meta_ResourceVersion_update dec_string),
      (''creationTimestamp'',
        field Meta_CreationTimestamp Meta_CreationTimestamp_update dec_time)]"

definition dec_NodeSpec :: "NodeSpec dec" where
  "dec_NodeSpec = dec_struct
     [(''unschedulable'', field NodeSpec_Unschedulable NodeSpec_Unschedulable_update dec_bool),
      (''providerID'', field NodeSpec_ProviderID NodeSpec_ProviderID_update dec_string)]"

definition dec_Node :: "Node dec" where
  "dec_Node = dec_struct
     [(''metadata'', field Node_ObjectMeta Node_ObjectMeta_update dec_ObjectMeta),
      (''spec'', field Node_Spec Node_Spec_update dec_NodeSpec),
      (''status'', field Node_Status Node_Status_update dec_string)]"

definition dec_PodSpec :: "PodSpec dec" where
  "dec_PodSpec = dec_struct
     [(''containers'', field PodSpec_Containers PodSpec_Containers_update
        (dec_slice dec_Container zero_Container)),
      (''replicas'', field PodSpec_Replicas PodSpec_Replicas_update dec_int32)]"

definition dec_Pod :: "Pod dec" where
  "dec_Pod = dec_struct
     [(''metadata'', field Pod_ObjectMeta Pod_ObjectMeta_update dec_ObjectMeta),
      (''spec'', field Pod_Spec Pod_Spec_update dec_PodSpec),
      (''nodeName'', field Pod_NodeName Pod_NodeName_update dec_string),
      (''status'', field Pod_Status Pod_Status_update dec_string)]"

definition dec_PodTemplateSpec :: "PodTemplateSpec dec" where
  "dec_PodTemplateSpec = dec_struct
     [(''metadata'', field Template_ObjectMeta Template_ObjectMeta_update dec_ObjectMeta),
      (''spec'', field Template_Spec Template_Spec_update dec_PodSpec)]"

definition dec_ReplicaSetSpec :: "ReplicaSetSpec dec" where
  "dec_ReplicaSetSpec = dec_struct
     [(''replicas'', field RSSpec_Replicas RSSpec_Replicas_update dec_int32),
      (''selector'', field RSSpec_Selector RSSpec_Selector_update dec_map),
      (''template'', field RSSpec_Template RSSpec_Template_update dec_PodTemplateSpec)]"

definition dec_ReplicaSetStatus :: "ReplicaSetStatus dec" where
  "dec_ReplicaSetStatus = dec_struct
     [(''replicas'', field RSStatus_Replicas RSStatus_Replicas_update dec_int32),
      (''fullyLabeledReplicas'',
        field RSStatus_FullyLabeledReplicas RSStatus_FullyLabeledReplicas_update dec_int32),
      (''readyReplicas'', field RSStatus_ReadyReplicas RSStatus_ReadyReplicas_update dec_int32),
      (''availableReplicas'',
        field RSStatus_AvailableReplicas RSStatus_AvailableReplicas_update dec_int32)]"

definition dec_ReplicaSet :: "ReplicaSet dec" where
  "dec_ReplicaSet = dec_struct
     [(''metadata'', field RS_ObjectMeta RS_ObjectMeta_update dec_ObjectMeta),
      (''spec'', field RS_Spec RS_Spec_update dec_ReplicaSetSpec),
      (''status'', field RS_Status RS_Status_update dec_ReplicaSetStatus)]"

subsection \<open>Encoding\<close>

definition enc_string :: "string \<Rightarrow> json" where
  "enc_string s = JStr (quote_body s)"

definition enc_int32 :: "int32 \<Rightarrow> json" where
  "enc_int32 w = JNum (show_int (sint w))"

definition enc_slice :: "('a \<Rightarrow> json) \<Rightarrow> 'a list option \<Rightarrow> json" where
  "enc_slice e s = (case s of None \<Rightarrow> JNull | Some xs \<Rightarrow> JArr (map e xs))"

definition enc_map :: "(string \<times> string) list option \<Rightarrow> json" where
  "enc_map s =
     (case s of None \<Rightarrow> JNull
      | Some es \<Rightarrow> JObj (map (\<lambda>e. (quote_body (fst e), enc_string (snd e))) es))"

text \<open>A struct: its fields with their names, whether \<open>omitempty\<close> drops them, and their values.\<close>

definition enc_struct :: "(string \<times> bool \<times> json) list \<Rightarrow> json" where
  "enc_struct fs =
     JObj (map (\<lambda>(n, omit, j). (quote_body n, j)) (filter (\<lambda>(n, omit, j). \<not> omit) fs))"

definition enc_Container :: "Container \<Rightarrow> json" where
  "enc_Container c = enc_struct
     [(''name'', False, enc_string (Container_Name c)),
      (''image'', False, enc_string (Container_Image c))]"

text \<open>The only encoder that can fail is that of the timestamp.\<close>

definition enc_ObjectMeta :: "ObjectMeta \<Rightarrow> json option" where
  "enc_ObjectMeta m =
     map_option (\<lambda>t. enc_struct
       [(''name'', False, enc_string (Meta_Name m)),
        (''namespace'', Meta_Namespace m = '''', enc_string (Meta_Namespace m)),
        (''uid'', Meta_UID m = '''', enc_string (Meta_UID m)),
        (''resourceVersion'', Meta_ResourceVersion m = '''', enc_string (Meta_ResourceVersion m)),
        (''creationTimestamp'', False, JStr t)])
       (marshal_time (Meta_CreationTimestamp m))"

definition enc_NodeSpec :: "NodeSpec \<Rightarrow> json" where
  "enc_NodeSpec s = enc_struct
     [(''unschedulable'', \<not> NodeSpec_Unschedulable s, JBool (NodeSpec_Unschedulable s)),
      (''providerID'', NodeSpec_ProviderID s = '''', enc_string (NodeSpec_ProviderID s))]"

definition enc_Node :: "Node \<Rightarrow> json option" where
  "enc_Node n =
     map_option (\<lambda>m. enc_struct
       [(''metadata'', False, m),
        (''spec'', False, enc_NodeSpec (Node_Spec n)),
        (''status'', Node_Status n = '''', enc_string (Node_Status n))])
       (enc_ObjectMeta (Node_ObjectMeta n))"

definition enc_PodSpec :: "PodSpec \<Rightarrow> json" where
  "enc_PodSpec s = enc_struct
     [(''containers'', False, enc_slice enc_Container (PodSpec_Containers s)),
      (''replicas'', False, enc_int32 (PodSpec_Replicas s))]"

definition enc_Pod :: "Pod \<Rightarrow> json option" where
  "enc_Pod p =
     map_option (\<lambda>m. enc_struct
       [(''metadata'', False, m),
        (''spec'', False, enc_PodSpec (Pod_Spec p)),
        (''nodeName'', Pod_NodeName p = '''', enc_string (Pod_NodeName p)),
        (''status'', False, enc_string (Pod_Status p))])
       (enc_ObjectMeta (Pod_ObjectMeta p))"

definition enc_PodTemplateSpec :: "PodTemplateSpec \<Rightarrow> json option" where
  "enc_PodTemplateSpec t =
     map_option (\<lambda>m. enc_struct
       [(''metadata'', False, m),
        (''spec'', False, enc_PodSpec (Template_Spec t))])
       (enc_ObjectMeta (Template_ObjectMeta t))"

definition enc_ReplicaSetSpec :: "ReplicaSetSpec \<Rightarrow> json option" where
  "enc_ReplicaSetSpec s =
     map_option (\<lambda>t. enc_struct
       [(''replicas'', False, enc_int32 (RSSpec_Replicas s)),
        (''selector'', False, enc_map (RSSpec_Selector s)),
        (''template'', False, t)])
       (enc_PodTemplateSpec (RSSpec_Template s))"

definition enc_ReplicaSetStatus :: "ReplicaSetStatus \<Rightarrow> json" where
  "enc_ReplicaSetStatus s = enc_struct
     [(''replicas'', False, enc_int32 (RSStatus_Replicas s)),
      (''fullyLabeledReplicas'', RSStatus_FullyLabeledReplicas s = 0,
        enc_int32 (RSStatus_FullyLabeledReplicas s)),
      (''readyReplicas'', RSStatus_ReadyReplicas s = 0, enc_int32 (RSStatus_ReadyReplicas s)),
      (''availableReplicas'', RSStatus_AvailableReplicas s = 0,
        enc_int32 (RSStatus_AvailableReplicas s))]"

definition enc_ReplicaSet :: "ReplicaSet \<Rightarrow> json option" where
  "enc_ReplicaSet r =
     Option.bind (enc_ObjectMeta (RS_ObjectMeta r)) (\<lambda>m.
     Option.bind (enc_ReplicaSetSpec (RS_Spec r)) (\<lambda>s. Some (enc_struct
       [(''metadata'', False, m),
        (''spec'', False, s),
        (''status'', False, enc_ReplicaSetStatus (RS_Status r))])))"

subsection \<open>Encode and Decode\<close>

fun enc_Object :: "Object \<Rightarrow> json option" where
  "enc_Object (PodObj p) = enc_Pod p"
| "enc_Object (NodeObj n) = enc_Node n"
| "enc_Object (ReplicaSetObj r) = enc_ReplicaSet r"

fun dec_Object :: "Object dec" where
  "dec_Object j (PodObj p) = map_option PodObj (dec_Pod j p)"
| "dec_Object j (NodeObj n) = map_option NodeObj (dec_Node j n)"
| "dec_Object j (ReplicaSetObj r) = map_option ReplicaSetObj (dec_ReplicaSet j r)"

definition Encode :: "Object \<Rightarrow> error + bytes" where
  "Encode obj =
     (case enc_Object obj of
        None \<Rightarrow> Inl (JsonError MarshalerError)
      | Some j \<Rightarrow> Inr (print_json j))"

text \<open>\<open>Decode data obj\<close> returns the object the pointer \<open>obj\<close> refers to afterwards.\<close>

definition Decode :: "bytes \<Rightarrow> Object \<Rightarrow> error + Object" where
  "Decode data obj =
     (case parse_json data of
        None \<Rightarrow> Inl (JsonError SyntaxError)
      | Some j \<Rightarrow>
          (case dec_Object j obj of
             None \<Rightarrow> Inl (JsonError DecodeError)
           | Some obj' \<Rightarrow> Inr obj'))"

text \<open>\<open>GetObjectKind\<close>: \<open>fmt.Sprintf("%T", obj)\<close> on the pointers the program passes.\<close>

fun GetObjectKind :: "Object \<Rightarrow> string" where
  "GetObjectKind (PodObj _) = ''*api.Pod''"
| "GetObjectKind (NodeObj _) = ''*api.Node''"
| "GetObjectKind (ReplicaSetObj _) = ''*api.ReplicaSet''"

text \<open>A fresh object of the same type: what \<open>&api.Pod{}\<close> and \<open>reflect.New\<close> give.\<close>

fun zero_like :: "Object \<Rightarrow> Object" where
  "zero_like (PodObj _) = PodObj zero_Pod"
| "zero_like (NodeObj _) = NodeObj zero_Node"
| "zero_like (ReplicaSetObj _) = ReplicaSetObj zero_ReplicaSet"

subsection \<open>Objects that survive a round trip\<close>

text \<open>JSON keeps strings that are UTF-8, times with an RFC 3339 form, and maps (in the model:
  ordered association lists).\<close>

definition container_ok :: "Container \<Rightarrow> bool" where
  "container_ok c \<longleftrightarrow> valid_utf8 (Container_Name c) \<and> valid_utf8 (Container_Image c)"

definition meta_ok :: "ObjectMeta \<Rightarrow> bool" where
  "meta_ok m \<longleftrightarrow> valid_utf8 (Meta_Name m) \<and> valid_utf8 (Meta_Namespace m) \<and> valid_utf8 (Meta_UID m) \<and>
     valid_utf8 (Meta_ResourceVersion m) \<and> valid_time (Meta_CreationTimestamp m)"

definition podspec_ok :: "PodSpec \<Rightarrow> bool" where
  "podspec_ok s \<longleftrightarrow> list_all container_ok (slice (PodSpec_Containers s))"

definition template_ok :: "PodTemplateSpec \<Rightarrow> bool" where
  "template_ok t \<longleftrightarrow> meta_ok (Template_ObjectMeta t) \<and> podspec_ok (Template_Spec t)"

definition selector_ok :: "(string \<times> string) list option \<Rightarrow> bool" where
  "selector_ok s \<longleftrightarrow> alist_ok (slice s) \<and>
     list_all (\<lambda>e. valid_utf8 (fst e) \<and> valid_utf8 (snd e)) (slice s)"

fun storable :: "Object \<Rightarrow> bool" where
  "storable (PodObj p) \<longleftrightarrow> meta_ok (Pod_ObjectMeta p) \<and> podspec_ok (Pod_Spec p) \<and>
     valid_utf8 (Pod_NodeName p) \<and> valid_utf8 (Pod_Status p)"
| "storable (NodeObj n) \<longleftrightarrow> meta_ok (Node_ObjectMeta n) \<and>
     valid_utf8 (NodeSpec_ProviderID (Node_Spec n)) \<and> valid_utf8 (Node_Status n)"
| "storable (ReplicaSetObj r) \<longleftrightarrow> meta_ok (RS_ObjectMeta r) \<and>
     selector_ok (RSSpec_Selector (RS_Spec r)) \<and> template_ok (RSSpec_Template (RS_Spec r))"

subsection \<open>Round trips, type by type\<close>

lemma dec_enc_string [codec_simps]: "valid_utf8 s \<Longrightarrow> dec_string (enc_string s) old = Some s"
  by (simp add: dec_string_def enc_string_def unquote_quote_body to_valid_valid)

lemma dec_enc_bool [codec_simps]: "dec_bool (JBool b) old = Some b"
  by (simp add: dec_bool_def)

lemma dec_enc_int32 [codec_simps]: "dec_int32 (enc_int32 w) old = Some w"
  using sint_ge [of w] sint_lt [of w] by (simp add: dec_int32_def enc_int32_def)

lemma dec_enc_time [codec_simps]: "valid_time t \<Longrightarrow> dec_time (JStr (print_time t)) old = Some t"
  by (simp add: dec_time_def parse_print_time)

lemma dec_elements_map:
  "(\<And>x. x \<in> set xs \<Longrightarrow> d (e x) zero = Some x) \<Longrightarrow> dec_elements d zero (map e xs) [] = Some xs"
  by (induction xs) auto

lemma dec_enc_slice [codec_simps]:
  "(\<And>x. x \<in> set (slice xs) \<Longrightarrow> d (e x) zero = Some x) \<Longrightarrow>
   dec_slice d zero (enc_slice e xs) None = Some xs"
  by (cases xs) (simp_all add: dec_slice_def enc_slice_def dec_elements_map)

lemma dec_entries_map:
  assumes "alist_ok (m @ es)" and "list_all (\<lambda>e. valid_utf8 (fst e) \<and> valid_utf8 (snd e)) es"
  shows "dec_entries (map (\<lambda>e. (quote_body (fst e), enc_string (snd e))) es) m = Some (m @ es)"
  using assms
proof (induction es arbitrary: m)
  case (Cons e es)
  have "\<forall>x\<in>set m. fst x < fst e"
    using Cons.prems(1) by (auto simp: alist_ok_def sorted_wrt_append)
  then have "alist_put (fst e) (snd e) m = m @ [e]"
    by (simp add: alist_put_last)
  with Cons show ?case
    by (simp add: unquote_quote_body to_valid_valid dec_enc_string)
qed simp

lemma dec_enc_map [codec_simps]: "selector_ok s \<Longrightarrow> dec_map (enc_map s) None = Some s"
  using dec_entries_map [of "[]"]
  by (cases s) (auto simp: dec_map_def enc_map_def selector_ok_def)

text \<open>Structs: members are met in field order, under names that need no escapes.\<close>

definition plain_name :: "string \<Rightarrow> bool" where
  "plain_name n \<longleftrightarrow> list_all safe_char n"

lemma unquote_plain_name: "plain_name n \<Longrightarrow> unquote (quote_body n) = Some n"
  by (auto simp: plain_name_def list_all_iff unquote_quote_body safe_char_ascii
      intro!: to_valid_valid valid_utf8_ascii)

fun dec_fields :: "(string \<times> 'a dec) list \<Rightarrow> (string \<times> bool \<times> json) list \<Rightarrow> 'a \<Rightarrow> 'a option" where
  "dec_fields fs [] s = Some s"
| "dec_fields fs ((n, omit, j) # es) s =
     Option.bind (if omit then Some s else (case lookup_field fs n of None \<Rightarrow> Some s | Some d \<Rightarrow> d j s))
       (dec_fields fs es)"

lemma dec_enc_struct:
  "list_all (\<lambda>(n, _). plain_name n) es \<Longrightarrow> dec_struct fs (enc_struct es) s = dec_fields fs es s"
proof -
  assume "list_all (\<lambda>(n, _). plain_name n) es"
  then have "dec_members fs
      (map (\<lambda>(n, omit, j). (quote_body n, j)) (filter (\<lambda>(n, omit, j). \<not> omit) es)) s
    = dec_fields fs es s"
    by (induction fs es s rule: dec_fields.induct) (auto simp: unquote_plain_name intro!: Option.bind_cong split: option.split)
  then show ?thesis by (simp add: dec_struct_def enc_struct_def)
qed

lemma plain_names:
  "list_all plain_name [''name'', ''image'', ''namespace'', ''uid'', ''resourceVersion'',
     ''creationTimestamp'', ''unschedulable'', ''providerID'', ''metadata'', ''spec'', ''status'',
     ''containers'', ''replicas'', ''nodeName'', ''selector'', ''template'', ''fullyLabeledReplicas'',
     ''readyReplicas'', ''availableReplicas'']"
  by code_simp

lemmas struct_simps = dec_enc_struct lookup_field_def field_def

lemma dec_enc_Container [codec_simps]:
  "container_ok c \<Longrightarrow> dec_Container (enc_Container c) zero_Container = Some c"
  using plain_names
  by (simp add: dec_Container_def enc_Container_def struct_simps codec_simps container_ok_def)

lemma dec_enc_ObjectMeta [codec_simps]:
  "meta_ok m \<Longrightarrow> enc_ObjectMeta m = Some j \<Longrightarrow> dec_ObjectMeta j zero_ObjectMeta = Some m"
  using plain_names
  by (auto simp add: dec_ObjectMeta_def enc_ObjectMeta_def struct_simps codec_simps meta_ok_def marshal_valid_time zero_ObjectMeta_def)

lemma dec_enc_NodeSpec [codec_simps]:
  "valid_utf8 (NodeSpec_ProviderID s) \<Longrightarrow> dec_NodeSpec (enc_NodeSpec s) zero_NodeSpec = Some s"
  using plain_names
  by (simp add: dec_NodeSpec_def enc_NodeSpec_def struct_simps codec_simps zero_NodeSpec_def)

lemma dec_enc_PodSpec [codec_simps]:
  "podspec_ok s \<Longrightarrow> dec_PodSpec (enc_PodSpec s) zero_PodSpec = Some s"
  using plain_names
  by (simp add: dec_PodSpec_def enc_PodSpec_def struct_simps codec_simps zero_PodSpec_def
      podspec_ok_def list_all_iff)

lemma dec_enc_PodTemplateSpec [codec_simps]:
  "template_ok t \<Longrightarrow> enc_PodTemplateSpec t = Some j \<Longrightarrow>
   dec_PodTemplateSpec j zero_PodTemplateSpec = Some t"
  using plain_names
  by (auto simp add: dec_PodTemplateSpec_def enc_PodTemplateSpec_def struct_simps codec_simps
      zero_PodTemplateSpec_def template_ok_def)

lemma dec_enc_ReplicaSetSpec [codec_simps]:
  "selector_ok (RSSpec_Selector s) \<Longrightarrow> template_ok (RSSpec_Template s) \<Longrightarrow>
   enc_ReplicaSetSpec s = Some j \<Longrightarrow> dec_ReplicaSetSpec j zero_ReplicaSetSpec = Some s"
  using plain_names
  by (auto simp add: dec_ReplicaSetSpec_def enc_ReplicaSetSpec_def struct_simps codec_simps
      zero_ReplicaSetSpec_def)

lemma dec_enc_ReplicaSetStatus [codec_simps]:
  "dec_ReplicaSetStatus (enc_ReplicaSetStatus s) zero_ReplicaSetStatus = Some s"
  using plain_names
  by (simp add: dec_ReplicaSetStatus_def enc_ReplicaSetStatus_def struct_simps codec_simps
      zero_ReplicaSetStatus_def)

lemma dec_enc_Object:
  "storable obj \<Longrightarrow> enc_Object obj = Some j \<Longrightarrow> dec_Object j (zero_like obj) = Some obj"
  using plain_names
  by (cases obj)
    (auto simp add: dec_Pod_def enc_Pod_def dec_Node_def enc_Node_def dec_ReplicaSet_def
      enc_ReplicaSet_def zero_Pod_def zero_Node_def zero_ReplicaSet_def bind_eq_Some_conv
      struct_simps codec_simps)

subsection \<open>Encoded objects are documents\<close>

lemma wf_enc_struct:
  "wf_json (enc_struct es) \<longleftrightarrow> list_all (\<lambda>(n, omit, j). omit \<or> wf_json j) es"
  by (auto simp: enc_struct_def list_all_iff)

lemma depth_enc_struct:
  "depth (enc_struct es) \<le> Suc d \<longleftrightarrow> list_all (\<lambda>(n, omit, j). omit \<or> depth j \<le> d) es"
  by (induction es) (auto simp: enc_struct_def)

lemma depth_enc_slice:
  "(\<And>x. depth (e x) \<le> d) \<Longrightarrow> depth (enc_slice e s) \<le> Suc d"
proof -
  assume d: "\<And>x. depth (e x) \<le> d"
  have "foldr (\<lambda>j. max (depth j)) (map e xs) 0 \<le> d" for xs
    by (induction xs) (simp_all add: d)
  then show ?thesis by (simp add: enc_slice_def split: option.split)
qed

lemma depth_enc_map: "depth (enc_map s) \<le> 1"
proof -
  have "foldr (\<lambda>m. max (depth (snd m)))
      (map (\<lambda>e. (quote_body (fst e), enc_string (snd e))) es) 0 \<le> 0" for es
    by (induction es) (simp_all add: enc_string_def)
  then show ?thesis by (simp add: enc_map_def split: option.split)
qed

lemma wf_json_leaves:
  "wf_json (enc_string s)" "wf_json (enc_int32 w)" "wf_json (enc_map m)" "wf_json (JStr (print_time t))"
  "depth (enc_string s) = 0" "depth (enc_int32 w) = 0"
  using quote_body_safe [OF safe_print_time, of t, symmetric]
  by (auto simp: enc_string_def enc_int32_def enc_map_def split: option.split)

lemma enc_doc:
  "wf_json (enc_Container c) \<and> depth (enc_Container c) \<le> 1"
  "wf_json (enc_PodSpec s) \<and> depth (enc_PodSpec s) \<le> 3"
  "wf_json (enc_NodeSpec n) \<and> depth (enc_NodeSpec n) \<le> 1"
  "wf_json (enc_ReplicaSetStatus t) \<and> depth (enc_ReplicaSetStatus t) \<le> 1"
proof -
  show c: "wf_json (enc_Container c) \<and> depth (enc_Container c) \<le> 1" for c
    using depth_enc_struct [of _ 0] by (simp add: enc_Container_def wf_enc_struct wf_json_leaves)
  have "wf_json (enc_slice enc_Container cs) \<and> depth (enc_slice enc_Container cs) \<le> 2" for cs
    using c depth_enc_slice [of enc_Container 1 cs]
    by (auto simp: enc_slice_def numeral_2_eq_2 split: option.split)
  then show "wf_json (enc_PodSpec s) \<and> depth (enc_PodSpec s) \<le> 3"
    using depth_enc_struct [of _ 2] by (simp add: enc_PodSpec_def wf_enc_struct wf_json_leaves)
  show "wf_json (enc_NodeSpec n) \<and> depth (enc_NodeSpec n) \<le> 1"
    using depth_enc_struct [of _ 0] by (simp add: enc_NodeSpec_def wf_enc_struct wf_json_leaves)
  show "wf_json (enc_ReplicaSetStatus t) \<and> depth (enc_ReplicaSetStatus t) \<le> 1"
    using depth_enc_struct [of _ 0]
    by (simp add: enc_ReplicaSetStatus_def wf_enc_struct wf_json_leaves)
qed

lemma enc_meta_doc: "enc_ObjectMeta m = Some j \<Longrightarrow> wf_json j \<and> depth j \<le> 1"
  using depth_enc_struct [of _ 0] wf_json_leaves
  by (auto simp: enc_ObjectMeta_def marshal_time_def wf_enc_struct wf_json_leaves split: if_splits)

lemma enc_template_doc: "enc_PodTemplateSpec t = Some j \<Longrightarrow> wf_json j \<and> depth j \<le> 4"
  using depth_enc_struct [of _ 3] enc_doc(2)
  by (fastforce simp: enc_PodTemplateSpec_def wf_enc_struct dest: enc_meta_doc)

lemma enc_rsspec_doc: "enc_ReplicaSetSpec s = Some j \<Longrightarrow> wf_json j \<and> depth j \<le> 5"
  using depth_enc_struct [of _ 4] depth_enc_map [of "RSSpec_Selector s"]
  by (fastforce simp: enc_ReplicaSetSpec_def wf_enc_struct wf_json_leaves dest: enc_template_doc)

lemma enc_Object_doc: "enc_Object obj = Some j \<Longrightarrow> wf_json j \<and> depth j \<le> 6"
proof (cases obj)
  case (PodObj p)
  assume "enc_Object obj = Some j"
  then show ?thesis
    using depth_enc_struct [of _ 5] enc_doc(2) [of "Pod_Spec p"]
    by (fastforce simp: PodObj enc_Pod_def wf_enc_struct wf_json_leaves dest: enc_meta_doc)
next
  case (NodeObj n)
  assume "enc_Object obj = Some j"
  then show ?thesis
    using depth_enc_struct [of _ 5] enc_doc(3) [of "Node_Spec n"]
    by (fastforce simp: NodeObj enc_Node_def wf_enc_struct wf_json_leaves dest: enc_meta_doc)
next
  case (ReplicaSetObj r)
  assume "enc_Object obj = Some j"
  then show ?thesis
    using depth_enc_struct [of _ 5] enc_doc(4) [of "RS_Status r"]
    by (fastforce simp: ReplicaSetObj enc_ReplicaSet_def wf_enc_struct bind_eq_Some_conv
        dest: enc_meta_doc enc_rsspec_doc)
qed

subsection \<open>Decoding what was encoded\<close>

lemma Decode_Encode:
  assumes "storable obj" and "Encode obj = Inr data"
  shows "Decode data (zero_like obj) = Inr obj"
proof -
  obtain j where j: "enc_Object obj = Some j" "data = print_json j"
    using assms(2) by (auto simp: Encode_def split: option.splits)
  have "parse_json data = Some j"
    using enc_Object_doc [OF j(1)] by (simp add: j(2) parse_print_json maxNestingDepth_def)
  with dec_enc_Object [OF assms(1) j(1)] show ?thesis
    by (simp add: Decode_def)
qed

lemma Encode_storable: "storable obj \<Longrightarrow> \<exists>data. Encode obj = Inr data"
  by (cases obj)
    (auto simp: Encode_def enc_Pod_def enc_Node_def enc_ReplicaSet_def enc_ReplicaSetSpec_def
      enc_PodTemplateSpec_def enc_ObjectMeta_def meta_ok_def template_ok_def marshal_valid_time
      split: option.split)

lemma Decode_kind: "Decode data obj = Inr obj' \<Longrightarrow> GetObjectKind obj' = GetObjectKind obj"
  by (cases obj) (auto simp: Decode_def split: option.splits)

lemma Encode_error: "Encode obj = Inl e \<Longrightarrow> e = JsonError MarshalerError"
  by (auto simp: Encode_def split: option.splits)

end
