(* ===== verification/Storage.thy ===== *)
theory Storage
  imports Runtime
begin

text \<open>
  \<open>pkg/storage\<close>: the interface \<open>Storage\<close> (a record of operations, as a Go interface value is),
  its implementation \<open>EtcdStorage\<close>, and the conversion of etcd watch events. The etcd client is
  code outside the repository: it is a record of operations over a world \<open>'w\<close> that the storage
  operations take as an argument, and the locale \<open>etcd_kv\<close> states what etcd documents.
  An operation returns its result and the world after it.
\<close>

subsection \<open>The etcd client\<close>

record kv =
  kv_Key :: key
  kv_Value :: bytes
  kv_CreateRevision :: int
  kv_ModRevision :: int

record 'w etcd_client =
  etcd_Put :: "key \<Rightarrow> bytes \<Rightarrow> 'w \<Rightarrow> error option \<times> 'w"
  etcd_Get :: "key \<Rightarrow> 'w \<Rightarrow> (error + kv list) \<times> 'w"
  etcd_GetPrefix :: "key \<Rightarrow> 'w \<Rightarrow> (error + kv list) \<times> 'w"
  etcd_Delete :: "key \<Rightarrow> 'w \<Rightarrow> error option \<times> 'w"
  etcd_DeletePrefix :: "key \<Rightarrow> 'w \<Rightarrow> error option \<times> 'w"

text \<open>The entries under a prefix, in key order.\<close>

definition lists_prefix :: "'a contents \<Rightarrow> key \<Rightarrow> (key \<times> 'a) list \<Rightarrow> bool" where
  "lists_prefix m p es \<longleftrightarrow> alist_ok es \<and> (\<forall>k v. (k, v) \<in> set es \<longleftrightarrow> m k = Some v \<and> prefix p k)"

definition remove_prefix :: "key \<Rightarrow> 'a contents \<Rightarrow> 'a contents" where
  "remove_prefix p m = (\<lambda>k. if prefix p k then None else m k)"

abbreviation kv_pair :: "kv \<Rightarrow> key \<times> bytes" where
  "kv_pair r \<equiv> (kv_Key r, kv_Value r)"

text \<open>
  What etcd promises. A request that succeeds has taken effect; a write that fails may or may
  not have been applied; reads change nothing. While the service is up, requests with a
  non-empty key succeed.
\<close>

locale etcd_kv =
  fixes cl :: "'w etcd_client"
    and kvs :: "'w \<Rightarrow> bytes contents"
    and up :: "'w \<Rightarrow> bool"
  assumes put_ok: "etcd_Put cl k v w = (None, w') \<Longrightarrow> kvs w' = (kvs w)(k \<mapsto> v)"
    and put_err: "etcd_Put cl k v w = (Some e, w') \<Longrightarrow> kvs w' = kvs w \<or> kvs w' = (kvs w)(k \<mapsto> v)"
    and get_frame: "etcd_Get cl k w = (r, w') \<Longrightarrow> kvs w' = kvs w"
    and get_ok: "etcd_Get cl k w = (Inr rs, w') \<Longrightarrow>
      map kv_pair rs = (case kvs w k of None \<Rightarrow> [] | Some v \<Rightarrow> [(k, v)])"
    and getp_frame: "etcd_GetPrefix cl p w = (r', w') \<Longrightarrow> kvs w' = kvs w"
    and getp_ok: "etcd_GetPrefix cl p w = (Inr rs, w') \<Longrightarrow> lists_prefix (kvs w) p (map kv_pair rs)"
    and del_ok: "etcd_Delete cl k w = (None, w') \<Longrightarrow> kvs w' = (kvs w)(k := None)"
    and del_err: "etcd_Delete cl k w = (Some e, w') \<Longrightarrow> kvs w' = kvs w \<or> kvs w' = (kvs w)(k := None)"
    and delp_ok: "etcd_DeletePrefix cl p w = (None, w') \<Longrightarrow> kvs w' = remove_prefix p (kvs w)"
    and delp_err: "etcd_DeletePrefix cl p w = (Some e, w') \<Longrightarrow>
      kvs w' = kvs w \<or> kvs w' = remove_prefix p (kvs w)"
    and put_up: "up w \<Longrightarrow> k \<noteq> [] \<Longrightarrow> \<exists>w'. etcd_Put cl k v w = (None, w') \<and> up w'"
    and get_up: "up w \<Longrightarrow> k \<noteq> [] \<Longrightarrow> \<exists>rs w'. etcd_Get cl k w = (Inr rs, w') \<and> up w'"
    and getp_up: "up w \<Longrightarrow> \<exists>rs w'. etcd_GetPrefix cl p w = (Inr rs, w') \<and> up w'"
    and del_up: "up w \<Longrightarrow> k \<noteq> [] \<Longrightarrow> \<exists>w'. etcd_Delete cl k w = (None, w') \<and> up w'"
    and delp_up: "up w \<Longrightarrow> \<exists>w'. etcd_DeletePrefix cl p w = (None, w') \<and> up w'"

subsection \<open>The Storage interface\<close>

text \<open>\<open>List\<close> takes a pointer to a slice of pointers: the type of the elements, given by a zero
  value, and the slice so far; anything else is refused.\<close>

datatype list_target = PtrToSlice Object "Object list" | OtherTarget

record 'w Storage =
  st_Create :: "key \<Rightarrow> Object \<Rightarrow> 'w \<Rightarrow> error option \<times> 'w"
  st_Get :: "key \<Rightarrow> Object \<Rightarrow> 'w \<Rightarrow> (error + Object) \<times> 'w"
  st_Update :: "key \<Rightarrow> Object \<Rightarrow> 'w \<Rightarrow> error option \<times> 'w"
  st_Delete :: "key \<Rightarrow> 'w \<Rightarrow> error option \<times> 'w"
  st_DeletePrefix :: "key \<Rightarrow> 'w \<Rightarrow> error option \<times> 'w"
  st_List :: "key \<Rightarrow> list_target \<Rightarrow> 'w \<Rightarrow> (error + Object list) \<times> 'w"

subsection \<open>EtcdStorage\<close>

definition EtcdStorage_Create ::
  "'w etcd_client \<Rightarrow> key \<Rightarrow> Object \<Rightarrow> 'w \<Rightarrow> error option \<times> 'w" where
  "EtcdStorage_Create cl key obj w =
     (case Encode obj of
        Inl err \<Rightarrow> (Some (wrap_cause ErrEncoding '''' err), w)
      | Inr data \<Rightarrow>
          (case etcd_Put cl key data w of
             (Some err, w1) \<Rightarrow> (Some (wrap_cause ErrEtcdClient '''' err), w1)
           | (None, w1) \<Rightarrow> (None, w1)))"

definition EtcdStorage_Get ::
  "'w etcd_client \<Rightarrow> key \<Rightarrow> Object \<Rightarrow> 'w \<Rightarrow> (error + Object) \<times> 'w" where
  "EtcdStorage_Get cl key obj w =
     (case etcd_Get cl key w of
        (Inl err, w1) \<Rightarrow> (Inl (wrap_cause ErrEtcdClient '''' err), w1)
      | (Inr kvs, w1) \<Rightarrow>
          (case kvs of
             [] \<Rightarrow> (Inl (wrap_text ErrNotFound key), w1)
           | r # _ \<Rightarrow>
               (case Decode (kv_Value r) obj of
                  Inl err \<Rightarrow> (Inl (wrap_cause ErrDecoding '''' err), w1)
                | Inr obj' \<Rightarrow> (Inr obj', w1))))"

definition EtcdStorage_Update ::
  "'w etcd_client \<Rightarrow> key \<Rightarrow> Object \<Rightarrow> 'w \<Rightarrow> error option \<times> 'w" where
  "EtcdStorage_Update cl key obj w =
     (case Encode obj of
        Inl err \<Rightarrow> (Some (wrap_cause ErrEncoding '''' err), w)
      | Inr data \<Rightarrow>
          (case etcd_Put cl key data w of
             (Some err, w1) \<Rightarrow> (Some (wrap_cause ErrEtcdClient '''' err), w1)
           | (None, w1) \<Rightarrow> (None, w1)))"

definition EtcdStorage_Delete :: "'w etcd_client \<Rightarrow> key \<Rightarrow> 'w \<Rightarrow> error option \<times> 'w" where
  "EtcdStorage_Delete cl key w =
     (case etcd_Delete cl key w of
        (Some err, w1) \<Rightarrow> (Some (wrap_cause ErrEtcdClient '''' err), w1)
      | (None, w1) \<Rightarrow> (None, w1))"

definition EtcdStorage_DeletePrefix :: "'w etcd_client \<Rightarrow> key \<Rightarrow> 'w \<Rightarrow> error option \<times> 'w" where
  "EtcdStorage_DeletePrefix cl p w =
     (case etcd_DeletePrefix cl p w of
        (Some err, w1) \<Rightarrow> (Some (wrap_cause ErrEtcdClient '''' err), w1)
      | (None, w1) \<Rightarrow> (None, w1))"

text \<open>One entry of a listing, decoded into a new element of the slice's type.\<close>

definition decode_entry :: "Object \<Rightarrow> bytes \<Rightarrow> error + Object" where
  "decode_entry elem data =
     (case Decode data (zero_like elem) of
        Inl err \<Rightarrow> Inl (wrap_cause ErrDecoding '''' err)
      | Inr obj \<Rightarrow> Inr obj)"

definition EtcdStorage_List ::
  "'w etcd_client \<Rightarrow> key \<Rightarrow> list_target \<Rightarrow> 'w \<Rightarrow> (error + Object list) \<times> 'w" where
  "EtcdStorage_List cl p listObj w =
     (case etcd_GetPrefix cl p w of
        (Inl err, w1) \<Rightarrow> (Inl (wrap_cause ErrEtcdClient '''' err), w1)
      | (Inr kvs, w1) \<Rightarrow>
          (case listObj of
             OtherTarget \<Rightarrow> (Inl (Errorf None ''listObj must be a pointer to a slice'' None), w1)
           | PtrToSlice elem sl \<Rightarrow>
               (case traverse (\<lambda>r. decode_entry elem (kv_Value r)) kvs of
                  Inl err \<Rightarrow> (Inl err, w1)
                | Inr objs \<Rightarrow> (Inr (sl @ objs), w1))))"

definition NewEtcdStorage :: "'w etcd_client \<Rightarrow> 'w Storage" where
  "NewEtcdStorage cl =
     \<lparr>st_Create = EtcdStorage_Create cl, st_Get = EtcdStorage_Get cl,
      st_Update = EtcdStorage_Update cl, st_Delete = EtcdStorage_Delete cl,
      st_DeletePrefix = EtcdStorage_DeletePrefix cl, st_List = EtcdStorage_List cl\<rparr>"

lemmas EtcdStorage_defs = EtcdStorage_Create_def EtcdStorage_Get_def EtcdStorage_Update_def
  EtcdStorage_Delete_def EtcdStorage_DeletePrefix_def EtcdStorage_List_def NewEtcdStorage_def

subsection \<open>What a Storage promises\<close>

text \<open>
  The abstract store is a map from keys to encoded objects. Reading returns what decoding the
  entry gives; a write that succeeds has stored the encoding; a write that fails has changed
  nothing unless the etcd client failed, in which case it may have been applied.
\<close>

definition spec_Get :: "bytes contents \<Rightarrow> key \<Rightarrow> Object \<Rightarrow> error + Object" where
  "spec_Get m k obj =
     (case m k of
        None \<Rightarrow> Inl (wrap_text ErrNotFound k)
      | Some d \<Rightarrow>
          (case Decode d obj of
             Inl err \<Rightarrow> Inl (wrap_cause ErrDecoding '''' err)
           | Inr obj' \<Rightarrow> Inr obj'))"

definition client_failed :: "error + 'a \<Rightarrow> bool" where
  "client_failed r \<longleftrightarrow> (case r of Inl e \<Rightarrow> errors_Is e ErrEtcdClient | Inr _ \<Rightarrow> False)"

text \<open>The contents after a write of \<open>obj\<close> at \<open>k\<close> that may have been applied.\<close>

definition stored :: "key \<Rightarrow> Object \<Rightarrow> bytes contents \<Rightarrow> bytes contents \<Rightarrow> bool" where
  "stored k obj m m' \<longleftrightarrow> (\<exists>d. Encode obj = Inr d \<and> m' = m(k \<mapsto> d))"

lemma client_failed_simps [simp]:
  "client_failed (Inl e) \<longleftrightarrow> errors_Is e ErrEtcdClient" "\<not> client_failed (Inr x)"
  by (simp_all add: client_failed_def)

lemma spec_Get_not_client_failed [simp]: "\<not> client_failed (spec_Get m k obj)"
  by (simp add: spec_Get_def split: option.split sum.split)

locale object_store =
  fixes S :: "'w Storage"
    and contents :: "'w \<Rightarrow> bytes contents"
    and up :: "'w \<Rightarrow> bool"
  assumes get_frame: "st_Get S k obj w = (r, w') \<Longrightarrow> contents w' = contents w"
    and get_result: "st_Get S k obj w = (r, w') \<Longrightarrow> r = spec_Get (contents w) k obj \<or> client_failed r"
    and create_ok: "st_Create S k obj w = (None, w') \<Longrightarrow> stored k obj (contents w) (contents w')"
    and create_err: "st_Create S k obj w = (Some e, w') \<Longrightarrow>
      contents w' = contents w \<or> errors_Is e ErrEtcdClient \<and> stored k obj (contents w) (contents w')"
    and update_ok: "st_Update S k obj w = (None, w') \<Longrightarrow> stored k obj (contents w) (contents w')"
    and update_err: "st_Update S k obj w = (Some e, w') \<Longrightarrow>
      contents w' = contents w \<or> errors_Is e ErrEtcdClient \<and> stored k obj (contents w) (contents w')"
    and delete_ok: "st_Delete S k w = (None, w') \<Longrightarrow> contents w' = (contents w)(k := None)"
    and delete_err: "st_Delete S k w = (Some e, w') \<Longrightarrow> errors_Is e ErrEtcdClient \<and>
      (contents w' = contents w \<or> contents w' = (contents w)(k := None))"
    and deletep_ok: "st_DeletePrefix S p w = (None, w') \<Longrightarrow> contents w' = remove_prefix p (contents w)"
    and deletep_err: "st_DeletePrefix S p w = (Some e, w') \<Longrightarrow> errors_Is e ErrEtcdClient \<and>
      (contents w' = contents w \<or> contents w' = remove_prefix p (contents w))"
    and list_frame: "st_List S p t w = (rs, w') \<Longrightarrow> contents w' = contents w"
    and list_result: "st_List S p (PtrToSlice elem sl) w = (rs, w') \<Longrightarrow>
      (\<exists>es. lists_prefix (contents w) p es \<and>
        rs = map_sum id ((@) sl) (traverse (\<lambda>e. decode_entry elem (snd e)) es)) \<or> client_failed rs"
    and get_up: "up w \<Longrightarrow> k \<noteq> [] \<Longrightarrow>
      \<exists>w'. st_Get S k obj w = (spec_Get (contents w) k obj, w') \<and> up w'"
    and create_up: "up w \<Longrightarrow> k \<noteq> [] \<Longrightarrow> Encode obj = Inr d \<Longrightarrow>
      \<exists>w'. st_Create S k obj w = (None, w') \<and> up w'"
    and update_up: "up w \<Longrightarrow> k \<noteq> [] \<Longrightarrow> Encode obj = Inr d \<Longrightarrow>
      \<exists>w'. st_Update S k obj w = (None, w') \<and> up w'"
    and delete_up: "up w \<Longrightarrow> k \<noteq> [] \<Longrightarrow> \<exists>w'. st_Delete S k w = (None, w') \<and> up w'"
    and list_up: "up w \<Longrightarrow>
      \<exists>rs w'. st_List S p (PtrToSlice elem sl) w = (rs, w') \<and> \<not> client_failed rs \<and> up w'"

lemma decode_entry_error: "decode_entry elem d = Inl e \<Longrightarrow> errors_Is e ErrDecoding"
  by (auto simp: decode_entry_def split: sum.splits)

lemma traverse_map: "traverse f (map g xs) = traverse (\<lambda>x. f (g x)) xs"
  by (induction xs) (auto split: sum.split)

lemma traverse_decode_error:
  "traverse (\<lambda>r. decode_entry elem (f r)) es = Inl e \<Longrightarrow> errors_Is e ErrDecoding"
  by (auto dest: traverse_Inl decode_entry_error)

lemma errors_Is_inj: "errors_Is e s \<Longrightarrow> errors_Is e t \<Longrightarrow> s = t"
  by (induction e s rule: errors_Is.induct) auto

context etcd_kv
begin

lemma EtcdStorage_Get_result:
  assumes "EtcdStorage_Get cl k obj w = (r, w')"
  shows "r = spec_Get (kvs w) k obj \<or> client_failed r"
proof (cases "etcd_Get cl k w")
  case (Pair rs w1)
  show ?thesis
  proof (cases rs)
    case (Inr xs)
    have "map kv_pair xs = (case kvs w k of None \<Rightarrow> [] | Some v \<Rightarrow> [(k, v)])"
      using Pair Inr get_ok by blast
    then show ?thesis using assms Pair Inr
      by (cases "kvs w k") (auto simp: EtcdStorage_Get_def spec_Get_def split: list.splits sum.splits)
  qed (use assms Pair in \<open>auto simp: EtcdStorage_Get_def\<close>)
qed

lemma EtcdStorage_List_result:
  assumes "EtcdStorage_List cl p (PtrToSlice elem sl) w = (rs, w')"
  shows "(\<exists>es. lists_prefix (kvs w) p es \<and>
    rs = map_sum id ((@) sl) (traverse (\<lambda>e. decode_entry elem (snd e)) es)) \<or> client_failed rs"
proof (cases "etcd_GetPrefix cl p w")
  case (Pair r w1)
  show ?thesis
  proof (cases r)
    case (Inr xs)
    then have "lists_prefix (kvs w) p (map kv_pair xs)"
      using Pair getp_ok by blast
    moreover have "rs = map_sum id ((@) sl) (traverse (\<lambda>e. decode_entry elem (snd e)) (map kv_pair xs))"
      using assms Pair Inr
      by (cases "traverse (\<lambda>r. decode_entry elem (kv_Value r)) xs"; cases rs)
        (simp_all add: EtcdStorage_List_def traverse_map)
    ultimately show ?thesis by blast
  qed (use assms Pair in \<open>auto simp: EtcdStorage_List_def\<close>)
qed

lemma Get_frame_law: "EtcdStorage_Get cl k obj w = (r, w') \<Longrightarrow> kvs w' = kvs w"
  by (auto simp: EtcdStorage_Get_def split: prod.splits sum.splits list.splits dest: get_frame)

lemma Get_up_law:
  assumes "up w" "k \<noteq> []"
  shows "\<exists>w'. EtcdStorage_Get cl k obj w = (spec_Get (kvs w) k obj, w') \<and> up w'"
proof -
  obtain rs w1 where g: "etcd_Get cl k w = (Inr rs, w1)" "up w1"
    using get_up [OF assms] by blast
  have "snd (EtcdStorage_Get cl k obj w) = w1" "\<not> client_failed (fst (EtcdStorage_Get cl k obj w))"
    using g by (simp_all add: EtcdStorage_Get_def split: list.split sum.split)
  then obtain r where r: "EtcdStorage_Get cl k obj w = (r, w1)" and "\<not> client_failed r"
    by (metis prod.collapse)
  then show ?thesis
    using EtcdStorage_Get_result [OF r] g by auto
qed

lemma Create_laws:
  "EtcdStorage_Create cl k obj w = (None, w') \<Longrightarrow> stored k obj (kvs w) (kvs w')"
  "EtcdStorage_Create cl k obj w = (Some e, w') \<Longrightarrow>
     kvs w' = kvs w \<or> errors_Is e ErrEtcdClient \<and> stored k obj (kvs w) (kvs w')"
  "up w \<Longrightarrow> k \<noteq> [] \<Longrightarrow> Encode obj = Inr d \<Longrightarrow> \<exists>w'. EtcdStorage_Create cl k obj w = (None, w') \<and> up w'"
  using put_up [of w k d]
  by (auto simp: EtcdStorage_Create_def stored_def split: sum.splits prod.splits option.splits dest: put_ok put_err)

lemma Update_laws:
  "EtcdStorage_Update cl k obj w = (None, w') \<Longrightarrow> stored k obj (kvs w) (kvs w')"
  "EtcdStorage_Update cl k obj w = (Some e, w') \<Longrightarrow>
     kvs w' = kvs w \<or> errors_Is e ErrEtcdClient \<and> stored k obj (kvs w) (kvs w')"
  "up w \<Longrightarrow> k \<noteq> [] \<Longrightarrow> Encode obj = Inr d \<Longrightarrow> \<exists>w'. EtcdStorage_Update cl k obj w = (None, w') \<and> up w'"
  using put_up [of w k d]
  by (auto simp: EtcdStorage_Update_def stored_def split: sum.splits prod.splits option.splits dest: put_ok put_err)

lemma Delete_laws:
  "EtcdStorage_Delete cl k w = (None, w') \<Longrightarrow> kvs w' = (kvs w)(k := None)"
  "EtcdStorage_Delete cl k w = (Some e, w') \<Longrightarrow>
     errors_Is e ErrEtcdClient \<and> (kvs w' = kvs w \<or> kvs w' = (kvs w)(k := None))"
  "up w \<Longrightarrow> k \<noteq> [] \<Longrightarrow> \<exists>w'. EtcdStorage_Delete cl k w = (None, w') \<and> up w'"
  using del_up [of w k]
  by (auto simp: EtcdStorage_Delete_def split: prod.splits option.splits dest: del_ok del_err)

lemma DeletePrefix_laws:
  "EtcdStorage_DeletePrefix cl p w = (None, w') \<Longrightarrow> kvs w' = remove_prefix p (kvs w)"
  "EtcdStorage_DeletePrefix cl p w = (Some e, w') \<Longrightarrow>
     errors_Is e ErrEtcdClient \<and> (kvs w' = kvs w \<or> kvs w' = remove_prefix p (kvs w))"
  by (auto simp: EtcdStorage_DeletePrefix_def split: prod.splits option.splits dest: delp_ok delp_err)

lemma List_frame_law: "EtcdStorage_List cl p t w = (rs, w') \<Longrightarrow> kvs w' = kvs w"
  by (auto simp: EtcdStorage_List_def split: prod.splits sum.splits list_target.splits dest: getp_frame)

lemma List_up_law:
  assumes "up w"
  shows "\<exists>rs w'. EtcdStorage_List cl p (PtrToSlice elem sl) w = (rs, w') \<and> \<not> client_failed rs \<and> up w'"
proof -
  obtain rs w1 where "etcd_GetPrefix cl p w = (Inr rs, w1)" "up w1"
    using getp_up [OF assms] by blast
  then show ?thesis
    by (auto simp: EtcdStorage_List_def split: sum.split dest: traverse_decode_error errors_Is_inj)
qed

end

lemma NewEtcdStorage_simps:
  "st_Create (NewEtcdStorage cl) = EtcdStorage_Create cl" "st_Get (NewEtcdStorage cl) = EtcdStorage_Get cl"
  "st_Update (NewEtcdStorage cl) = EtcdStorage_Update cl" "st_Delete (NewEtcdStorage cl) = EtcdStorage_Delete cl"
  "st_DeletePrefix (NewEtcdStorage cl) = EtcdStorage_DeletePrefix cl" "st_List (NewEtcdStorage cl) = EtcdStorage_List cl"
  by (simp_all add: NewEtcdStorage_def)

text \<open>Over any etcd client that keeps etcd's promises, \<open>EtcdStorage\<close> is an object store.\<close>

sublocale etcd_kv \<subseteq> store: object_store "NewEtcdStorage cl" kvs up
  by unfold_locales
    (unfold NewEtcdStorage_simps,
     (fact Get_frame_law EtcdStorage_Get_result Get_up_law Create_laws Update_laws Delete_laws DeletePrefix_laws
        List_frame_law EtcdStorage_List_result List_up_law)+)

end
