(* ===== verification/Registry.thy ===== *)
theory Registry
  imports Storage Gostring
begin

text \<open>
  What the three registries of \<open>pkg/registry\<close> share: the keys under which they keep objects, the
  typed view of the store they give their callers, the invariant of the store, and the interface
  they are written against: a \<open>Storage\<close> and a struct validator.
\<close>

subsection \<open>Keys\<close>

definition podPrefix :: key where "podPrefix = ''/pods/''"

definition nodePrefix :: key where "nodePrefix = ''/registry/nodes/''"

definition replicaSetPrefix :: key where "replicaSetPrefix = ''/replicasets''"

definition PodRegistry_generateKey :: "string \<Rightarrow> key" where
  "PodRegistry_generateKey podName = podPrefix @ podName"

definition generateKey :: "key \<Rightarrow> string \<Rightarrow> key" where
  "generateKey p name = path_Join p name"

definition ReplicaSetRegistry_generateKey :: "string \<Rightarrow> key" where
  "ReplicaSetRegistry_generateKey name = replicaSetPrefix @ ''/'' @ name"

fun object_key :: "Object \<Rightarrow> key" where
  "object_key (PodObj p) = PodRegistry_generateKey (Pod_Name p)"
| "object_key (NodeObj n) = generateKey nodePrefix (Node_Name n)"
| "object_key (ReplicaSetObj r) = ReplicaSetRegistry_generateKey (RS_Name r)"

fun kind_prefix :: "Object \<Rightarrow> key" where
  "kind_prefix (PodObj _) = podPrefix"
| "kind_prefix (NodeObj _) = nodePrefix"
| "kind_prefix (ReplicaSetObj _) = replicaSetPrefix"

text \<open>An object whose key lies under the prefix of its kind: a node's name may not climb out of
  the nodes' directory.\<close>

fun well_named :: "Object \<Rightarrow> bool" where
  "well_named (NodeObj n) \<longleftrightarrow> plain_element (Node_Name n)"
| "well_named _ \<longleftrightarrow> True"

lemmas prefix_defs = podPrefix_def nodePrefix_def replicaSetPrefix_def
lemmas key_defs = PodRegistry_generateKey_def ReplicaSetRegistry_generateKey_def prefix_defs

lemma generateKey_plain: "plain_element name \<Longrightarrow> generateKey nodePrefix name = nodePrefix @ name"
  unfolding generateKey_def nodePrefix_def
  by (subst path_Join_rooted)
    (simp add: split_slash_plain clean_step_plain plain_element_def clean_step_def)

lemma generateKey_nonempty: "generateKey nodePrefix name \<noteq> []"
  unfolding generateKey_def nodePrefix_def by (subst path_Join_rooted) simp

lemma object_key_nonempty [simp]: "object_key obj \<noteq> []"
  by (cases obj) (simp_all add: key_defs generateKey_nonempty [unfolded nodePrefix_def])

lemma kind_prefix_zero_like [simp]: "kind_prefix (zero_like obj) = kind_prefix obj"
  by (cases obj) simp_all

lemma zero_like_idem [simp]: "zero_like (zero_like obj) = zero_like obj"
  by (cases obj) simp_all

lemma object_key_prefix: "well_named obj \<Longrightarrow> prefix (kind_prefix obj) (object_key obj)"
  by (cases obj)
    (simp_all add: generateKey_plain PodRegistry_generateKey_def ReplicaSetRegistry_generateKey_def)

lemma object_key_other_prefix:
  "well_named obj \<Longrightarrow> prefix (kind_prefix z) (object_key obj) \<Longrightarrow> zero_like z = zero_like obj"
  by (cases obj; cases z) (auto simp: generateKey_plain [unfolded nodePrefix_def] key_defs)

subsection \<open>Views\<close>

text \<open>What a reader of the store sees at a key when it decodes into an object of the kind of \<open>z\<close>.\<close>

definition lookup :: "Object \<Rightarrow> bytes contents \<Rightarrow> key \<Rightarrow> Object option" where
  "lookup z m k =
     (case m k of
        None \<Rightarrow> None
      | Some d \<Rightarrow> (case Decode d (zero_like z) of Inl _ \<Rightarrow> None | Inr obj \<Rightarrow> Some obj))"

text \<open>Every entry under the prefix of a kind is the encoding of a well-formed object of that kind
  whose own key it is.\<close>

definition kept :: "Object \<Rightarrow> bytes contents \<Rightarrow> bool" where
  "kept z m \<longleftrightarrow>
     (\<forall>k d. m k = Some d \<longrightarrow> prefix (kind_prefix z) k \<longrightarrow>
        (\<exists>obj. storable obj \<and> well_named obj \<and> zero_like obj = zero_like z
          \<and> Encode obj = Inr d \<and> object_key obj = k))"

definition store_inv :: "bytes contents \<Rightarrow> bool" where
  "store_inv m \<longleftrightarrow> (\<forall>z. kept z m)"

lemma lookup_zero_like [simp]: "lookup (zero_like z) = lookup z"
  by (simp add: lookup_def fun_eq_iff split: option.split)

lemma decode_entry_zero_like [simp]: "decode_entry (zero_like z) = decode_entry z"
  by (simp add: decode_entry_def fun_eq_iff)

lemma Decode_Encode_zero:
  "storable obj \<Longrightarrow> Encode obj = Inr d \<Longrightarrow> zero_like obj = zero_like z \<Longrightarrow> Decode d (zero_like z) = Inr obj"
  using Decode_Encode by metis

lemma lookup_del: "lookup z (m(k := None)) = (lookup z m)(k := None)"
  by (auto simp: lookup_def fun_eq_iff)

lemma zero_like_eq_kind: "zero_like a = zero_like b \<longleftrightarrow> GetObjectKind a = GetObjectKind b"
  by (cases a; cases b) simp_all

lemma lookup_kind: "lookup z m k = Some obj \<Longrightarrow> zero_like obj = zero_like z"
  using Decode_kind [of _ "zero_like z" obj]
  by (auto simp: lookup_def zero_like_eq_kind [symmetric] split: option.splits sum.splits)

lemma kept_lookup:
  assumes "kept z m" "prefix (kind_prefix z) k"
  shows "m k = None \<and> lookup z m k = None \<or>
    (\<exists>obj d. m k = Some d \<and> Encode obj = Inr d \<and> lookup z m k = Some obj \<and> storable obj \<and>
       well_named obj \<and> object_key obj = k \<and> zero_like obj = zero_like z)"
proof (cases "m k")
  case (Some d)
  then obtain obj where "storable obj" "well_named obj" "zero_like obj = zero_like z"
      "Encode obj = Inr d" "object_key obj = k"
    using assms by (auto simp: kept_def)
  then show ?thesis
    using Some Decode_Encode_zero [of obj d z] by (auto simp: lookup_def)
qed (simp add: lookup_def)

lemma kept_stored:
  assumes "kept z m" "stored (object_key obj) obj m m'" "storable obj" "well_named obj"
  shows "kept z m'"
  using assms object_key_other_prefix [of obj z] unfolding kept_def stored_def
  by (metis fun_upd_apply option.sel)

lemma kept_del: "kept z m \<Longrightarrow> kept z (m(k := None))"
  by (simp add: kept_def)

lemma store_inv_stored [intro]:
  "store_inv m \<Longrightarrow> stored (object_key obj) obj m m' \<Longrightarrow> storable obj \<Longrightarrow> well_named obj \<Longrightarrow> store_inv m'"
  using kept_stored [of _ m obj m'] by (simp add: store_inv_def)

lemma store_inv_del [intro]: "store_inv m \<Longrightarrow> store_inv (m(k := None))"
  by (simp add: store_inv_def kept_del)

lemma store_inv_kept [simp]: "store_inv m \<Longrightarrow> kept z m"
  by (simp add: store_inv_def)

lemma store_inv_empty: "store_inv (\<lambda>_. None)"
  by (simp add: store_inv_def kept_def)

lemma spec_Get_lookup:
  "spec_Get m k (zero_like z) = Inr obj \<longleftrightarrow> lookup z m k = Some obj"
  by (auto simp: spec_Get_def lookup_def split: option.splits sum.splits)

lemma spec_Get_missing:
  "m k = None \<Longrightarrow> spec_Get m k (zero_like z) = Inl (wrap_text ErrNotFound k)"
  by (simp add: spec_Get_def)

lemma lists_prefix_mem: "lists_prefix m p es \<Longrightarrow> (k, v) \<in> set es \<longleftrightarrow> m k = Some v \<and> prefix p k"
  by (simp add: lists_prefix_def)

text \<open>A listing of a kind under the invariant: it decodes, in key order, to the objects in view.\<close>

lemma kept_listing:
  assumes "kept z m" "lists_prefix m (kind_prefix z) es"
  obtains objs where "traverse (\<lambda>e. decode_entry z (snd e)) es = Inr objs"
    "map object_key objs = map fst es"
    "\<And>obj. obj \<in> set objs \<longleftrightarrow> lookup z m (object_key obj) = Some obj \<and>
       prefix (kind_prefix z) (object_key obj)"
proof -
  define f where "f e = the (lookup z m (fst e))" for e :: "key \<times> bytes"
  have e: "decode_entry z (snd e) = Inr (f e) \<and> object_key (f e) = fst e \<and> lookup z m (fst e) = Some (f e)
      \<and> prefix (kind_prefix z) (fst e)"
    if "e \<in> set es" for e
  proof -
    have m: "m (fst e) = Some (snd e)" "prefix (kind_prefix z) (fst e)"
      using lists_prefix_mem [OF assms(2), of "fst e" "snd e"] that by simp_all
    obtain obj where "Encode obj = Inr (snd e)" "lookup z m (fst e) = Some obj" "storable obj"
        "object_key obj = fst e" "zero_like obj = zero_like z"
      using kept_lookup [OF assms(1) m(2)] unfolding m(1) by (metis option.distinct(1) option.inject)
    then show ?thesis
      using m(2) Decode_Encode_zero [of obj "snd e" z] by (simp add: f_def decode_entry_def)
  qed
  have "traverse (\<lambda>e. decode_entry z (snd e)) es = Inr (map f es)"
    using e by (intro traverse_total) simp
  moreover have "map object_key (map f es) = map fst es"
    using e by simp
  moreover have "obj \<in> set (map f es) \<longleftrightarrow> lookup z m (object_key obj) = Some obj \<and>
      prefix (kind_prefix z) (object_key obj)" for obj
  proof
    assume "obj \<in> set (map f es)"
    then show "lookup z m (object_key obj) = Some obj \<and> prefix (kind_prefix z) (object_key obj)"
      using e by auto
  next
    assume a: "lookup z m (object_key obj) = Some obj \<and> prefix (kind_prefix z) (object_key obj)"
    then obtain d where "m (object_key obj) = Some d"
      by (auto simp: lookup_def split: option.splits)
    then have "(object_key obj, d) \<in> set es"
      using a lists_prefix_mem [OF assms(2)] by blast
    moreover have "f (object_key obj, d) = obj"
      using a by (simp add: f_def)
    ultimately show "obj \<in> set (map f es)"
      by (metis image_eqI set_map)
  qed
  ultimately show thesis by (rule that)
qed

definition listing :: "Object \<Rightarrow> bytes contents \<Rightarrow> Object list \<Rightarrow> bool" where
  "listing z m objs \<longleftrightarrow> sorted_wrt (<) (map object_key objs) \<and>
     (\<forall>obj. obj \<in> set objs \<longleftrightarrow>
        lookup z m (object_key obj) = Some obj \<and> prefix (kind_prefix z) (object_key obj))"

lemma kept_lists:
  assumes "kept z m" "lists_prefix m (kind_prefix z) es"
  shows "\<exists>objs. traverse (\<lambda>e. decode_entry z (snd e)) es = Inr objs \<and> listing z m objs"
  using assms(2) by (rule_tac kept_listing [OF assms])
    (auto simp: listing_def lists_prefix_def alist_ok_def)

subsection \<open>The objects of each kind, by name\<close>

definition pods :: "bytes contents \<Rightarrow> string \<Rightarrow> Pod option" where
  "pods m n = (case lookup (PodObj zero_Pod) m (PodRegistry_generateKey n) of Some (PodObj p) \<Rightarrow> Some p | _ \<Rightarrow> None)"

definition nodes :: "bytes contents \<Rightarrow> string \<Rightarrow> Node option" where
  "nodes m n = (case lookup (NodeObj zero_Node) m (nodePrefix @ n) of Some (NodeObj x) \<Rightarrow> Some x | _ \<Rightarrow> None)"

definition replicasets :: "bytes contents \<Rightarrow> string \<Rightarrow> ReplicaSet option" where
  "replicasets m n =
     (case lookup (ReplicaSetObj zero_ReplicaSet) m (ReplicaSetRegistry_generateKey n) of
        Some (ReplicaSetObj r) \<Rightarrow> Some r | _ \<Rightarrow> None)"

lemmas view_defs = pods_def nodes_def replicasets_def

lemma lookup_PodObj: "lookup (PodObj z) m k = Some obj \<Longrightarrow> \<exists>p. obj = PodObj p"
  using lookup_kind [of "PodObj z" m k obj] by (cases obj) simp_all

lemma lookup_NodeObj: "lookup (NodeObj z) m k = Some obj \<Longrightarrow> \<exists>n. obj = NodeObj n"
  using lookup_kind [of "NodeObj z" m k obj] by (cases obj) simp_all

lemma lookup_ReplicaSetObj: "lookup (ReplicaSetObj z) m k = Some obj \<Longrightarrow> \<exists>r. obj = ReplicaSetObj r"
  using lookup_kind [of "ReplicaSetObj z" m k obj] by (cases obj) simp_all

lemma lookup_pods:
  "lookup (PodObj zero_Pod) m (PodRegistry_generateKey n) = map_option PodObj (pods m n)"
  using lookup_PodObj by (fastforce simp: pods_def split: option.split)

lemma lookup_nodes: "lookup (NodeObj zero_Node) m (nodePrefix @ n) = map_option NodeObj (nodes m n)"
  using lookup_NodeObj by (fastforce simp: nodes_def split: option.split)

lemma lookup_replicasets:
  "lookup (ReplicaSetObj zero_ReplicaSet) m (ReplicaSetRegistry_generateKey n) =
     map_option ReplicaSetObj (replicasets m n)"
  using lookup_ReplicaSetObj by (fastforce simp: replicasets_def split: option.split)

lemma generateKey_inj [simp]:
  "PodRegistry_generateKey a = PodRegistry_generateKey b \<longleftrightarrow> a = b"
  "ReplicaSetRegistry_generateKey a = ReplicaSetRegistry_generateKey b \<longleftrightarrow> a = b"
  "PodRegistry_generateKey a \<noteq> nodePrefix @ b" "PodRegistry_generateKey a \<noteq> ReplicaSetRegistry_generateKey b"
  "ReplicaSetRegistry_generateKey a \<noteq> nodePrefix @ b"
  "nodePrefix @ b \<noteq> PodRegistry_generateKey a" "ReplicaSetRegistry_generateKey b \<noteq> PodRegistry_generateKey a"
  "nodePrefix @ b \<noteq> ReplicaSetRegistry_generateKey a"
  by (simp_all add: key_defs)

lemma lookup_stored:
  assumes "stored k obj m m'" "storable obj"
  shows "zero_like obj = zero_like z \<Longrightarrow> lookup z m' k = Some obj" "x \<noteq> k \<Longrightarrow> lookup z m' x = lookup z m x"
  using assms Decode_Encode_zero [of obj _ z] by (auto simp: stored_def lookup_def)

text \<open>Storing an object changes the view of its own kind at its own name, and no other view.\<close>

lemma views_stored_Pod [store_laws]:
  assumes "stored (object_key (PodObj p)) (PodObj p) m m'" "storable (PodObj p)"
  shows "pods m' = (pods m)(Pod_Name p \<mapsto> p)" "nodes m' = nodes m" "replicasets m' = replicasets m"
  using lookup_stored [OF assms] by (simp_all add: view_defs fun_eq_iff)

lemma views_stored_Node [store_laws]:
  assumes "stored (object_key (NodeObj n)) (NodeObj n) m m'" "storable (NodeObj n)" "plain_element (Node_Name n)"
  shows "pods m' = pods m" "nodes m' = (nodes m)(Node_Name n \<mapsto> n)" "replicasets m' = replicasets m"
  using lookup_stored [OF assms(1,2)] by (simp_all add: view_defs fun_eq_iff generateKey_plain [OF assms(3)])

lemma views_stored_ReplicaSet [store_laws]:
  assumes "stored (object_key (ReplicaSetObj r)) (ReplicaSetObj r) m m'" "storable (ReplicaSetObj r)"
  shows "pods m' = pods m" "nodes m' = nodes m" "replicasets m' = (replicasets m)(RS_Name r \<mapsto> r)"
  using lookup_stored [OF assms] by (simp_all add: view_defs fun_eq_iff)

lemma views_del_Pod [store_laws]:
  "pods (m(PodRegistry_generateKey n := None)) = (pods m)(n := None)"
  "nodes (m(PodRegistry_generateKey n := None)) = nodes m"
  "replicasets (m(PodRegistry_generateKey n := None)) = replicasets m"
  by (auto simp: view_defs lookup_del fun_eq_iff)

lemma views_del_Node [store_laws]:
  assumes "plain_element n"
  shows "pods (m(generateKey nodePrefix n := None)) = pods m"
    "nodes (m(generateKey nodePrefix n := None)) = (nodes m)(n := None)"
    "replicasets (m(generateKey nodePrefix n := None)) = replicasets m"
  by (auto simp: view_defs lookup_del fun_eq_iff generateKey_plain [OF assms])

lemma views_del_ReplicaSet [store_laws]:
  "pods (m(ReplicaSetRegistry_generateKey n := None)) = pods m"
  "nodes (m(ReplicaSetRegistry_generateKey n := None)) = nodes m"
  "replicasets (m(ReplicaSetRegistry_generateKey n := None)) = (replicasets m)(n := None)"
  by (auto simp: view_defs lookup_del fun_eq_iff)

subsection \<open>The interface of the registries\<close>

locale registry = object_store S contents up + struct_validator V
  for S :: "'w Storage" and contents :: "'w \<Rightarrow> bytes contents" and up :: "'w \<Rightarrow> bool"
    and V :: validator

begin

lemma list_listing:
  assumes "st_List S (kind_prefix z) (PtrToSlice (zero_like z) []) w = (rs, w')" "kept z (contents w)"
  shows "client_failed rs \<or> (\<exists>objs. rs = Inr objs \<and> listing z (contents w) objs)"
proof (cases "client_failed rs")
  case False
  then obtain es where es: "lists_prefix (contents w) (kind_prefix z) es"
      "rs = map_sum id ((@) []) (traverse (\<lambda>e. decode_entry z (snd e)) es)"
    using list_result [OF assms(1)] by auto
  obtain objs where "traverse (\<lambda>e. decode_entry z (snd e)) es = Inr objs" "listing z (contents w) objs"
    using kept_lists [OF assms(2) es(1)] by blast
  then show ?thesis
    using es(2) by simp
qed simp

lemma list_listing_up:
  assumes "up w" "kept z (contents w)"
  obtains objs w' where "st_List S (kind_prefix z) (PtrToSlice (zero_like z) []) w = (Inr objs, w')"
    "listing z (contents w) objs" "up w'" "contents w' = contents w"
proof -
  obtain rs w' where r: "st_List S (kind_prefix z) (PtrToSlice (zero_like z) []) w = (rs, w')"
      "\<not> client_failed rs" "up w'"
    using list_up [OF assms(1)] by blast
  then show thesis
    using list_listing [OF r(1) assms(2)] list_frame [OF r(1)] that by auto
qed

end

text \<open>An order on keys that share a prefix is the order on what follows it.\<close>

lemma append_less_cancel [simp]: "xs @ ys < xs @ zs \<longleftrightarrow> ys < (zs :: string)"
  by (induction xs) simp_all

end
