(* ===== verification/Pod_Registry.thy ===== *)
theory Pod_Registry
  imports Registry
begin

text \<open>
  \<open>pkg/registry/pod_registry.go\<close>. Each operation holds the registry's mutex from its first to its
  last request, so one operation is one transition of the world for the users of one registry.
  \<open>CreatePod\<close> fills in the status of the pod its caller passed by pointer: the pod after the call
  is part of its result.
\<close>

fun as_Pod :: "Object \<Rightarrow> Pod" where
  "as_Pod (PodObj p) = p"
| "as_Pod _ = zero_Pod"

definition CreatePod :: "validator \<Rightarrow> 'w Storage \<Rightarrow> Pod \<Rightarrow> 'w \<Rightarrow> (error option \<times> Pod) \<times> 'w" where
  "CreatePod V S pod w =
     (let key = PodRegistry_generateKey (Pod_Name pod)
      in case st_Get S key (PodObj zero_Pod) w of
           (Inr _, w1) \<Rightarrow> ((Some (wrap_text ErrPodAlreadyExists (Pod_Name pod)), pod), w1)
         | (Inl _, w1) \<Rightarrow>
             (let pod1 = (if Pod_Status pod = '''' then pod\<lparr>Pod_Status := PodPending\<rparr> else pod)
              in case Pod_Validate V pod1 of
                   Some err \<Rightarrow> ((Some (wrap_cause ErrPodInvalid '''' err), pod1), w1)
                 | None \<Rightarrow>
                     (case st_Create S key (PodObj pod1) w1 of
                        (e, w2) \<Rightarrow> ((e, pod1), w2))))"

definition GetPod :: "'w Storage \<Rightarrow> string \<Rightarrow> 'w \<Rightarrow> (error + Pod) \<times> 'w" where
  "GetPod S name w =
     (case st_Get S (PodRegistry_generateKey name) (PodObj zero_Pod) w of
        (Inl err, w1) \<Rightarrow>
          (if errors_Is err ErrNotFound then (Inl (wrap_text ErrPodNotFound name), w1)
           else (Inl (wrap_cause ErrInternal ''failed to get pod'' err), w1))
      | (Inr obj, w1) \<Rightarrow> (Inr (as_Pod obj), w1))"

definition UpdatePod :: "validator \<Rightarrow> 'w Storage \<Rightarrow> Pod \<Rightarrow> 'w \<Rightarrow> error option \<times> 'w" where
  "UpdatePod V S pod w =
     (case Pod_Validate V pod of
        Some err \<Rightarrow> (Some (wrap_cause ErrPodInvalid '''' err), w)
      | None \<Rightarrow> st_Update S (PodRegistry_generateKey (Pod_Name pod)) (PodObj pod) w)"

definition DeletePod :: "'w Storage \<Rightarrow> string \<Rightarrow> 'w \<Rightarrow> error option \<times> 'w" where
  "DeletePod S name w = st_Delete S (PodRegistry_generateKey name) w"

definition ListPods :: "'w Storage \<Rightarrow> 'w \<Rightarrow> (error + Pod list) \<times> 'w" where
  "ListPods S w =
     (case st_List S podPrefix (PtrToSlice (PodObj zero_Pod) []) w of
        (Inl err, w1) \<Rightarrow> (Inl (wrap_cause ErrListPodsFailed '''' err), w1)
      | (Inr objs, w1) \<Rightarrow> (Inr (map as_Pod objs), w1))"

definition listPodsByStatus :: "'w Storage \<Rightarrow> PodStatus \<Rightarrow> 'w \<Rightarrow> (error + Pod list) \<times> 'w" where
  "listPodsByStatus S status w =
     (case ListPods S w of
        (Inl err, w1) \<Rightarrow> (Inl (wrap_cause ErrListPodsFailed '''' err), w1)
      | (Inr ps, w1) \<Rightarrow> (Inr (filter (\<lambda>p. Pod_Status p = status) ps), w1))"

definition ListUnassignedPods :: "'w Storage \<Rightarrow> 'w \<Rightarrow> (error + Pod list) \<times> 'w" where
  "ListUnassignedPods S w = listPodsByStatus S PodPending w"

definition ListPendingPods :: "'w Storage \<Rightarrow> 'w \<Rightarrow> (error + Pod list) \<times> 'w" where
  "ListPendingPods S w = listPodsByStatus S PodPending w"

text \<open>The pod that \<open>CreatePod\<close> stores, and a listing of pods by name.\<close>

definition with_status :: "Pod \<Rightarrow> Pod" where
  "with_status pod = (if Pod_Status pod = '''' then pod\<lparr>Pod_Status := PodPending\<rparr> else pod)"

definition lists_pods :: "bytes contents \<Rightarrow> Pod list \<Rightarrow> bool" where
  "lists_pods m ps \<longleftrightarrow> sorted_wrt (<) (map Pod_Name ps) \<and> (\<forall>p. p \<in> set ps \<longleftrightarrow> pods m (Pod_Name p) = Some p)"

lemma with_status_simps [simp]:
  "Pod_ObjectMeta (with_status p) = Pod_ObjectMeta p" "Pod_Spec (with_status p) = Pod_Spec p"
  "Pod_NodeName (with_status p) = Pod_NodeName p" "Pod_Status (with_status p) \<noteq> ''''"
  by (simp_all add: with_status_def PodPending_def)

lemma valid_status: "valid_utf8 PodPending" "valid_utf8 PodScheduled"
  by code_simp+

lemma storable_with_status [simp]: "storable (PodObj p) \<Longrightarrow> storable (PodObj (with_status p))"
  by (simp add: with_status_def valid_status)

lemma struct_tags_with_status [simp]: "struct_tags (PodObj (with_status p)) = struct_tags (PodObj p)"
  by simp

lemma CreatePod_alt:
  "CreatePod V S pod w =
     (case st_Get S (object_key (PodObj pod)) (PodObj zero_Pod) w of
        (Inr _, w1) \<Rightarrow> ((Some (wrap_text ErrPodAlreadyExists (Pod_Name pod)), pod), w1)
      | (Inl _, w1) \<Rightarrow>
          (case Pod_Validate V (with_status pod) of
             Some err \<Rightarrow> ((Some (wrap_cause ErrPodInvalid '''' err), with_status pod), w1)
           | None \<Rightarrow>
               (case st_Create S (object_key (PodObj (with_status pod))) (PodObj (with_status pod)) w1 of
                  (e, w2) \<Rightarrow> ((e, with_status pod), w2))))"
  by (simp add: CreatePod_def Let_def with_status_def split: prod.split sum.split option.split)

lemma lists_pods_listing:
  assumes "listing (PodObj zero_Pod) m objs"
  shows "lists_pods m (map as_Pod objs)"
proof -
  have o: "\<exists>p. obj = PodObj p" if "obj \<in> set objs" for obj
    using that assms lookup_PodObj by (auto simp: listing_def)
  then have k: "object_key obj = podPrefix @ Pod_Name (as_Pod obj)" if "obj \<in> set objs" for obj
    using that by (fastforce simp: PodRegistry_generateKey_def)
  have "sorted_wrt (\<lambda>x y. object_key x < object_key y) objs"
    using assms by (simp add: listing_def sorted_wrt_map)
  then have "sorted_wrt (\<lambda>x y. Pod_Name (as_Pod x) < Pod_Name (as_Pod y)) objs"
    by (rule sorted_wrt_mono_rel [rotated]) (simp add: k)
  then have "sorted_wrt (<) (map Pod_Name (map as_Pod objs))"
    by (simp add: sorted_wrt_map)
  moreover have "p \<in> set (map as_Pod objs) \<longleftrightarrow> PodObj p \<in> set objs" for p
    using o by force
  ultimately show ?thesis
    using assms unfolding lists_pods_def listing_def
    by (auto simp: lookup_pods PodRegistry_generateKey_def [symmetric]) (simp_all add: key_defs)
qed

lemma pods_kept:
  assumes "kept (PodObj zero_Pod) m"
  shows "m (object_key (PodObj p)) = None \<longleftrightarrow> pods m (Pod_Name p) = None"
    and "pods m n = Some q \<Longrightarrow> Pod_Name q = n \<and> storable (PodObj q)"
proof -
  have pre: "prefix (kind_prefix (PodObj zero_Pod)) (PodRegistry_generateKey x)" for x
    by (simp add: PodRegistry_generateKey_def)
  show "m (object_key (PodObj p)) = None \<longleftrightarrow> pods m (Pod_Name p) = None"
    using kept_lookup [OF assms pre, of "Pod_Name p"] by (auto simp: lookup_pods)
  show "Pod_Name q = n \<and> storable (PodObj q)" if "pods m n = Some q"
    using kept_lookup [OF assms pre, of n] that by (auto simp: lookup_pods)
qed

context registry
begin

lemma CreatePod_ok:
  assumes "CreatePod V S pod w = ((None, pod'), w')"
  shows "pod' = with_status pod" "struct_tags (PodObj pod)"
    "stored (object_key (PodObj (with_status pod))) (PodObj (with_status pod)) (contents w) (contents w')"
    "spec_Get (contents w) (object_key (PodObj pod)) (PodObj zero_Pod) = Inr obj \<Longrightarrow>
       client_failed (fst (st_Get S (object_key (PodObj pod)) (PodObj zero_Pod) w))"
proof -
  obtain e w1 where g: "st_Get S (object_key (PodObj pod)) (PodObj zero_Pod) w = (Inl e, w1)"
    using assms by (auto simp: CreatePod_alt split: prod.splits sum.splits)
  have v: "Pod_Validate V (with_status pod) = None"
    and c: "st_Create S (object_key (PodObj (with_status pod))) (PodObj (with_status pod)) w1 = (None, w')"
    and p: "pod' = with_status pod"
    using assms g by (auto simp: CreatePod_alt split: option.splits prod.splits)
  show "pod' = with_status pod" by fact
  show "struct_tags (PodObj pod)"
    using v Pod_Validate_None struct_tags_with_status by blast
  show "stored (object_key (PodObj (with_status pod))) (PodObj (with_status pod)) (contents w) (contents w')"
    using create_ok [OF c] get_frame [OF g] by simp
  show "client_failed (fst (st_Get S (object_key (PodObj pod)) (PodObj zero_Pod) w))"
    if "spec_Get (contents w) (object_key (PodObj pod)) (PodObj zero_Pod) = Inr obj"
    using get_result [OF g] that g by auto
qed

lemma CreatePod_err:
  assumes "CreatePod V S pod w = ((Some e, pod'), w')"
  shows "contents w' = contents w \<or> errors_Is e ErrEtcdClient \<and>
    stored (object_key (PodObj (with_status pod))) (PodObj (with_status pod)) (contents w) (contents w')"
proof (cases "st_Get S (object_key (PodObj pod)) (PodObj zero_Pod) w")
  case (Pair r w1)
  then show ?thesis
    using assms get_frame [OF Pair] create_err [of "object_key (PodObj (with_status pod))" _ w1 e w']
    by (auto simp: CreatePod_alt split: prod.splits sum.splits option.splits)
qed

lemma CreatePod_up:
  assumes "up w"
  obtains w1 where "st_Get S (object_key (PodObj pod)) (PodObj zero_Pod) w =
      (spec_Get (contents w) (object_key (PodObj pod)) (PodObj zero_Pod), w1)" "up w1" "contents w1 = contents w"
  using get_up [OF assms object_key_nonempty, of "PodObj pod" "PodObj zero_Pod"] get_frame that by blast

lemma CreatePod_exists:
  assumes "up w" "pods (contents w) (Pod_Name pod) = Some p"
  shows "\<exists>w'. CreatePod V S pod w = ((Some (wrap_text ErrPodAlreadyExists (Pod_Name pod)), pod), w')
    \<and> contents w' = contents w \<and> up w'"
proof -
  have "spec_Get (contents w) (object_key (PodObj pod)) (PodObj zero_Pod) = Inr (PodObj p)"
    using spec_Get_lookup [of "contents w" _ "PodObj zero_Pod"] assms(2) by (simp add: lookup_pods)
  then show ?thesis
    by (rule_tac CreatePod_up [OF assms(1), of pod]) (simp add: CreatePod_alt)
qed

lemma CreatePod_new:
  assumes "up w" "pods (contents w) (Pod_Name pod) = None" "storable (PodObj pod)" "struct_tags (PodObj pod)"
  shows "\<exists>w'. CreatePod V S pod w = ((None, with_status pod), w') \<and> up w'"
proof -
  obtain w1 where w1: "st_Get S (object_key (PodObj pod)) (PodObj zero_Pod) w =
      (spec_Get (contents w) (object_key (PodObj pod)) (PodObj zero_Pod), w1)" "up w1"
    using CreatePod_up [OF assms(1)] by blast
  have "spec_Get (contents w) (object_key (PodObj pod)) (PodObj zero_Pod) \<noteq> Inr obj" for obj
    using spec_Get_lookup [of "contents w" _ "PodObj zero_Pod"] assms(2) by (simp add: lookup_pods)
  then obtain e where e: "spec_Get (contents w) (object_key (PodObj pod)) (PodObj zero_Pod) = Inl e"
    by (metis sum.exhaust)
  obtain d where "Encode (PodObj (with_status pod)) = Inr d"
    using Encode_storable [OF storable_with_status [OF assms(3)]] by blast
  then obtain w' where "st_Create S (object_key (PodObj (with_status pod))) (PodObj (with_status pod)) w1
      = (None, w')" "up w'"
    using create_up [OF w1(2) object_key_nonempty] by blast
  moreover have "Pod_Validate V (with_status pod) = None"
    using assms(4) Pod_Validate_None struct_tags_with_status by blast
  ultimately show ?thesis
    using w1 e by (auto simp: CreatePod_alt)
qed

lemma CreatePod_invalid:
  assumes "\<not> struct_tags (PodObj pod)" "CreatePod V S pod w = ((r, pod'), w')"
  shows "(\<exists>e. r = Some e \<and> (errors_Is e ErrPodInvalid \<or> errors_Is e ErrPodAlreadyExists)) \<and> contents w' = contents w"
proof -
  have "Pod_Validate V (with_status pod) \<noteq> None"
    using assms(1) Pod_Validate_None struct_tags_with_status by blast
  then show ?thesis
    using assms(2) by (auto simp: CreatePod_alt split: prod.splits sum.splits dest: get_frame)
qed

text \<open>While etcd is up, \<open>CreatePod\<close> on a pod that can be stored has exactly three outcomes.\<close>

lemma CreatePod_total:
  assumes "up w" "storable (PodObj pod)"
  obtains (exists) w' where "pods (contents w) (Pod_Name pod) \<noteq> None"
      "CreatePod V S pod w = ((Some (wrap_text ErrPodAlreadyExists (Pod_Name pod)), pod), w')"
      "contents w' = contents w" "up w'"
  | (invalid) w' e where "pods (contents w) (Pod_Name pod) = None" "\<not> struct_tags (PodObj pod)"
      "CreatePod V S pod w = ((Some (wrap_cause ErrPodInvalid '''' e), with_status pod), w')"
      "contents w' = contents w" "up w'"
  | (created) w' where "pods (contents w) (Pod_Name pod) = None" "struct_tags (PodObj pod)"
      "CreatePod V S pod w = ((None, with_status pod), w')"
      "stored (object_key (PodObj (with_status pod))) (PodObj (with_status pod)) (contents w) (contents w')" "up w'"
proof (cases "pods (contents w) (Pod_Name pod)")
  case (Some p)
  then show thesis using CreatePod_exists [OF assms(1) Some] exists by auto
next
  case None
  show thesis
  proof (cases "struct_tags (PodObj pod)")
    case True
    then obtain w' where w': "CreatePod V S pod w = ((None, with_status pod), w')" "up w'"
      using CreatePod_new [OF assms(1) None assms(2)] by blast
    then show thesis using created None True CreatePod_ok(3) [OF w'(1)] by blast
  next
    case False
    obtain w1 where w1: "st_Get S (object_key (PodObj pod)) (PodObj zero_Pod) w =
        (spec_Get (contents w) (object_key (PodObj pod)) (PodObj zero_Pod), w1)" "up w1" "contents w1 = contents w"
      using CreatePod_up [OF assms(1)] by blast
    have "spec_Get (contents w) (object_key (PodObj pod)) (PodObj zero_Pod) \<noteq> Inr obj" for obj
      using spec_Get_lookup [of "contents w" _ "PodObj zero_Pod"] None by (simp add: lookup_pods)
    then obtain g where g: "spec_Get (contents w) (object_key (PodObj pod)) (PodObj zero_Pod) = Inl g"
      by (metis sum.exhaust)
    obtain e where "Pod_Validate V (with_status pod) = Some e"
      using False Pod_Validate_None struct_tags_with_status by blast
    then show thesis
      using w1 g invalid [OF None False, of e w1] by (simp add: CreatePod_alt)
  qed
qed

lemma GetPod_frame: "GetPod S n w = (r, w') \<Longrightarrow> contents w' = contents w"
  by (auto simp: GetPod_def split: prod.splits sum.splits if_splits dest: get_frame)

lemma GetPod_ok:
  assumes "GetPod S n w = (Inr p, w')"
  shows "pods (contents w) n = Some p"
proof -
  obtain obj where g: "st_Get S (PodRegistry_generateKey n) (PodObj zero_Pod) w = (Inr obj, w')"
      and p: "p = as_Pod obj"
    using assms by (auto simp: GetPod_def split: prod.splits sum.splits if_splits)
  have "lookup (PodObj zero_Pod) (contents w) (PodRegistry_generateKey n) = Some obj"
    using get_result [OF g] spec_Get_lookup [of "contents w" _ "PodObj zero_Pod" obj] by (auto simp: eq_commute)
  with p show ?thesis by (auto simp: lookup_pods)
qed

lemma GetPod_up:
  assumes "up w" "kept (PodObj zero_Pod) (contents w)"
  shows "\<exists>w'. GetPod S n w =
    ((case pods (contents w) n of Some p \<Rightarrow> Inr p | None \<Rightarrow> Inl (wrap_text ErrPodNotFound n)), w') \<and> up w'"
proof -
  have ne: "PodRegistry_generateKey n \<noteq> []" by (simp add: key_defs)
  obtain w' where w': "st_Get S (PodRegistry_generateKey n) (PodObj zero_Pod) w =
      (spec_Get (contents w) (PodRegistry_generateKey n) (PodObj zero_Pod), w')" "up w'"
    using get_up [OF assms(1) ne] by blast
  show ?thesis
  proof (cases "pods (contents w) n")
    case None
    then have "contents w (PodRegistry_generateKey n) = None"
      using pods_kept(1) [OF assms(2), of "zero_Pod\<lparr>Pod_ObjectMeta := zero_ObjectMeta\<lparr>Meta_Name := n\<rparr>\<rparr>"] by simp
    then show ?thesis
      using w' None by (simp add: GetPod_def spec_Get_def)
  next
    case (Some p)
    then have "spec_Get (contents w) (PodRegistry_generateKey n) (PodObj zero_Pod) = Inr (PodObj p)"
      using spec_Get_lookup [of "contents w" _ "PodObj zero_Pod"] by (simp add: lookup_pods)
    then show ?thesis
      using w' Some by (simp add: GetPod_def)
  qed
qed

lemma UpdatePod_ok:
  assumes "UpdatePod V S pod w = (None, w')"
  shows "struct_tags (PodObj pod)" "stored (object_key (PodObj pod)) (PodObj pod) (contents w) (contents w')"
  using assms Pod_Validate_None [of pod] by (auto simp: UpdatePod_def split: option.splits dest: update_ok)

lemma UpdatePod_err:
  "UpdatePod V S pod w = (Some e, w') \<Longrightarrow> contents w' = contents w \<or>
     errors_Is e ErrEtcdClient \<and> stored (object_key (PodObj pod)) (PodObj pod) (contents w) (contents w')"
  by (auto simp: UpdatePod_def split: option.splits dest: update_err)

lemma UpdatePod_up:
  assumes "up w" "storable (PodObj pod)" "struct_tags (PodObj pod)"
  shows "\<exists>w'. UpdatePod V S pod w = (None, w') \<and> up w'"
proof -
  obtain d where "Encode (PodObj pod) = Inr d"
    using Encode_storable [OF assms(2)] by blast
  then show ?thesis
    using update_up [OF assms(1) object_key_nonempty, of "PodObj pod" d "PodObj pod"] assms(3)
      Pod_Validate_None [of pod]
    by (simp add: UpdatePod_def)
qed

lemma DeletePod_ok: "DeletePod S n w = (None, w') \<Longrightarrow> contents w' = (contents w)(PodRegistry_generateKey n := None)"
  by (simp add: DeletePod_def delete_ok)

lemma DeletePod_err:
  "DeletePod S n w = (Some e, w') \<Longrightarrow> errors_Is e ErrEtcdClient \<and>
     (contents w' = contents w \<or> contents w' = (contents w)(PodRegistry_generateKey n := None))"
  by (simp add: DeletePod_def delete_err)

lemma DeletePod_up: "up w \<Longrightarrow> \<exists>w'. DeletePod S n w = (None, w') \<and> up w'"
  by (simp add: DeletePod_def delete_up key_defs)

lemma ListPods_frame: "ListPods S w = (r, w') \<Longrightarrow> contents w' = contents w"
  by (auto simp: ListPods_def split: prod.splits sum.splits dest: list_frame)

lemma ListPods_ok:
  assumes "ListPods S w = (Inr ps, w')" "kept (PodObj zero_Pod) (contents w)"
  shows "lists_pods (contents w) ps"
proof -
  obtain objs where l: "st_List S podPrefix (PtrToSlice (PodObj zero_Pod) []) w = (Inr objs, w')" "ps = map as_Pod objs"
    using assms(1) by (auto simp: ListPods_def split: prod.splits sum.splits)
  then show ?thesis
    using list_listing [of "PodObj zero_Pod" w "Inr objs" w'] assms(2) lists_pods_listing by simp
qed

lemma ListPods_up:
  assumes "up w" "kept (PodObj zero_Pod) (contents w)"
  shows "\<exists>ps w'. ListPods S w = (Inr ps, w') \<and> lists_pods (contents w) ps \<and> up w' \<and> contents w' = contents w"
  using assms by (rule_tac list_listing_up [OF assms]) (auto simp: ListPods_def intro: lists_pods_listing)

lemma ListPendingPods_frame: "ListPendingPods S w = (r, w') \<Longrightarrow> contents w' = contents w"
  by (auto simp: ListPendingPods_def listPodsByStatus_def split: prod.splits sum.splits dest: ListPods_frame)

lemma ListPendingPods_ok:
  assumes "ListPendingPods S w = (Inr ps, w')" "kept (PodObj zero_Pod) (contents w)"
  shows "sorted_wrt (<) (map Pod_Name ps)"
    "p \<in> set ps \<longleftrightarrow> pods (contents w) (Pod_Name p) = Some p \<and> Pod_Status p = PodPending"
proof -
  obtain qs where "ListPods S w = (Inr qs, w')" and ps: "ps = filter (\<lambda>p. Pod_Status p = PodPending) qs"
    using assms(1) by (auto simp: ListPendingPods_def listPodsByStatus_def split: prod.splits sum.splits)
  then have "lists_pods (contents w) qs"
    using ListPods_ok assms(2) by blast
  then show "sorted_wrt (<) (map Pod_Name ps)"
    "p \<in> set ps \<longleftrightarrow> pods (contents w) (Pod_Name p) = Some p \<and> Pod_Status p = PodPending"
    by (auto simp: ps lists_pods_def sorted_wrt_map sorted_wrt_filter)
qed

lemma ListPendingPods_up:
  assumes "up w" "kept (PodObj zero_Pod) (contents w)"
  shows "\<exists>ps w'. ListPendingPods S w = (Inr ps, w') \<and> up w'"
  using ListPods_up [OF assms] by (auto simp: ListPendingPods_def listPodsByStatus_def)

end

end
