(* ===== verification/ReplicaSet_Registry.thy ===== *)
theory ReplicaSet_Registry
  imports Registry
begin

text \<open>
  \<open>pkg/registry/replicaset_registry.go\<close>. \<open>Get\<close> and \<open>Update\<close> report every failure of the storage as
  "not found", and nothing is validated.
\<close>

fun as_ReplicaSet :: "Object \<Rightarrow> ReplicaSet" where
  "as_ReplicaSet (ReplicaSetObj r) = r"
| "as_ReplicaSet _ = zero_ReplicaSet"

definition ReplicaSet_Create :: "'w Storage \<Rightarrow> ReplicaSet \<Rightarrow> 'w \<Rightarrow> error option \<times> 'w" where
  "ReplicaSet_Create S rs w =
     (let key = ReplicaSetRegistry_generateKey (RS_Name rs)
      in case st_Get S key (ReplicaSetObj zero_ReplicaSet) w of
           (Inr _, w1) \<Rightarrow> (Some (wrap_text ErrReplicaSetExists (RS_Name rs)), w1)
         | (Inl _, w1) \<Rightarrow> st_Create S key (ReplicaSetObj rs) w1)"

definition ReplicaSet_Get :: "'w Storage \<Rightarrow> string \<Rightarrow> 'w \<Rightarrow> (error + ReplicaSet) \<times> 'w" where
  "ReplicaSet_Get S name w =
     (case st_Get S (ReplicaSetRegistry_generateKey name) (ReplicaSetObj zero_ReplicaSet) w of
        (Inl _, w1) \<Rightarrow> (Inl (wrap_text ErrReplicaSetNotFound name), w1)
      | (Inr obj, w1) \<Rightarrow> (Inr (as_ReplicaSet obj), w1))"

definition ReplicaSet_Update :: "'w Storage \<Rightarrow> ReplicaSet \<Rightarrow> 'w \<Rightarrow> error option \<times> 'w" where
  "ReplicaSet_Update S rs w =
     (let key = ReplicaSetRegistry_generateKey (RS_Name rs)
      in case st_Get S key (ReplicaSetObj zero_ReplicaSet) w of
           (Inl _, w1) \<Rightarrow> (Some (wrap_text ErrReplicaSetNotFound (RS_Name rs)), w1)
         | (Inr _, w1) \<Rightarrow> st_Update S key (ReplicaSetObj rs) w1)"

definition ReplicaSet_Delete :: "'w Storage \<Rightarrow> string \<Rightarrow> 'w \<Rightarrow> error option \<times> 'w" where
  "ReplicaSet_Delete S name w = st_Delete S (ReplicaSetRegistry_generateKey name) w"

definition ReplicaSet_List :: "'w Storage \<Rightarrow> 'w \<Rightarrow> (error + ReplicaSet list) \<times> 'w" where
  "ReplicaSet_List S w =
     (case st_List S replicaSetPrefix (PtrToSlice (ReplicaSetObj zero_ReplicaSet) []) w of
        (Inl _, w1) \<Rightarrow> (Inl (Errorf (Some (Sentinel ErrListReplicaSets)) '''' None), w1)
      | (Inr objs, w1) \<Rightarrow> (Inr (map as_ReplicaSet objs), w1))"

definition lists_replicasets :: "bytes contents \<Rightarrow> ReplicaSet list \<Rightarrow> bool" where
  "lists_replicasets m rs \<longleftrightarrow> sorted_wrt (<) (map RS_Name rs) \<and>
     (\<forall>r. r \<in> set rs \<longleftrightarrow> replicasets m (RS_Name r) = Some r)"

lemma rs_key_prefix: "prefix (kind_prefix (ReplicaSetObj zero_ReplicaSet)) (ReplicaSetRegistry_generateKey x)"
  by (simp add: ReplicaSetRegistry_generateKey_def)

lemma replicasets_kept:
  assumes "kept (ReplicaSetObj zero_ReplicaSet) m"
  shows "m (ReplicaSetRegistry_generateKey n) = None \<longleftrightarrow> replicasets m n = None"
    and "replicasets m n = Some q \<Longrightarrow> RS_Name q = n \<and> storable (ReplicaSetObj q)"
  using kept_lookup [OF assms rs_key_prefix, of n] by (auto simp: lookup_replicasets)

lemma lists_replicasets_listing:
  assumes "listing (ReplicaSetObj zero_ReplicaSet) m objs"
  shows "lists_replicasets m (map as_ReplicaSet objs)"
proof -
  have o: "\<exists>r. obj = ReplicaSetObj r" if "obj \<in> set objs" for obj
    using that assms lookup_ReplicaSetObj by (auto simp: listing_def)
  then have k: "object_key obj = (replicaSetPrefix @ ''/'') @ RS_Name (as_ReplicaSet obj)" if "obj \<in> set objs" for obj
    using that by (fastforce simp: ReplicaSetRegistry_generateKey_def)
  have "sorted_wrt (\<lambda>x y. object_key x < object_key y) objs"
    using assms by (simp add: listing_def sorted_wrt_map)
  then have "sorted_wrt (\<lambda>x y. RS_Name (as_ReplicaSet x) < RS_Name (as_ReplicaSet y)) objs"
    by (rule sorted_wrt_mono_rel [rotated]) (simp only: k append_less_cancel)
  then have "sorted_wrt (<) (map RS_Name (map as_ReplicaSet objs))"
    by (simp add: sorted_wrt_map)
  moreover have "r \<in> set (map as_ReplicaSet objs) \<longleftrightarrow> ReplicaSetObj r \<in> set objs" for r
    using o by force
  ultimately show ?thesis
    using assms rs_key_prefix unfolding lists_replicasets_def listing_def by (auto simp: lookup_replicasets)
qed

context registry
begin

lemma ReplicaSet_Get_frame: "ReplicaSet_Get S n w = (r, w') \<Longrightarrow> contents w' = contents w"
  by (auto simp: ReplicaSet_Get_def split: prod.splits sum.splits dest: get_frame)

lemma ReplicaSet_Get_ok:
  assumes "ReplicaSet_Get S n w = (Inr r, w')"
  shows "replicasets (contents w) n = Some r"
proof -
  obtain obj where g: "st_Get S (ReplicaSetRegistry_generateKey n) (ReplicaSetObj zero_ReplicaSet) w = (Inr obj, w')"
      and r: "r = as_ReplicaSet obj"
    using assms by (auto simp: ReplicaSet_Get_def split: prod.splits sum.splits)
  have "lookup (ReplicaSetObj zero_ReplicaSet) (contents w) (ReplicaSetRegistry_generateKey n) = Some obj"
    using get_result [OF g] spec_Get_lookup [of "contents w" _ "ReplicaSetObj zero_ReplicaSet" obj]
    by (auto simp: eq_commute)
  with r show ?thesis by (auto simp: lookup_replicasets)
qed

lemma rs_get_up:
  assumes "up w"
  obtains w' where "st_Get S (ReplicaSetRegistry_generateKey n) (ReplicaSetObj zero_ReplicaSet) w =
      (spec_Get (contents w) (ReplicaSetRegistry_generateKey n) (ReplicaSetObj zero_ReplicaSet), w')" "up w'"
    "contents w' = contents w"
proof -
  have ne: "ReplicaSetRegistry_generateKey n \<noteq> []" by (simp add: key_defs)
  show thesis
    using get_up [OF assms ne, of "ReplicaSetObj zero_ReplicaSet"] get_frame that by blast
qed

lemma rs_spec_Get:
  "spec_Get m (ReplicaSetRegistry_generateKey n) (ReplicaSetObj zero_ReplicaSet) = Inr obj \<longleftrightarrow>
     map_option ReplicaSetObj (replicasets m n) = Some obj"
  using spec_Get_lookup [of m _ "ReplicaSetObj zero_ReplicaSet" obj] by (simp add: lookup_replicasets)

lemma ReplicaSet_Get_up:
  assumes "up w"
  shows "\<exists>w'. ReplicaSet_Get S n w =
    ((case replicasets (contents w) n of Some r \<Rightarrow> Inr r | None \<Rightarrow> Inl (wrap_text ErrReplicaSetNotFound n)), w')
    \<and> up w' \<and> contents w' = contents w"
proof -
  obtain w' where g: "st_Get S (ReplicaSetRegistry_generateKey n) (ReplicaSetObj zero_ReplicaSet) w =
      (spec_Get (contents w) (ReplicaSetRegistry_generateKey n) (ReplicaSetObj zero_ReplicaSet), w')" "up w'"
    "contents w' = contents w"
    using rs_get_up [OF assms] by blast
  show ?thesis
  proof (cases "spec_Get (contents w) (ReplicaSetRegistry_generateKey n) (ReplicaSetObj zero_ReplicaSet)")
    case (Inl e)
    then have "replicasets (contents w) n = None"
      using rs_spec_Get [of "contents w" n] by (cases "replicasets (contents w) n") auto
    then show ?thesis using g Inl by (simp add: ReplicaSet_Get_def)
  next
    case (Inr obj)
    then show ?thesis using g rs_spec_Get [of "contents w" n obj] by (auto simp: ReplicaSet_Get_def)
  qed
qed

lemma ReplicaSet_Create_ok:
  assumes "ReplicaSet_Create S rs w = (None, w')"
  shows "stored (object_key (ReplicaSetObj rs)) (ReplicaSetObj rs) (contents w) (contents w')"
proof -
  obtain e w1 where g: "st_Get S (object_key (ReplicaSetObj rs)) (ReplicaSetObj zero_ReplicaSet) w = (Inl e, w1)"
      and c: "st_Create S (object_key (ReplicaSetObj rs)) (ReplicaSetObj rs) w1 = (None, w')"
    using assms by (auto simp: ReplicaSet_Create_def Let_def split: prod.splits sum.splits)
  show ?thesis using create_ok [OF c] get_frame [OF g] by simp
qed

lemma ReplicaSet_Create_err:
  assumes "ReplicaSet_Create S rs w = (Some e, w')"
  shows "contents w' = contents w \<or> errors_Is e ErrEtcdClient \<and>
    stored (object_key (ReplicaSetObj rs)) (ReplicaSetObj rs) (contents w) (contents w')"
proof (cases "st_Get S (object_key (ReplicaSetObj rs)) (ReplicaSetObj zero_ReplicaSet) w")
  case (Pair r w1)
  then show ?thesis
    using assms get_frame [OF Pair] create_err [of "object_key (ReplicaSetObj rs)" _ w1 e w']
    by (auto simp: ReplicaSet_Create_def Let_def split: sum.splits)
qed

lemma ReplicaSet_Update_ok:
  assumes "ReplicaSet_Update S rs w = (None, w')"
  shows "replicasets (contents w) (RS_Name rs) \<noteq> None"
    "stored (object_key (ReplicaSetObj rs)) (ReplicaSetObj rs) (contents w) (contents w')"
proof -
  obtain obj w1 where g: "st_Get S (object_key (ReplicaSetObj rs)) (ReplicaSetObj zero_ReplicaSet) w = (Inr obj, w1)"
      and c: "st_Update S (object_key (ReplicaSetObj rs)) (ReplicaSetObj rs) w1 = (None, w')"
    using assms by (auto simp: ReplicaSet_Update_def Let_def split: prod.splits sum.splits)
  show "stored (object_key (ReplicaSetObj rs)) (ReplicaSetObj rs) (contents w) (contents w')"
    using update_ok [OF c] get_frame [OF g] by simp
  show "replicasets (contents w) (RS_Name rs) \<noteq> None"
    using get_result [OF g] rs_spec_Get [of "contents w" "RS_Name rs" obj] by (auto simp: eq_commute)
qed

lemma ReplicaSet_Update_err:
  assumes "ReplicaSet_Update S rs w = (Some e, w')"
  shows "contents w' = contents w \<or> errors_Is e ErrEtcdClient \<and>
    stored (object_key (ReplicaSetObj rs)) (ReplicaSetObj rs) (contents w) (contents w')"
proof (cases "st_Get S (object_key (ReplicaSetObj rs)) (ReplicaSetObj zero_ReplicaSet) w")
  case (Pair r w1)
  then show ?thesis
    using assms get_frame [OF Pair] update_err [of "object_key (ReplicaSetObj rs)" _ w1 e w']
    by (auto simp: ReplicaSet_Update_def Let_def split: sum.splits)
qed

lemma ReplicaSet_Create_up:
  assumes "up w" "storable (ReplicaSetObj rs)"
  shows "\<exists>w'. ReplicaSet_Create S rs w =
    ((if replicasets (contents w) (RS_Name rs) = None then None
      else Some (wrap_text ErrReplicaSetExists (RS_Name rs))), w') \<and> up w'"
proof -
  let ?k = "ReplicaSetRegistry_generateKey (RS_Name rs)"
  obtain w1 where g: "st_Get S ?k (ReplicaSetObj zero_ReplicaSet) w =
      (spec_Get (contents w) ?k (ReplicaSetObj zero_ReplicaSet), w1)" "up w1"
    using rs_get_up [OF assms(1)] by blast
  show ?thesis
  proof (cases "spec_Get (contents w) ?k (ReplicaSetObj zero_ReplicaSet)")
    case (Inr obj)
    then show ?thesis
      using g rs_spec_Get [of "contents w" "RS_Name rs" obj] by (auto simp: ReplicaSet_Create_def)
  next
    case (Inl e)
    then have "replicasets (contents w) (RS_Name rs) = None"
      using rs_spec_Get [of "contents w" "RS_Name rs"] by (cases "replicasets (contents w) (RS_Name rs)") auto
    moreover obtain d where "Encode (ReplicaSetObj rs) = Inr d" using Encode_storable [OF assms(2)] by blast
    then obtain w2 where "st_Create S ?k (ReplicaSetObj rs) w1 = (None, w2)" "up w2"
      using create_up [OF g(2), of ?k] by (auto simp: key_defs)
    ultimately show ?thesis using g(1) Inl by (simp add: ReplicaSet_Create_def)
  qed
qed

lemma ReplicaSet_Update_up:
  assumes "up w" "replicasets (contents w) (RS_Name rs) = Some old" "storable (ReplicaSetObj rs)"
  shows "\<exists>w'. ReplicaSet_Update S rs w = (None, w') \<and> up w'"
proof -
  let ?k = "object_key (ReplicaSetObj rs)"
  obtain w1 where w1: "st_Get S ?k (ReplicaSetObj zero_ReplicaSet) w =
      (spec_Get (contents w) ?k (ReplicaSetObj zero_ReplicaSet), w1)" "up w1"
    using rs_get_up [OF assms(1), of "RS_Name rs"] by auto
  have "spec_Get (contents w) ?k (ReplicaSetObj zero_ReplicaSet) = Inr (ReplicaSetObj old)"
    using rs_spec_Get [of "contents w" "RS_Name rs"] assms(2) by simp
  moreover obtain d where "Encode (ReplicaSetObj rs) = Inr d"
    using Encode_storable [OF assms(3)] by blast
  then obtain w2 where "st_Update S ?k (ReplicaSetObj rs) w1 = (None, w2)" "up w2"
    using update_up [OF w1(2) object_key_nonempty] by blast
  ultimately show ?thesis
    using w1 by (simp add: ReplicaSet_Update_def)
qed

lemma ReplicaSet_Delete_ok:
  "ReplicaSet_Delete S n w = (None, w') \<Longrightarrow> contents w' = (contents w)(ReplicaSetRegistry_generateKey n := None)"
  by (simp add: ReplicaSet_Delete_def delete_ok)

lemma ReplicaSet_Delete_err:
  "ReplicaSet_Delete S n w = (Some e, w') \<Longrightarrow> errors_Is e ErrEtcdClient \<and>
     (contents w' = contents w \<or> contents w' = (contents w)(ReplicaSetRegistry_generateKey n := None))"
  by (simp add: ReplicaSet_Delete_def delete_err)

lemma ReplicaSet_List_frame: "ReplicaSet_List S w = (r, w') \<Longrightarrow> contents w' = contents w"
  by (auto simp: ReplicaSet_List_def split: prod.splits sum.splits dest: list_frame)

lemma ReplicaSet_List_up:
  assumes "up w" "kept (ReplicaSetObj zero_ReplicaSet) (contents w)"
  shows "\<exists>rs w'. ReplicaSet_List S w = (Inr rs, w') \<and> lists_replicasets (contents w) rs \<and> up w' \<and> contents w' = contents w"
  using assms by (rule_tac list_listing_up [OF assms]) (auto simp: ReplicaSet_List_def intro: lists_replicasets_listing)

lemma ReplicaSet_List_ok:
  assumes "ReplicaSet_List S w = (Inr rs, w')" "kept (ReplicaSetObj zero_ReplicaSet) (contents w)"
  shows "lists_replicasets (contents w) rs"
proof -
  obtain objs where "st_List S replicaSetPrefix (PtrToSlice (ReplicaSetObj zero_ReplicaSet) []) w = (Inr objs, w')"
      "rs = map as_ReplicaSet objs"
    using assms(1) by (auto simp: ReplicaSet_List_def split: prod.splits sum.splits)
  then show ?thesis
    using list_listing [of "ReplicaSetObj zero_ReplicaSet" w "Inr objs" w'] assms(2) lists_replicasets_listing by simp
qed

end

end
