(* ===== verification/Gorand.thy ===== *)
theory Gorand
  imports Prelude "HOL-Library.Stream"
begin

text \<open>
  What the repository uses of \<open>math/rand\<close>. A source is the stream of the values its \<open>Int63\<close> returns,
  each in \<open>[0, 2^63)\<close>; a draw takes the head. \<open>Intn\<close> rejects draws until one is below a multiple of
  its argument, so it is a partial function: \<open>None\<close> is a call that never returns.
\<close>

unbundle bit_operations_syntax

type_synonym rng = "int stream"

definition int63 :: "int \<Rightarrow> bool" where
  "int63 v \<longleftrightarrow> 0 \<le> v \<and> v < 2 ^ 63"

definition Int31 :: "int \<Rightarrow> int" where
  "Int31 v = drop_bit 32 v"

definition max31 :: "int \<Rightarrow> int" where
  "max31 n = 2 ^ 31 - 1 - 2 ^ 31 mod n"

definition max63 :: "int \<Rightarrow> int" where
  "max63 n = 2 ^ 63 - 1 - 2 ^ 63 mod n"

partial_function (option) draw_until :: "(int \<Rightarrow> int) \<Rightarrow> int \<Rightarrow> rng \<Rightarrow> (int \<times> rng) option" where
  "draw_until f m s = (if f (shd s) > m then draw_until f m (stl s) else Some (f (shd s), stl s))"

definition Intn :: "int \<Rightarrow> rng \<Rightarrow> (int \<times> rng) option" where
  "Intn n s =
     (if n \<le> 2 ^ 31 - 1 then
        (if n AND (n - 1) = 0 then Some (Int31 (shd s) AND (n - 1), stl s)
         else map_option (\<lambda>(v, s'). (v mod n, s')) (draw_until Int31 (max31 n) s))
      else
        (if n AND (n - 1) = 0 then Some (shd s AND (n - 1), stl s)
         else map_option (\<lambda>(v, s'). (v mod n, s')) (draw_until id (max63 n) s)))"

text \<open>A property of draws that keeps coming back. A proper source returns 63-bit values and keeps
  returning values that \<open>Intn n\<close> accepts, for every \<open>n\<close> of Go's type \<open>int\<close>.\<close>

definition fair :: "(int \<Rightarrow> bool) \<Rightarrow> rng \<Rightarrow> bool" where
  "fair P s \<longleftrightarrow> (\<forall>k. \<exists>j\<ge>k. P (s !! j))"

text \<open>The draws \<open>Intn n\<close> does not reject.\<close>

definition accepted :: "int \<Rightarrow> int \<Rightarrow> bool" where
  "accepted n v \<longleftrightarrow> (if n \<le> 2 ^ 31 - 1 then Int31 v \<le> max31 n else v \<le> max63 n)"

definition proper_source :: "rng \<Rightarrow> bool" where
  "proper_source s \<longleftrightarrow> (\<forall>i. int63 (s !! i)) \<and> (\<forall>n. 0 < n \<and> n < 2 ^ 63 \<longrightarrow> fair (accepted n) s)"

lemma fair_stl [intro]: "fair P s \<Longrightarrow> fair P (stl s)"
  unfolding fair_def by (metis Suc_le_D Suc_le_mono snth.simps(2))

lemma fair_sdrop [intro]: "fair P s \<Longrightarrow> fair P (sdrop n s)"
  by (induction n arbitrary: s) auto

lemma fair_hit: "fair P s \<Longrightarrow> \<exists>j. P (s !! j)"
  by (auto simp: fair_def)

lemma proper_source_stl [intro]: "proper_source s \<Longrightarrow> proper_source (stl s)"
  unfolding proper_source_def by (metis fair_stl snth.simps(2))

lemma proper_source_sdrop [intro]: "proper_source s \<Longrightarrow> proper_source (sdrop n s)"
  by (induction n arbitrary: s) auto

text \<open>Such sources exist.\<close>

lemma proper_source_zero: "proper_source (sconst 0)"
proof -
  have "accepted n 0" if n: "0 < n" "n < 2 ^ 63" for n
  proof (cases "n \<le> 2 ^ 31 - 1")
    case True
    then show ?thesis
      using pos_mod_bound [OF n(1), of "2 ^ 31"] by (simp add: accepted_def Int31_def max31_def)
  next
    case False
    have "0 \<le> max63 n"
      using pos_mod_bound [OF n(1), of "2 ^ 63"] n(2) unfolding max63_def by linarith
    with False show ?thesis by (simp add: accepted_def)
  qed
  then show ?thesis by (auto simp: proper_source_def fair_def int63_def)
qed

lemma draw_until_returns:
  "f (s !! j) \<le> m \<Longrightarrow> \<exists>i. draw_until f m s = Some (f (s !! i), sdrop (Suc i) s) \<and> f (s !! i) \<le> m"
proof (induction j arbitrary: s)
  case 0
  then show ?case by (intro exI [of _ 0]) (subst draw_until.simps, simp)
next
  case (Suc j)
  show ?case
  proof (cases "f (shd s) > m")
    case True
    obtain i where "draw_until f m (stl s) = Some (f (stl s !! i), sdrop (Suc i) (stl s))" "f (stl s !! i) \<le> m"
      using Suc.IH [of "stl s"] Suc.prems by auto
    with True show ?thesis
      by (intro exI [of _ "Suc i"]) (subst draw_until.simps, simp)
  next
    case False
    then show ?thesis by (intro exI [of _ 0]) (subst draw_until.simps, simp)
  qed
qed

text \<open>On a source that does not reject forever, \<open>Intn n\<close> returns a value in \<open>[0, n)\<close>.\<close>

lemma Intn_returns:
  assumes "proper_source s" "0 < n" "n < 2 ^ 63"
  shows "\<exists>v i. Intn n s = Some (v, sdrop (Suc i) s) \<and> 0 \<le> v \<and> v < n"
proof -
  have p: "0 \<le> v AND (n - 1) \<and> v AND (n - 1) < n" for v :: int
    using assms(2) AND_upper2 [of "n - 1" v] by simp
  obtain j where j: "accepted n (s !! j)"
    using assms fair_hit [of "accepted n" s] by (auto simp: proper_source_def)
  show ?thesis
  proof (cases "n AND (n - 1) = 0")
    case True
    then show ?thesis
      using p by (simp add: Intn_def exI [of _ 0])
  next
    case False
    have "\<exists>v i. map_option (\<lambda>(v, s'). (v mod n, s')) (draw_until f m s) = Some (v, sdrop (Suc i) s) \<and> 0 \<le> v \<and> v < n"
      if "f (s !! j) \<le> m" for f m
      using draw_until_returns [of f s j m, OF that] assms(2) by auto
    then show ?thesis
      using j False by (simp add: Intn_def accepted_def split: if_splits)
  qed
qed

lemma draw_until_result: "draw_until f m s = Some y \<Longrightarrow> \<exists>i. snd y = sdrop (Suc i) s"
proof (erule draw_until.raw_induct [where P = "\<lambda>f m s y. \<exists>i. snd y = sdrop (Suc i) s", rotated])
  fix g f m s y
  assume IH: "\<And>f m s y. g f m s = Some y \<Longrightarrow> \<exists>i. snd y = sdrop (Suc i) s"
    and g: "(if m < f (shd s) then g f m (stl s) else Some (f (shd s), stl s)) = Some y"
  show "\<exists>i. snd y = sdrop (Suc i) s"
  proof (cases "m < f (shd s)")
    case True
    then obtain i where "snd y = sdrop (Suc i) (stl s)"
      using IH [of f m "stl s" y] g by auto
    then show ?thesis by (intro exI [of _ "Suc i"]) simp
  next
    case False
    then show ?thesis using g by (intro exI [of _ 0]) auto
  qed
qed

lemma Intn_result:
  assumes "Intn n s = Some (v, s')" "0 < n"
  shows "0 \<le> v" "v < n" "\<exists>i. s' = sdrop (Suc i) s"
proof -
  have p: "0 \<le> u AND (n - 1) \<and> u AND (n - 1) < n" for u :: int
    using assms(2) AND_upper2 [of "n - 1" u] by simp
  have "0 \<le> v \<and> v < n \<and> (\<exists>i. s' = sdrop (Suc i) s)"
  proof (cases "n AND (n - 1) = 0")
    case True
    then show ?thesis
      using assms(1) p by (auto simp: Intn_def split: if_splits intro: exI [of _ 0])
  next
    case False
    have "0 \<le> v \<and> v < n \<and> (\<exists>i. s' = sdrop (Suc i) s)"
      if "map_option (\<lambda>(v, s'). (v mod n, s')) (draw_until f m s) = Some (v, s')" for f m
      using that assms(2) draw_until_result [of f m s] by fastforce
    then show ?thesis
      using assms(1) False by (simp add: Intn_def split: if_splits)
  qed
  then show "0 \<le> v" "v < n" "\<exists>i. s' = sdrop (Suc i) s" by blast+
qed

end
