(* ===== verification/Names.thy ===== *)
theory Names
  imports Gorand
begin

text \<open>
  \<open>pkg/registry/names/generate.go\<close>: names with a random suffix. Each \<open>Int63\<close> value yields up to
  twelve five-bit indices, and an index outside the alphabet is skipped, so the loop of \<open>String\<close>
  ends only if usable values keep coming: it is a partial function on the source.
\<close>

definition maxNameLength :: nat where "maxNameLength = 63"

definition randomLength :: nat where "randomLength = 5"

definition MaxGeneratedNameLength :: nat where
  "MaxGeneratedNameLength = maxNameLength - randomLength"

definition alphanums :: string where "alphanums = ''bcdfghjklmnpqrstvwxz2456789''"

definition alphanumsIdxBits :: nat where "alphanumsIdxBits = 5"

definition alphanumsIdxMask :: int where "alphanumsIdxMask = push_bit alphanumsIdxBits 1 - 1"

definition maxAlphanumsPerInt :: nat where "maxAlphanumsPerInt = 63 div alphanumsIdxBits"

lemmas names_consts = maxNameLength_def randomLength_def MaxGeneratedNameLength_def alphanums_def
  alphanumsIdxBits_def alphanumsIdxMask_def maxAlphanumsPerInt_def

text \<open>The loop of \<open>String\<close>: the letters so far, the current value and how many indices are left in
  it, and the source.\<close>

partial_function (option) String_loop ::
  "nat \<Rightarrow> string \<Rightarrow> int \<Rightarrow> nat \<Rightarrow> rng \<Rightarrow> (string \<times> rng) option" where
  "String_loop n b randomInt63 remaining s =
     (if length b < n then
        (let (randomInt63, remaining, s) =
               (if remaining = 0 then (shd s, maxAlphanumsPerInt, stl s)
                else (randomInt63, remaining, s));
             idx = randomInt63 AND alphanumsIdxMask;
             b' = (if nat idx < length alphanums then b @ [alphanums ! nat idx] else b)
         in String_loop n b' (drop_bit alphanumsIdxBits randomInt63) (remaining - 1) s)
      else Some (b, s))"

definition String :: "nat \<Rightarrow> rng \<Rightarrow> (string \<times> rng) option" where
  "String n s = String_loop n [] (shd s) maxAlphanumsPerInt (stl s)"

definition GenerateName :: "string \<Rightarrow> rng \<Rightarrow> (string \<times> rng) option" where
  "GenerateName base s =
     (let base = (if length base > MaxGeneratedNameLength then take MaxGeneratedNameLength base else base)
      in map_option (\<lambda>(suffix, s'). (base @ suffix, s')) (String randomLength s))"

subsection \<open>What the loop returns\<close>

lemma idx_nonneg: "0 \<le> v AND alphanumsIdxMask"
  by (simp add: names_consts)

text \<open>The reference: the letters of the first \<open>r\<close> indices of a value, five bits each from the low end,
  without the indices outside the alphabet.\<close>

definition letters :: "nat \<Rightarrow> int \<Rightarrow> string" where
  "letters r v = map ((!) alphanums) (filter (\<lambda>i. i < length alphanums)
     (map (\<lambda>j. nat (drop_bit (alphanumsIdxBits * j) v AND alphanumsIdxMask)) [0..<r]))"

text \<open>The loop takes the letters it has, those left in the current value, and those of the values it draws;
  it draws only while they are too few.\<close>

definition loop_takes :: "nat \<Rightarrow> string \<Rightarrow> int \<Rightarrow> nat \<Rightarrow> rng \<Rightarrow> string \<times> rng \<Rightarrow> bool" where
  "loop_takes n b v r s y \<longleftrightarrow> (length b \<le> n \<longrightarrow>
     (\<exists>k. snd y = sdrop k s \<and> fst y = take n (b @ letters r v @ concat (map (letters maxAlphanumsPerInt) (stake k s))) \<and>
        n \<le> length (b @ letters r v @ concat (map (letters maxAlphanumsPerInt) (stake k s))) \<and>
        (0 < k \<longrightarrow> length (b @ letters r v @ concat (map (letters maxAlphanumsPerInt) (stake (k - 1) s))) < n)))"

lemma letters_Suc:
  "letters (Suc r) v =
     (let i = nat (v AND alphanumsIdxMask) in if i < length alphanums then [alphanums ! i] else []) @
     letters r (drop_bit alphanumsIdxBits v)"
proof -
  have "[0..<Suc r] = 0 # map Suc [0..<r]" by (simp add: upt_conv_Cons map_Suc_upt del: upt_Suc)
  then show ?thesis by (simp add: letters_def Let_def comp_def ac_simps del: upt_Suc)
qed

lemma letters_0 [simp]: "letters 0 v = []"
  by (simp add: letters_def)

lemma set_letters: "set (letters r v) \<subseteq> set alphanums"
  by (auto simp: letters_def)

lemma String_loop_takes: "String_loop n b v r s = Some y \<Longrightarrow> loop_takes n b v r s y"
proof (erule String_loop.raw_induct [where P = loop_takes, rotated])
  fix g n b v r s y
  assume IH: "\<And>n b v r s y. g n b v r s = Some y \<Longrightarrow> loop_takes n b v r s y"
    and step: "(if length b < n
      then let (randomInt63, remaining, s) =
             (if r = 0 then (shd s, maxAlphanumsPerInt, stl s) else (v, r, s));
             idx = randomInt63 AND alphanumsIdxMask;
             b' = (if nat idx < length alphanums then b @ [alphanums ! nat idx] else b)
           in g n b' (drop_bit alphanumsIdxBits randomInt63) (remaining - 1) s
      else Some (b, s)) = Some y"
  show "loop_takes n b v r s y"
  proof (cases "length b < n")
    case False
    then show ?thesis using step by (auto simp: loop_takes_def intro: exI [of _ 0])
  next
    case True
    define v' where "v' = (if r = 0 then shd s else v)"
    define r' where "r' = (if r = 0 then maxAlphanumsPerInt else r)"
    define s1 where "s1 = (if r = 0 then stl s else s)"
    define i where "i = nat (v' AND alphanumsIdxMask)"
    define b' where "b' = (if i < length alphanums then b @ [alphanums ! i] else b)"
    have g: "g n b' (drop_bit alphanumsIdxBits v') (r' - 1) s1 = Some y"
      using step True by (simp add: v'_def r'_def s1_def i_def b'_def Let_def split: if_splits)
    obtain r'' where r'': "r' = Suc r''" by (cases r') (auto simp: r'_def maxAlphanumsPerInt_def alphanumsIdxBits_def split: if_splits)
    have eq: "b' @ letters (r' - 1) (drop_bit alphanumsIdxBits v') = b @ letters r' v'"
      by (simp add: r'' letters_Suc b'_def i_def Let_def)
    have "length b' \<le> n" using True by (simp add: b'_def)
    then obtain k where k: "snd y = sdrop k s1"
        "fst y = take n ((b @ letters r' v') @ concat (map (letters maxAlphanumsPerInt) (stake k s1)))"
        "n \<le> length ((b @ letters r' v') @ concat (map (letters maxAlphanumsPerInt) (stake k s1)))"
        "0 < k \<longrightarrow> length ((b @ letters r' v') @ concat (map (letters maxAlphanumsPerInt) (stake (k - 1) s1))) < n"
      using IH [OF g] unfolding loop_takes_def eq [symmetric] append_assoc by blast
    show ?thesis
    proof (cases "r = 0")
      case True
      have "length (b @ letters r v @ concat (map (letters maxAlphanumsPerInt) (stake (Suc k - 1) s))) < n"
        using k(4) \<open>length b < n\<close> True by (cases k) (simp_all add: v'_def r'_def s1_def)
      then show ?thesis
        using k(1-3) True unfolding loop_takes_def by (intro impI exI [of _ "Suc k"]) (simp add: v'_def r'_def s1_def)
    next
      case False
      then show ?thesis
        using k unfolding loop_takes_def by (intro impI exI [of _ k]) (simp add: v'_def r'_def s1_def)
    qed
  qed
qed

definition loop_result :: "nat \<Rightarrow> string \<Rightarrow> rng \<Rightarrow> string \<times> rng \<Rightarrow> bool" where
  "loop_result n b s y \<longleftrightarrow> length b \<le> n \<longrightarrow>
     (\<exists>u. fst y = b @ u \<and> length (b @ u) = n \<and> set u \<subseteq> set alphanums) \<and> (\<exists>k. snd y = sdrop k s)"

lemma String_loop_result:
  assumes "String_loop n b v r s = Some y"
  shows "loop_result n b s y"
  unfolding loop_result_def
proof
  assume "length b \<le> n"
  then obtain k where k: "snd y = sdrop k s"
      "fst y = take n (b @ letters r v @ concat (map (letters maxAlphanumsPerInt) (stake k s)))"
      "n \<le> length (b @ letters r v @ concat (map (letters maxAlphanumsPerInt) (stake k s)))"
    using String_loop_takes [OF assms] unfolding loop_takes_def by blast
  let ?u = "take (n - length b) (letters r v @ concat (map (letters maxAlphanumsPerInt) (stake k s)))"
  have "set ?u \<subseteq> set (letters r v @ concat (map (letters maxAlphanumsPerInt) (stake k s)))"
    by (rule set_take_subset)
  then have "set ?u \<subseteq> set alphanums"
    using set_letters by (auto simp: subset_iff)
  moreover have "fst y = b @ ?u" "length (b @ ?u) = n"
    using k(2,3) \<open>length b \<le> n\<close> by simp_all
  ultimately show "(\<exists>u. fst y = b @ u \<and> length (b @ u) = n \<and> set u \<subseteq> set alphanums) \<and> (\<exists>k. snd y = sdrop k s)"
    using k(1) by blast
qed

subsection \<open>The loop returns\<close>

text \<open>The index of an \<open>Int63\<close> value after \<open>j\<close> shifts is in the alphabet; a value is usable when one of
  its twelve indices is.\<close>

definition letter_at :: "int \<Rightarrow> nat \<Rightarrow> bool" where
  "letter_at v j \<longleftrightarrow> nat (drop_bit (alphanumsIdxBits * j) v AND alphanumsIdxMask) < length alphanums"

definition usable :: "int \<Rightarrow> bool" where
  "usable v \<longleftrightarrow> (\<exists>j < maxAlphanumsPerInt. letter_at v j)"

lemma String_loop_step:
  assumes "length b < n"
  shows "String_loop n b v (Suc r) s =
     String_loop n (if letter_at v 0 then b @ [alphanums ! nat (v AND alphanumsIdxMask)] else b)
       (drop_bit alphanumsIdxBits v) r s"
  using assms by (subst String_loop.simps) (simp add: letter_at_def Let_def)

lemma String_loop_refill:
  "length b < n \<Longrightarrow> String_loop n b v 0 s = String_loop n b (shd s) maxAlphanumsPerInt (stl s)"
  by (subst (1 2) String_loop.simps) (simp add: names_consts Let_def)

lemma letter_at_Suc: "letter_at v (Suc j) = letter_at (drop_bit alphanumsIdxBits v) j"
  by (simp add: letter_at_def ac_simps)

lemma String_loop_drain:
  assumes "length b < n"
    and refill: "\<And>v. \<exists>y. String_loop n b v 0 s = Some y"
    and longer: "\<And>c v r. \<exists>y. String_loop n (b @ [c]) v r s = Some y"
  shows "\<exists>y. String_loop n b v r s = Some y"
proof (induction r arbitrary: v)
  case (Suc r)
  then show ?case
    using longer by (simp add: String_loop_step [OF assms(1)])
qed (rule refill)

lemma String_loop_hit:
  assumes "length b < n"
    and longer: "\<And>c v r. \<exists>y. String_loop n (b @ [c]) v r s = Some y"
  shows "j < r \<Longrightarrow> letter_at v j \<Longrightarrow> \<exists>y. String_loop n b v r s = Some y"
proof (induction j arbitrary: v r)
  case 0
  then show ?case
    using longer by (cases r) (simp_all add: String_loop_step [OF assms(1)])
next
  case (Suc j)
  then show ?case
    using longer by (cases r) (simp_all add: String_loop_step [OF assms(1)] letter_at_Suc)
qed

lemma String_loop_returns:
  assumes "fair usable s"
  shows "\<exists>y. String_loop n b v r s = Some y"
  using assms
proof (induction "n - length b" arbitrary: b v r s)
  case 0
  then have "\<not> length b < n" by simp
  then show ?case by (subst String_loop.simps) (simp only: if_False option.inject simp_thms)
next
  case (Suc m)
  then have b: "length b < n" by simp
  have m: "m = n - length (b @ [c])" for c using Suc.hyps(2) by simp
  have longer: "\<exists>y. String_loop n (b @ [c]) v r s = Some y" if "fair usable s" for c v r s
    by (rule Suc.hyps(1) [OF m that])
  have empty: "\<exists>y. String_loop n b v 0 s = Some y" if "fair usable s" "usable (s !! j)" for v s j
    using that
  proof (induction j arbitrary: v s)
    case 0
    then obtain i where "i < maxAlphanumsPerInt" "letter_at (shd s) i"
      by (auto simp: usable_def)
    moreover have f: "fair usable (stl s)" using 0(1) by (rule fair_stl)
    ultimately show ?case
      using String_loop_hit [OF b longer [OF f], of i maxAlphanumsPerInt "shd s"]
      unfolding String_loop_refill [OF b] by simp
  next
    case (Suc j)
    have f: "fair usable (stl s)" using Suc.prems(1) by (rule fair_stl)
    have j: "usable (stl s !! j)" using Suc.prems(2) by simp
    show ?case
      unfolding String_loop_refill [OF b]
      by (rule String_loop_drain [OF b Suc.IH [OF f j] longer [OF f]])
  qed
  obtain j where j: "usable (s !! j)"
    using fair_hit [OF Suc.prems] by blast
  show ?case
    by (rule String_loop_drain [OF b empty [OF Suc.prems j] longer [OF Suc.prems]])
qed

lemma String_result:
  assumes "String n s = Some (t, s')"
  shows "length t = n" "set t \<subseteq> set alphanums" "\<exists>k. s' = sdrop k s"
proof -
  have "(\<exists>u. t = [] @ u \<and> length ([] @ u) = n \<and> set u \<subseteq> set alphanums) \<and> (\<exists>k. s' = sdrop k (stl s))"
    using String_loop_result [OF assms [unfolded String_def]] by (simp add: loop_result_def)
  then show "length t = n" "set t \<subseteq> set alphanums" "\<exists>k. s' = sdrop k s"
    by (auto intro: exI [of _ "Suc k" for k])
qed

lemma String_returns: "fair usable s \<Longrightarrow> \<exists>y. String n s = Some y"
  unfolding String_def by (intro String_loop_returns) blast

lemma GenerateName_result:
  assumes "GenerateName base s = Some (name, s')"
  shows "\<exists>u. name = take MaxGeneratedNameLength base @ u \<and> length u = randomLength \<and> set u \<subseteq> set alphanums"
    "\<exists>k. s' = sdrop k s"
  using assms String_result [of randomLength s] by (auto simp: GenerateName_def Let_def split: if_splits)

lemma GenerateName_returns: "fair usable s \<Longrightarrow> \<exists>name s'. GenerateName base s = Some (name, s')"
  using String_returns [of s randomLength] by (auto simp: GenerateName_def Let_def)

text \<open>Such sources exist.\<close>

lemma usable_zero: "fair usable (sconst 0)"
proof -
  have "usable 0" unfolding usable_def letter_at_def by (intro exI [of _ 0]) (simp add: names_consts)
  then show ?thesis by (auto simp: fair_def)
qed

end
