(* ===== verification/Node_Registry.thy ===== *)
theory Node_Registry
  imports Registry
begin

text \<open>
  \<open>pkg/registry/node_registry.go\<close>. The key of a node is \<open>path.Join\<close> of the prefix and the name,
  so a name that is not one plain path element is stored elsewhere.
\<close>

fun as_Node :: "Object \<Rightarrow> Node" where
  "as_Node (NodeObj n) = n"
| "as_Node _ = zero_Node"

definition CreateNode :: "validator \<Rightarrow> 'w Storage \<Rightarrow> Node \<Rightarrow> 'w \<Rightarrow> error option \<times> 'w" where
  "CreateNode V S node w =
     (let key = generateKey nodePrefix (Node_Name node)
      in case st_Get S key (NodeObj zero_Node) w of
           (Inr _, w1) \<Rightarrow> (Some (wrap_text ErrNodeAlreadyExists (Node_Name node)), w1)
         | (Inl _, w1) \<Rightarrow>
             (case Node_Validate V node of
                Some err \<Rightarrow> (Some (wrap_cause ErrNodeInvalid '''' err), w1)
              | None \<Rightarrow> st_Create S key (NodeObj node) w1))"

definition GetNode :: "'w Storage \<Rightarrow> string \<Rightarrow> 'w \<Rightarrow> (error + Node) \<times> 'w" where
  "GetNode S name w =
     (case st_Get S (generateKey nodePrefix name) (NodeObj zero_Node) w of
        (Inl err, w1) \<Rightarrow>
          (if errors_Is err ErrNotFound then (Inl (wrap_text ErrNodeNotFound name), w1)
           else (Inl (wrap_cause ErrInternal ''failed to get node'' err), w1))
      | (Inr obj, w1) \<Rightarrow> (Inr (as_Node obj), w1))"

definition UpdateNode :: "validator \<Rightarrow> 'w Storage \<Rightarrow> Node \<Rightarrow> 'w \<Rightarrow> error option \<times> 'w" where
  "UpdateNode V S node w =
     (case Node_Validate V node of
        Some err \<Rightarrow> (Some (wrap_cause ErrNodeInvalid '''' err), w)
      | None \<Rightarrow> st_Update S (generateKey nodePrefix (Node_Name node)) (NodeObj node) w)"

definition DeleteNode :: "'w Storage \<Rightarrow> string \<Rightarrow> 'w \<Rightarrow> error option \<times> 'w" where
  "DeleteNode S name w = st_Delete S (generateKey nodePrefix name) w"

definition ListNodes :: "'w Storage \<Rightarrow> 'w \<Rightarrow> (error + Node list) \<times> 'w" where
  "ListNodes S w =
     (case st_List S nodePrefix (PtrToSlice (NodeObj zero_Node) []) w of
        (Inl err, w1) \<Rightarrow> (Inl (wrap_cause ErrListNodesFailed '''' err), w1)
      | (Inr objs, w1) \<Rightarrow> (Inr (map as_Node objs), w1))"

definition lists_nodes :: "bytes contents \<Rightarrow> Node list \<Rightarrow> bool" where
  "lists_nodes m ns \<longleftrightarrow> sorted_wrt (<) (map Node_Name ns) \<and> (\<forall>n. n \<in> set ns \<longleftrightarrow> nodes m (Node_Name n) = Some n)"

lemma nodes_kept:
  assumes "kept (NodeObj zero_Node) m"
  shows "m (nodePrefix @ n) = None \<longleftrightarrow> nodes m n = None"
    and "nodes m n = Some q \<Longrightarrow> Node_Name q = n \<and> storable (NodeObj q) \<and> plain_element n"
proof -
  have pre: "prefix (kind_prefix (NodeObj zero_Node)) (nodePrefix @ x)" for x
    by simp
  show "m (nodePrefix @ n) = None \<longleftrightarrow> nodes m n = None"
    using kept_lookup [OF assms pre, of n] by (auto simp: lookup_nodes)
  show "Node_Name q = n \<and> storable (NodeObj q) \<and> plain_element n" if "nodes m n = Some q"
    using kept_lookup [OF assms pre, of n] that by (auto simp: lookup_nodes generateKey_plain)
qed

lemma lists_nodes_listing:
  assumes "kept (NodeObj zero_Node) m" "listing (NodeObj zero_Node) m objs"
  shows "lists_nodes m (map as_Node objs)"
proof -
  have o: "\<exists>n. obj = NodeObj n \<and> object_key obj = nodePrefix @ Node_Name n" if "obj \<in> set objs" for obj
  proof -
    have l: "lookup (NodeObj zero_Node) m (object_key obj) = Some obj"
        "prefix (kind_prefix (NodeObj zero_Node)) (object_key obj)"
      using that assms(2) by (simp_all add: listing_def)
    then have "well_named obj"
      using kept_lookup [OF assms(1) l(2)] by auto
    then show ?thesis
      using lookup_NodeObj [OF l(1)] by (auto simp: generateKey_plain)
  qed
  have k: "object_key obj = nodePrefix @ Node_Name (as_Node obj)" if "obj \<in> set objs" for obj
    using o [OF that] by auto
  have "sorted_wrt (\<lambda>x y. object_key x < object_key y) objs"
    using assms(2) by (simp add: listing_def sorted_wrt_map)
  then have "sorted_wrt (\<lambda>x y. Node_Name (as_Node x) < Node_Name (as_Node y)) objs"
    by (rule sorted_wrt_mono_rel [rotated]) (simp add: k)
  then have "sorted_wrt (<) (map Node_Name (map as_Node objs))"
    by (simp add: sorted_wrt_map)
  moreover have "n \<in> set (map as_Node objs) \<longleftrightarrow> nodes m (Node_Name n) = Some n" for n
  proof
    assume "n \<in> set (map as_Node objs)"
    then have n: "NodeObj n \<in> set objs" using o by force
    then show "nodes m (Node_Name n) = Some n"
      using o [OF n] assms(2) lookup_nodes [of m "Node_Name n"] by (auto simp: listing_def)
  next
    assume n: "nodes m (Node_Name n) = Some n"
    then have k: "object_key (NodeObj n) = nodePrefix @ Node_Name n"
      using nodes_kept(2) [OF assms(1) n] by (simp add: generateKey_plain)
    have "lookup (NodeObj zero_Node) m (object_key (NodeObj n)) = Some (NodeObj n) \<and>
        prefix (kind_prefix (NodeObj zero_Node)) (object_key (NodeObj n))"
      unfolding k using n by (simp add: lookup_nodes)
    then have "NodeObj n \<in> set objs"
      using assms(2) unfolding listing_def by blast
    then show "n \<in> set (map as_Node objs)" by force
  qed
  ultimately show ?thesis by (simp add: lists_nodes_def)
qed

context registry
begin

lemma CreateNode_ok:
  assumes "CreateNode V S node w = (None, w')"
  shows "struct_tags (NodeObj node)"
    "stored (object_key (NodeObj node)) (NodeObj node) (contents w) (contents w')"
proof -
  obtain e w1 where g: "st_Get S (object_key (NodeObj node)) (NodeObj zero_Node) w = (Inl e, w1)"
    using assms by (auto simp: CreateNode_def Let_def split: prod.splits sum.splits)
  have v: "Node_Validate V node = None"
    and c: "st_Create S (object_key (NodeObj node)) (NodeObj node) w1 = (None, w')"
    using assms g by (auto simp: CreateNode_def Let_def split: option.splits)
  show "struct_tags (NodeObj node)"
    using v Node_Validate_None by blast
  show "stored (object_key (NodeObj node)) (NodeObj node) (contents w) (contents w')"
    using create_ok [OF c] get_frame [OF g] by simp
qed

lemma CreateNode_err:
  assumes "CreateNode V S node w = (Some e, w')"
  shows "contents w' = contents w \<or> errors_Is e ErrEtcdClient \<and>
    stored (object_key (NodeObj node)) (NodeObj node) (contents w) (contents w')"
proof (cases "st_Get S (object_key (NodeObj node)) (NodeObj zero_Node) w")
  case (Pair r w1)
  then show ?thesis
    using assms get_frame [OF Pair] create_err [of "object_key (NodeObj node)" _ w1 e w']
    by (auto simp: CreateNode_def Let_def split: sum.splits option.splits)
qed

lemma CreateNode_up:
  assumes "up w" "plain_element (Node_Name node)" "storable (NodeObj node)" "struct_tags (NodeObj node)"
    "kept (NodeObj zero_Node) (contents w)"
  shows "\<exists>w'. CreateNode V S node w =
    ((if nodes (contents w) (Node_Name node) = None then None
      else Some (wrap_text ErrNodeAlreadyExists (Node_Name node))), w') \<and> up w'"
proof -
  let ?k = "object_key (NodeObj node)"
  obtain w1 where w1: "st_Get S ?k (NodeObj zero_Node) w = (spec_Get (contents w) ?k (NodeObj zero_Node), w1)" "up w1"
    using get_up [OF assms(1) object_key_nonempty] by blast
  have k: "?k = nodePrefix @ Node_Name node" using assms(2) by (simp add: generateKey_plain)
  have g: "spec_Get (contents w) ?k (NodeObj zero_Node) = Inr obj \<longleftrightarrow>
      map_option NodeObj (nodes (contents w) (Node_Name node)) = Some obj" for obj
    using spec_Get_lookup [of "contents w" ?k "NodeObj zero_Node"] unfolding k lookup_nodes by simp
  obtain d where "Encode (NodeObj node) = Inr d"
    using Encode_storable [OF assms(3)] by blast
  then obtain w2 where w2: "st_Create S ?k (NodeObj node) w1 = (None, w2)" "up w2"
    using create_up [OF w1(2) object_key_nonempty] by blast
  show ?thesis
  proof (cases "spec_Get (contents w) ?k (NodeObj zero_Node)")
    case (Inl e)
    then have "nodes (contents w) (Node_Name node) = None"
      using g by (cases "nodes (contents w) (Node_Name node)") auto
    then show ?thesis
      using w1 w2 Inl Node_Validate_None [of node] assms(4) by (simp add: CreateNode_def)
  next
    case (Inr obj)
    then show ?thesis
      using w1 g [of obj] by (auto simp: CreateNode_def)
  qed
qed

lemma GetNode_ok:
  assumes "GetNode S n w = (Inr x, w')" "plain_element n"
  shows "nodes (contents w) n = Some x"
proof -
  obtain obj where g: "st_Get S (nodePrefix @ n) (NodeObj zero_Node) w = (Inr obj, w')" and x: "x = as_Node obj"
    using assms by (auto simp: GetNode_def generateKey_plain split: prod.splits sum.splits if_splits)
  have "lookup (NodeObj zero_Node) (contents w) (nodePrefix @ n) = Some obj"
    using get_result [OF g] spec_Get_lookup [of "contents w" _ "NodeObj zero_Node" obj] by (auto simp: eq_commute)
  with x show ?thesis by (auto simp: lookup_nodes)
qed

lemma UpdateNode_ok:
  assumes "UpdateNode V S node w = (None, w')"
  shows "struct_tags (NodeObj node)" "stored (object_key (NodeObj node)) (NodeObj node) (contents w) (contents w')"
  using assms Node_Validate_None [of node] by (auto simp: UpdateNode_def split: option.splits dest: update_ok)

lemma UpdateNode_err:
  "UpdateNode V S node w = (Some e, w') \<Longrightarrow> contents w' = contents w \<or>
     errors_Is e ErrEtcdClient \<and> stored (object_key (NodeObj node)) (NodeObj node) (contents w) (contents w')"
  by (auto simp: UpdateNode_def split: option.splits dest: update_err)

lemma DeleteNode_ok: "DeleteNode S n w = (None, w') \<Longrightarrow> contents w' = (contents w)(generateKey nodePrefix n := None)"
  by (simp add: DeleteNode_def delete_ok)

lemma DeleteNode_err:
  "DeleteNode S n w = (Some e, w') \<Longrightarrow> errors_Is e ErrEtcdClient \<and>
     (contents w' = contents w \<or> contents w' = (contents w)(generateKey nodePrefix n := None))"
  by (simp add: DeleteNode_def delete_err)

lemma ListNodes_frame: "ListNodes S w = (r, w') \<Longrightarrow> contents w' = contents w"
  by (auto simp: ListNodes_def split: prod.splits sum.splits dest: list_frame)

lemma ListNodes_ok:
  assumes "ListNodes S w = (Inr ns, w')" "kept (NodeObj zero_Node) (contents w)"
  shows "lists_nodes (contents w) ns"
proof -
  obtain objs where "st_List S nodePrefix (PtrToSlice (NodeObj zero_Node) []) w = (Inr objs, w')" "ns = map as_Node objs"
    using assms(1) by (auto simp: ListNodes_def split: prod.splits sum.splits)
  then show ?thesis
    using list_listing [of "NodeObj zero_Node" w "Inr objs" w'] assms(2) lists_nodes_listing by simp
qed

lemma ListNodes_up:
  assumes "up w" "kept (NodeObj zero_Node) (contents w)"
  shows "\<exists>ns w'. ListNodes S w = (Inr ns, w') \<and> lists_nodes (contents w) ns \<and> up w' \<and> contents w' = contents w"
  using assms by (rule_tac list_listing_up [OF assms]) (auto simp: ListNodes_def intro: lists_nodes_listing)

end

end
