(* ===== verification/Scheduler.thy ===== *)
theory Scheduler
  imports Pod_Registry Node_Registry Gorand
begin

text \<open>
  \<open>pkg/scheduler/scheduler.go\<close>. One pass lists the pending pods and the nodes and writes each pod
  back with a node and the status \<open>Scheduled\<close>; the first failure ends the pass. \<open>Start\<close> is a loop
  over a select: the model takes the outcomes of the select as a list.
\<close>

definition assign :: "Pod \<Rightarrow> Node \<Rightarrow> Pod" where
  "assign pod node = pod\<lparr>Pod_NodeName := Node_Name node, Pod_Status := PodScheduled\<rparr>"

fun schedule_loop ::
  "validator \<Rightarrow> 'w Storage \<Rightarrow> Node list \<Rightarrow> Pod list \<Rightarrow> rng \<Rightarrow> 'w \<Rightarrow> ((error option \<times> rng) \<times> 'w) option" where
  "schedule_loop V S ns [] s w = Some ((None, s), w)"
| "schedule_loop V S ns (pod # ps) s w =
     (case Intn (int (length ns)) s of
        None \<Rightarrow> None
      | Some (v, s1) \<Rightarrow>
          (case UpdatePod V S (assign pod (ns ! nat v)) w of
             (Some err, w1) \<Rightarrow> Some ((Some (Errorf None (''failed to update pod '' @ Pod_Name pod) (Some err)), s1), w1)
           | (None, w1) \<Rightarrow> schedule_loop V S ns ps s1 w1))"

definition schedulePendingPods ::
  "validator \<Rightarrow> 'w Storage \<Rightarrow> rng \<Rightarrow> 'w \<Rightarrow> ((error option \<times> rng) \<times> 'w) option" where
  "schedulePendingPods V S s w =
     (case ListPendingPods S w of
        (Inl err, w1) \<Rightarrow> Some ((Some (Errorf None ''failed to list pending pods'' (Some err)), s), w1)
      | (Inr ps, w1) \<Rightarrow>
          (case ListNodes S w1 of
             (Inl err, w2) \<Rightarrow> Some ((Some (Errorf None ''failed to list nodes'' (Some err)), s), w2)
           | (Inr ns, w2) \<Rightarrow>
               (if length ns = 0 then Some ((Some (Errorf None ''no nodes available for scheduling'' None), s), w2)
                else schedule_loop V S ns ps s w2)))"

datatype loop_event = Done | Tick

fun Scheduler_Start :: "validator \<Rightarrow> 'w Storage \<Rightarrow> loop_event list \<Rightarrow> rng \<Rightarrow> 'w \<Rightarrow> (rng \<times> 'w) option" where
  "Scheduler_Start V S [] s w = Some (s, w)"
| "Scheduler_Start V S (Done # _) s w = Some (s, w)"
| "Scheduler_Start V S (Tick # evs) s w =
     (case schedulePendingPods V S s w of
        None \<Rightarrow> None
      | Some ((_, s1), w1) \<Rightarrow> Scheduler_Start V S evs s1 w1)"

text \<open>What a pass may have done to the pods: each is as it was, or it was pending and is assigned.\<close>

definition rescheduled :: "bytes contents \<Rightarrow> bytes contents \<Rightarrow> bool" where
  "rescheduled m m' \<longleftrightarrow> nodes m' = nodes m \<and> replicasets m' = replicasets m \<and>
     (\<forall>n. pods m' n = pods m n \<or>
        (\<exists>p x node. pods m n = Some p \<and> Pod_Status p = PodPending \<and> nodes m x = Some node \<and>
          pods m' n = Some (assign p node)))"

definition valid_pods :: "bytes contents \<Rightarrow> bool" where
  "valid_pods m \<longleftrightarrow> (\<forall>n p. pods m n = Some p \<longrightarrow> struct_tags (PodObj p))"

text \<open>The effect of the loop on the pods: those of the list are assigned to a node, or left when it failed.\<close>

definition assigns ::
  "Node list \<Rightarrow> error option \<Rightarrow> Pod list \<Rightarrow> (string \<Rightarrow> Pod option) \<Rightarrow> (string \<Rightarrow> Pod option) \<Rightarrow> bool" where
  "assigns ns r ps m m' \<longleftrightarrow>
     (\<forall>n. n \<notin> Pod_Name ` set ps \<longrightarrow> m' n = m n) \<and>
     (\<forall>p\<in>set ps. (\<exists>x\<in>set ns. m' (Pod_Name p) = Some (assign p x)) \<or> r \<noteq> None \<and> m' (Pod_Name p) = m (Pod_Name p))"

lemma assigns_stop:
  assumes "r \<noteq> None" "m' = m(Pod_Name p \<mapsto> assign p x) \<or> m' = m" "x \<in> set ns" "distinct (map Pod_Name (p # ps))"
  shows "assigns ns r (p # ps) m m'"
proof -
  have "Pod_Name q \<noteq> Pod_Name p" if "q \<in> set ps" for q
    using imageI [OF that, of "\<lambda>q. Pod_Name q"] assms(4) by auto
  then show ?thesis
    using assms unfolding assigns_def by auto
qed

lemma assigns_step:
  assumes "assigns ns r ps (m(Pod_Name p \<mapsto> assign p x)) m'" "x \<in> set ns" "distinct (map Pod_Name (p # ps))"
  shows "assigns ns r (p # ps) m m'"
proof -
  have "Pod_Name q \<noteq> Pod_Name p" if "q \<in> set ps" for q
    using imageI [OF that, of "\<lambda>q. Pod_Name q"] assms(3) by auto
  moreover have "m' (Pod_Name p) = Some (assign p x)"
    using assms(1,3) unfolding assigns_def by auto
  ultimately show ?thesis
    using assms(1,2) unfolding assigns_def by auto
qed

lemma assign_simps [simp]:
  "Pod_ObjectMeta (assign p x) = Pod_ObjectMeta p" "Pod_Spec (assign p x) = Pod_Spec p"
  "Pod_NodeName (assign p x) = Node_Name x" "Pod_Status (assign p x) = PodScheduled"
  by (simp_all add: assign_def)

lemma storable_assign: "storable (PodObj p) \<Longrightarrow> storable (NodeObj x) \<Longrightarrow> storable (PodObj (assign p x))"
  by (simp add: valid_status meta_ok_def)

lemma status_neq: "PodScheduled \<noteq> PodPending"
  by (simp add: status_defs)

lemma lists_nodes_length:
  assumes "store_inv m" "lists_nodes m ns"
  shows "card (dom (nodes m)) = length ns"
proof -
  have mem: "x \<in> set ns \<longleftrightarrow> nodes m (Node_Name x) = Some x" for x
    using assms(2) by (simp add: lists_nodes_def)
  have "dom (nodes m) \<subseteq> set (map Node_Name ns)"
  proof
    fix n assume "n \<in> dom (nodes m)"
    then obtain x where x: "nodes m n = Some x" by blast
    then have "Node_Name x = n" using nodes_kept(2) [of m n x] assms(1) by simp
    then show "n \<in> set (map Node_Name ns)" using x mem [of x] by (simp add: rev_image_eqI)
  qed
  moreover have "set (map Node_Name ns) \<subseteq> dom (nodes m)"
    using mem by auto
  ultimately have "dom (nodes m) = set (map Node_Name ns)" by simp
  moreover have "distinct (map Node_Name ns)"
    using assms(2) by (simp add: lists_nodes_def strict_sorted_iff)
  ultimately show ?thesis by (simp only: distinct_card length_map)
qed

context registry
begin

text \<open>One write of the pass: it leaves the store as it was or puts the assigned pod in place.\<close>

lemma schedule_write:
  assumes "UpdatePod V S (assign p x) w = (r, w')" "store_inv (contents w)"
    "storable (PodObj p)" "storable (NodeObj x)"
  shows "store_inv (contents w')" "nodes (contents w') = nodes (contents w)"
    "replicasets (contents w') = replicasets (contents w)"
    "pods (contents w') = (pods (contents w))(Pod_Name p \<mapsto> assign p x) \<or>
       r \<noteq> None \<and> pods (contents w') = pods (contents w)"
proof -
  let ?o = "PodObj (assign p x)"
  have s: "storable ?o" using assms(3,4) by (rule storable_assign)
  have c: "stored (object_key ?o) ?o (contents w) (contents w') \<or> r \<noteq> None \<and> contents w' = contents w"
    using UpdatePod_ok(2) [of "assign p x" w w'] UpdatePod_err [of "assign p x" w _ w'] assms(1) by (cases r) auto
  note stored = views_stored_Pod [OF _ s]
  show "store_inv (contents w')"
    using c store_inv_stored [OF assms(2) _ s] assms(2) by auto
  show "nodes (contents w') = nodes (contents w)" "replicasets (contents w') = replicasets (contents w)"
    using c stored(2,3) by auto
  show "pods (contents w') = (pods (contents w))(Pod_Name p \<mapsto> assign p x) \<or>
       r \<noteq> None \<and> pods (contents w') = pods (contents w)"
    using c stored(1) by auto
qed

lemma schedule_loop_result:
  assumes "schedule_loop V S ns ps s w = Some ((r, s'), w')" "store_inv (contents w)" "ns \<noteq> []"
    "distinct (map Pod_Name ps)" "\<forall>p\<in>set ps. storable (PodObj p)" "\<forall>x\<in>set ns. storable (NodeObj x)"
  shows "store_inv (contents w') \<and> nodes (contents w') = nodes (contents w) \<and>
    replicasets (contents w') = replicasets (contents w) \<and> assigns ns r ps (pods (contents w)) (pods (contents w'))"
  using assms(1,2,4,5)
proof (induction ps arbitrary: s w)
  case (Cons p ps)
  obtain v s1 where v: "Intn (int (length ns)) s = Some (v, s1)"
    using Cons.prems(1) by (auto split: option.splits)
  have "nat v < length ns"
    using Intn_result(1,2) [OF v] assms(3) by simp
  then have x: "ns ! nat v \<in> set ns"
    by (rule nth_mem)
  obtain e w1 where u: "UpdatePod V S (assign p (ns ! nat v)) w = (e, w1)"
    by (cases "UpdatePod V S (assign p (ns ! nat v)) w")
  have sp: "storable (PodObj p)" "storable (NodeObj (ns ! nat v))"
    using Cons.prems(4) assms(6) x by auto
  note step = schedule_write [OF u Cons.prems(2) sp]
  show ?case
  proof (cases e)
    case (Some err)
    then have "r \<noteq> None" "w' = w1"
      using Cons.prems(1) v u by auto
    then show ?thesis
      using step assigns_stop [OF \<open>r \<noteq> None\<close> _ x] Cons.prems(3) by auto
  next
    case None
    then have "schedule_loop V S ns ps s1 w1 = Some ((r, s'), w')"
      using Cons.prems(1) v u by auto
    then have "store_inv (contents w') \<and> nodes (contents w') = nodes (contents w1) \<and>
      replicasets (contents w') = replicasets (contents w1) \<and> assigns ns r ps (pods (contents w1)) (pods (contents w'))"
      using Cons.prems(3,4) step(1) by (intro Cons.IH) simp_all
    moreover have "pods (contents w1) = (pods (contents w))(Pod_Name p \<mapsto> assign p (ns ! nat v))"
      using step(4) None by simp
    ultimately show ?thesis
      using step(2,3) assigns_step [OF _ x Cons.prems(3)] by simp
  qed
qed (simp add: assigns_def)

lemma schedulePendingPods_cases:
  assumes "schedulePendingPods V S s w = Some ((r, s'), w')" "store_inv (contents w)"
  obtains (unchanged) "r \<noteq> None" "contents w' = contents w"
  | (assigned) ps ns w2 where "schedule_loop V S ns ps s w2 = Some ((r, s'), w')" "contents w2 = contents w"
      "ns \<noteq> []" "lists_nodes (contents w) ns" "sorted_wrt (<) (map Pod_Name ps)"
      "\<And>p. p \<in> set ps \<longleftrightarrow> pods (contents w) (Pod_Name p) = Some p \<and> Pod_Status p = PodPending"
proof -
  obtain pr w1 where p: "ListPendingPods S w = (pr, w1)" by (cases "ListPendingPods S w")
  obtain nr w2 where n: "ListNodes S w1 = (nr, w2)" by (cases "ListNodes S w1")
  note f = ListPendingPods_frame [OF p] ListNodes_frame [OF n]
  show thesis
  proof (cases "\<exists>ps ns. pr = Inr ps \<and> nr = Inr ns \<and> ns \<noteq> []")
    case True
    then obtain ps ns where pn: "pr = Inr ps" "nr = Inr ns" "ns \<noteq> []" by blast
    have "lists_nodes (contents w) ns"
      using ListNodes_ok [of w1 ns w2] n pn f(1) assms(2) by simp
    then show thesis
      using assms p n pn f ListPendingPods_ok [of w ps w1]
      by (intro assigned [of ns ps w2]) (simp_all add: schedulePendingPods_def)
  next
    case False
    then show thesis
      using assms(1) p n f
      by (intro unchanged) (auto simp: schedulePendingPods_def split: sum.splits if_splits)
  qed
qed

lemma lists_nodes_storable:
  "store_inv m \<Longrightarrow> lists_nodes m ns \<Longrightarrow> \<forall>x\<in>set ns. storable (NodeObj x) \<and> nodes m (Node_Name x) = Some x"
  using nodes_kept(2) [of m] unfolding lists_nodes_def by (metis store_inv_kept)

lemma pending_storable:
  assumes "store_inv m" "\<And>p. p \<in> set ps \<longleftrightarrow> pods m (Pod_Name p) = Some p \<and> Pod_Status p = PodPending"
  shows "\<forall>p\<in>set ps. storable (PodObj p)"
  using assms pods_kept(2) [of m] by (metis store_inv_kept)

lemma sorted_names_distinct: "sorted_wrt (<) (map f ps) \<Longrightarrow> distinct (map f (ps :: 'a list) :: string list)"
  by (simp add: strict_sorted_iff)

lemma schedulePendingPods_result:
  assumes "schedulePendingPods V S s w = Some ((r, s'), w')" "store_inv (contents w)"
  shows "store_inv (contents w') \<and> rescheduled (contents w) (contents w') \<and>
    (r = None \<longrightarrow> (\<forall>n p. pods (contents w') n = Some p \<longrightarrow> Pod_Status p \<noteq> PodPending))"
  using assms
proof (cases rule: schedulePendingPods_cases)
  case unchanged
  then show ?thesis using assms(2) by (auto simp: rescheduled_def)
next
  case (assigned ps ns w2)
  note loop = schedule_loop_result [OF assigned(1), unfolded assigned(2), OF assms(2) assigned(3)
    sorted_names_distinct [OF assigned(5)] pending_storable [OF assms(2) assigned(6)]]
  have ns: "\<forall>x\<in>set ns. storable (NodeObj x) \<and> nodes (contents w) (Node_Name x) = Some x"
    using lists_nodes_storable [OF assms(2) assigned(4)] .
  then have l: "store_inv (contents w')" "nodes (contents w') = nodes (contents w)"
    "replicasets (contents w') = replicasets (contents w)"
    "\<And>n. n \<notin> Pod_Name ` set ps \<Longrightarrow> pods (contents w') n = pods (contents w) n"
    "\<And>p. p \<in> set ps \<Longrightarrow> (\<exists>x\<in>set ns. pods (contents w') (Pod_Name p) = Some (assign p x)) \<or>
       r \<noteq> None \<and> pods (contents w') (Pod_Name p) = pods (contents w) (Pod_Name p)"
    using loop by (auto simp: assigns_def)
  have "pods (contents w') n = pods (contents w) n \<or>
      (\<exists>p x node. pods (contents w) n = Some p \<and> Pod_Status p = PodPending \<and> nodes (contents w) x = Some node \<and>
        pods (contents w') n = Some (assign p node))" for n
  proof (cases "n \<in> Pod_Name ` set ps")
    case True
    then obtain p where "p \<in> set ps" "n = Pod_Name p" by blast
    then show ?thesis using l(5) [of p] assigned(6) [of p] ns by blast
  qed (use l(4) in blast)
  moreover have "Pod_Status q \<noteq> PodPending" if rn: "r = None" and q: "pods (contents w') n = Some q" for n q
  proof (cases "n \<in> Pod_Name ` set ps")
    case True
    then obtain p x where "pods (contents w') n = Some (assign p x)"
      using l(5) rn by blast
    then show ?thesis
      using q by (auto simp: status_defs)
  next
    case False
    then have "pods (contents w) n = Some q" using l(4) q by simp
    moreover have "Pod_Name q = n"
      using pods_kept(2) [of "contents w'" n q] l(1) q by simp
    ultimately show ?thesis using assigned(6) [of q] False by auto
  qed
  ultimately show ?thesis using l(1,2,3) by (simp add: rescheduled_def)
qed

text \<open>While etcd is up and the source does not reject forever, a pass over valid pods succeeds.\<close>

lemma schedule_loop_returns:
  assumes "up w" "proper_source s" "ns \<noteq> []" "\<forall>p\<in>set ps. storable (PodObj p) \<and> struct_tags (PodObj p)"
    "\<forall>x\<in>set ns. storable (NodeObj x)" "length ns < 2 ^ 63"
  shows "\<exists>s' w'. schedule_loop V S ns ps s w = Some ((None, s'), w') \<and> up w' \<and> proper_source s'"
  using assms(1,2,4)
proof (induction ps arbitrary: s w)
  case (Cons p ps)
  obtain v i where v: "Intn (int (length ns)) s = Some (v, sdrop (Suc i) s)" "0 \<le> v" "v < int (length ns)"
    using Intn_returns [OF Cons.prems(2), of "int (length ns)"] assms(3,6) by auto
  then have x: "ns ! nat v \<in> set ns" by simp
  have "storable (PodObj (assign p (ns ! nat v)))" "struct_tags (PodObj (assign p (ns ! nat v)))"
    using Cons.prems(3) assms(5) x storable_assign [of p "ns ! nat v"] by auto
  then obtain w1 where w1: "UpdatePod V S (assign p (ns ! nat v)) w = (None, w1)" "up w1"
    using UpdatePod_up [OF Cons.prems(1)] by blast
  have "proper_source (sdrop (Suc i) s)" using Cons.prems(2) by (rule proper_source_sdrop)
  then show ?case
    using Cons.IH [OF w1(2), of "sdrop (Suc i) s"] Cons.prems(3) v(1) w1(1) by simp
qed simp

lemma schedulePendingPods_returns:
  assumes "up w" "proper_source s" "store_inv (contents w)" "valid_pods (contents w)"
    "nodes (contents w) x = Some node" "card (dom (nodes (contents w))) < 2 ^ 63"
  shows "\<exists>s' w'. schedulePendingPods V S s w = Some ((None, s'), w') \<and> up w' \<and> proper_source s'"
proof -
  obtain ps w1 where p: "ListPendingPods S w = (Inr ps, w1)" "up w1"
    using ListPendingPods_up assms(1,3) by (metis store_inv_kept)
  have f: "contents w1 = contents w" using ListPendingPods_frame [OF p(1)] .
  obtain ns w2 where n: "ListNodes S w1 = (Inr ns, w2)" "up w2" "lists_nodes (contents w) ns"
    using ListNodes_up [OF p(2)] f assms(3) by auto
  have mem: "q \<in> set ps \<longleftrightarrow> pods (contents w) (Pod_Name q) = Some q \<and> Pod_Status q = PodPending" for q
    using ListPendingPods_ok(2) [OF p(1)] assms(3) by simp
  have "\<forall>q\<in>set ps. storable (PodObj q) \<and> struct_tags (PodObj q)"
    using pending_storable [OF assms(3) mem] assms(4) mem unfolding valid_pods_def by blast
  moreover have "node \<in> set ns"
    using n(3) nodes_kept(2) [of "contents w" x node] assms(3,5) by (simp add: lists_nodes_def)
  moreover have "\<forall>x\<in>set ns. storable (NodeObj x)"
    using lists_nodes_storable [OF assms(3) n(3)] by blast
  ultimately obtain s' w' where "schedule_loop V S ns ps s w2 = Some ((None, s'), w')" "up w'" "proper_source s'"
    using schedule_loop_returns [OF n(2) assms(2), of ns ps] assms(6) lists_nodes_length [OF assms(3) n(3)]
    by (cases ns) auto
  then show ?thesis
    using p(1) n(1) \<open>node \<in> set ns\<close> by (cases ns) (auto simp: schedulePendingPods_def)
qed

lemma rescheduled_refl: "rescheduled m m"
  by (simp add: rescheduled_def)

lemma rescheduled_trans:
  assumes "rescheduled m1 m2" "rescheduled m2 m3"
  shows "rescheduled m1 m3"
  using assms unfolding rescheduled_def
  by (metis assign_simps(4) option.inject status_neq)

text \<open>However often the scheduler ticks.\<close>

lemma Scheduler_Start_result:
  "Scheduler_Start V S evs s w = Some (s', w') \<Longrightarrow> store_inv (contents w) \<Longrightarrow>
     store_inv (contents w') \<and> rescheduled (contents w) (contents w')"
proof (induction evs arbitrary: s w)
  case (Cons ev evs)
  show ?case
  proof (cases ev)
    case Done
    then show ?thesis using Cons.prems by (simp add: rescheduled_refl)
  next
    case Tick
    then obtain r s1 w1 where 1: "schedulePendingPods V S s w = Some ((r, s1), w1)"
      and 2: "Scheduler_Start V S evs s1 w1 = Some (s', w')"
      using Cons.prems(1) by (auto split: option.splits)
    then show ?thesis
      using schedulePendingPods_result [OF 1 Cons.prems(2)] Cons.IH [OF 2] rescheduled_trans by blast
  qed
qed (simp add: rescheduled_refl)

end

end
