(* ===== verification/Controller.thy ===== *)
theory Controller
  imports Pod_Registry ReplicaSet_Registry Names Scheduler
begin

text \<open>
  \<open>pkg/controller/replica_set_controller.go\<close>. Reconciling a replica set counts the active pods whose
  name starts with the set's name and creates the missing ones, one pod for each container of the
  template; pods in excess stay. \<open>Run\<close> calls \<open>log.Fatalf\<close> on any error, which ends the process.
\<close>

definition generatePodNameFromReplicaSet :: "string \<Rightarrow> rng \<Rightarrow> (string \<times> rng) option" where
  "generatePodNameFromReplicaSet replicaSetName s = GenerateName replicaSetName s"

definition getPodsForReplicaSet ::
  "ReplicaSet \<Rightarrow> Pod list \<Rightarrow> (Pod \<Rightarrow> ObjectMeta \<Rightarrow> bool) \<Rightarrow> error + Pod list" where
  "getPodsForReplicaSet rs allPods condition = Inr (filter (\<lambda>pod. condition pod (RS_ObjectMeta rs)) allPods)"

definition getPodsOwnedBy :: "ReplicaSet \<Rightarrow> Pod list \<Rightarrow> error + Pod list" where
  "getPodsOwnedBy rs ps = getPodsForReplicaSet rs ps IsOwnedBy"

text \<open>The pod literal of the inner loop.\<close>

definition replica_pod :: "string \<Rightarrow> Container \<Rightarrow> Pod" where
  "replica_pod name c =
     zero_Pod\<lparr>Pod_ObjectMeta := zero_ObjectMeta\<lparr>Meta_Name := name\<rparr>,
       Pod_Spec := zero_PodSpec\<lparr>PodSpec_Containers := Some [c]\<rparr>\<rparr>"

fun create_containers ::
  "validator \<Rightarrow> 'w Storage \<Rightarrow> string \<Rightarrow> Container list \<Rightarrow> rng \<Rightarrow> 'w \<Rightarrow> ((error option \<times> rng) \<times> 'w) option" where
  "create_containers V S rsName [] s w = Some ((None, s), w)"
| "create_containers V S rsName (c # cs) s w =
     (case generatePodNameFromReplicaSet rsName s of
        None \<Rightarrow> None
      | Some (name, s1) \<Rightarrow>
          (case CreatePod V S (replica_pod name c) w of
             ((Some err, _), w1) \<Rightarrow> Some ((Some err, s1), w1)
           | ((None, _), w1) \<Rightarrow> create_containers V S rsName cs s1 w1))"

fun create_replicas ::
  "validator \<Rightarrow> 'w Storage \<Rightarrow> string \<Rightarrow> Container list \<Rightarrow> nat \<Rightarrow> rng \<Rightarrow> 'w \<Rightarrow> ((error option \<times> rng) \<times> 'w) option" where
  "create_replicas V S rsName cs 0 s w = Some ((None, s), w)"
| "create_replicas V S rsName cs (Suc n) s w =
     (case create_containers V S rsName cs s w of
        None \<Rightarrow> None
      | Some ((Some err, s1), w1) \<Rightarrow> Some ((Some err, s1), w1)
      | Some ((None, s1), w1) \<Rightarrow> create_replicas V S rsName cs n s1 w1)"

definition set_status_replicas :: "int \<Rightarrow> ReplicaSet \<Rightarrow> ReplicaSet" where
  "set_status_replicas n rs = rs\<lparr>RS_Status := (RS_Status rs)\<lparr>RSStatus_Replicas := word_of_int n\<rparr>\<rparr>"

definition Reconcile ::
  "validator \<Rightarrow> 'w Storage \<Rightarrow> ReplicaSet \<Rightarrow> rng \<Rightarrow> 'w \<Rightarrow> ((error option \<times> rng) \<times> 'w) option" where
  "Reconcile V S rs s w =
     (case ReplicaSet_Get S (RS_Name rs) w of
        (Inl err, w1) \<Rightarrow> Some ((Some err, s), w1)
      | (Inr currentRS, w1) \<Rightarrow>
          (case ListPods S w1 of
             (Inl err, w2) \<Rightarrow> Some ((Some err, s), w2)
           | (Inr allPods, w2) \<Rightarrow>
               (case getPodsForReplicaSet currentRS allPods IsPodActiveAndOwnedBy of
                  Inl err \<Rightarrow> Some ((Some err, s), w2)
                | Inr activePods \<Rightarrow>
                    (let currentPodCount = int (length activePods);
                         desiredPodCount = sint (RSSpec_Replicas (RS_Spec currentRS))
                     in if currentPodCount < desiredPodCount then
                          (case create_replicas V S (RS_Name currentRS)
                                  (slice (PodSpec_Containers (Template_Spec (RSSpec_Template (RS_Spec currentRS)))))
                                  (nat (desiredPodCount - currentPodCount)) s w2 of
                             None \<Rightarrow> None
                           | Some ((Some err, s1), w3) \<Rightarrow> Some ((Some err, s1), w3)
                           | Some ((None, s1), w3) \<Rightarrow>
                               (case ReplicaSet_Update S (set_status_replicas desiredPodCount currentRS) w3 of
                                  (e, w4) \<Rightarrow> Some ((e, s1), w4)))
                        else if currentPodCount > desiredPodCount then
                          (case ReplicaSet_Update S (set_status_replicas desiredPodCount currentRS) w2 of
                             (e, w3) \<Rightarrow> Some ((e, s), w3))
                        else Some ((None, s), w2)))))"

datatype run_outcome = Returned | Exited

fun reconcile_all ::
  "validator \<Rightarrow> 'w Storage \<Rightarrow> ReplicaSet list \<Rightarrow> rng \<Rightarrow> 'w \<Rightarrow> ((run_outcome \<times> rng) \<times> 'w) option" where
  "reconcile_all V S [] s w = Some ((Returned, s), w)"
| "reconcile_all V S (rs # rss) s w =
     (case Reconcile V S rs s w of
        None \<Rightarrow> None
      | Some ((Some err, s1), w1) \<Rightarrow> Some ((Exited, s1), w1)
      | Some ((None, s1), w1) \<Rightarrow> reconcile_all V S rss s1 w1)"

definition Controller_Run :: "validator \<Rightarrow> 'w Storage \<Rightarrow> rng \<Rightarrow> 'w \<Rightarrow> ((run_outcome \<times> rng) \<times> 'w) option" where
  "Controller_Run V S s w =
     (case ReplicaSet_List S w of
        (Inl err, w1) \<Rightarrow> Some ((Exited, s), w1)
      | (Inr rscList, w1) \<Rightarrow> reconcile_all V S rscList s w1)"

fun Controller_Start ::
  "validator \<Rightarrow> 'w Storage \<Rightarrow> loop_event list \<Rightarrow> rng \<Rightarrow> 'w \<Rightarrow> ((run_outcome \<times> rng) \<times> 'w) option" where
  "Controller_Start V S [] s w = Some ((Returned, s), w)"
| "Controller_Start V S (Done # _) s w = Some ((Returned, s), w)"
| "Controller_Start V S (Tick # evs) s w =
     (case Controller_Run V S s w of
        None \<Rightarrow> None
      | Some ((Exited, s1), w1) \<Rightarrow> Some ((Exited, s1), w1)
      | Some ((Returned, s1), w1) \<Rightarrow> Controller_Start V S evs s1 w1)"

subsection \<open>The pods a pass adds\<close>

text \<open>A list of generated names and containers is added to a store of pods.\<close>

definition new_pod :: "string \<times> Container \<Rightarrow> Pod" where
  "new_pod nc = with_status (replica_pod (fst nc) (snd nc))"

definition generated :: "string \<Rightarrow> string \<Rightarrow> bool" where
  "generated base name \<longleftrightarrow> (\<exists>u. name = take MaxGeneratedNameLength base @ u \<and> length u = randomLength
     \<and> set u \<subseteq> set alphanums)"

fun adds :: "string \<Rightarrow> (string \<times> Container) list \<Rightarrow> (string \<Rightarrow> Pod option) \<Rightarrow> (string \<Rightarrow> Pod option) \<Rightarrow> bool" where
  "adds base [] ps ps' \<longleftrightarrow> ps' = ps"
| "adds base (nc # new) ps ps' \<longleftrightarrow>
     ps (fst nc) = None \<and> generated base (fst nc) \<and> adds base new (ps(fst nc \<mapsto> new_pod nc)) ps'"

definition active_pods :: "(string \<Rightarrow> Pod option) \<Rightarrow> ObjectMeta \<Rightarrow> string set" where
  "active_pods ps meta = {n. \<exists>p. ps n = Some p \<and> IsPodActiveAndOwnedBy p meta}"

abbreviation template_containers :: "ReplicaSet \<Rightarrow> Container list" where
  "template_containers rs \<equiv> slice (PodSpec_Containers (Template_Spec (RSSpec_Template (RS_Spec rs))))"

abbreviation desired :: "ReplicaSet \<Rightarrow> int" where
  "desired rs \<equiv> sint (RSSpec_Replicas (RS_Spec rs))"

definition ascii :: "string \<Rightarrow> bool" where
  "ascii s \<longleftrightarrow> (\<forall>c\<in>set s. byte_in 0 127 c)"

lemma replica_pod_simps [simp]:
  "Pod_ObjectMeta (replica_pod n c) = zero_ObjectMeta\<lparr>Meta_Name := n\<rparr>"
  "PodSpec_Containers (Pod_Spec (replica_pod n c)) = Some [c]" "Pod_Status (replica_pod n c) = ''''"
  "Pod_NodeName (replica_pod n c) = ''''" "PodSpec_Replicas (Pod_Spec (replica_pod n c)) = 0"
  by (simp_all add: replica_pod_def zero_defs)

lemma new_pod_simps [simp]:
  "Pod_ObjectMeta (new_pod nc) = zero_ObjectMeta\<lparr>Meta_Name := fst nc\<rparr>" "Pod_Status (new_pod nc) = PodPending"
  "PodSpec_Containers (Pod_Spec (new_pod nc)) = Some [snd nc]" "Pod_NodeName (new_pod nc) = ''''"
  by (simp_all add: new_pod_def) (simp add: with_status_def)

lemma ascii_alphanums: "\<forall>c\<in>set alphanums. byte_in 0 127 c"
  by code_simp

lemma ascii_generated:
  assumes "ascii base" "generated base name"
  shows "valid_utf8 name"
proof (rule valid_utf8_ascii, rule ballI)
  fix c assume "c \<in> set name"
  then have "c \<in> set base \<or> c \<in> set alphanums"
    using assms(2) by (auto simp: generated_def dest: in_set_takeD)
  then show "byte_in 0 127 c"
    using assms(1) ascii_alphanums by (auto simp: ascii_def)
qed

lemma zero_ObjectMeta_ok: "valid_utf8 n \<Longrightarrow> meta_ok (zero_ObjectMeta\<lparr>Meta_Name := n\<rparr>)"
proof -
  have "valid_time zero_Time" by (simp add: valid_time_def zero_Time_def days_in_def)
  then show "valid_utf8 n \<Longrightarrow> ?thesis" by (simp add: meta_ok_def zero_ObjectMeta_def valid_utf8_ascii)
qed

lemma storable_replica_pod: "valid_utf8 n \<Longrightarrow> container_ok c \<Longrightarrow> storable (PodObj (replica_pod n c))"
  using zero_ObjectMeta_ok [of n] by (simp add: podspec_ok_def valid_utf8_ascii)

lemma generated_name: "generatePodNameFromReplicaSet base s = Some (name, s') \<Longrightarrow> generated base name"
  using GenerateName_result(1) by (auto simp: generatePodNameFromReplicaSet_def generated_def)

lemma generated_owned: "generated base name \<Longrightarrow> length base \<le> MaxGeneratedNameLength \<Longrightarrow> prefix base name"
  by (auto simp: generated_def)

lemma generated_not_owned: "generated base name \<Longrightarrow> maxNameLength < length base \<Longrightarrow> \<not> prefix base name"
  by (auto simp: generated_def names_consts dest: prefix_length_le)

lemma adds_append:
  "adds base new1 ps ps1 \<Longrightarrow> adds base new2 ps1 ps' \<Longrightarrow> adds base (new1 @ new2) ps ps'"
  by (induction new1 arbitrary: ps) auto

lemma adds_keeps: "adds base new ps ps' \<Longrightarrow> ps n = Some p \<Longrightarrow> ps' n = Some p"
proof (induction new arbitrary: ps)
  case (Cons x new)
  then have "n \<noteq> fst x" "adds base new (ps(fst x \<mapsto> new_pod x)) ps'" by auto
  then show ?case using Cons.IH Cons.prems(2) by (metis fun_upd_other)
qed simp

lemma adds_new: "adds base new ps ps' \<Longrightarrow> nc \<in> set new \<Longrightarrow> ps' (fst nc) = Some (new_pod nc) \<and> ps (fst nc) = None"
proof (induction new arbitrary: ps)
  case (Cons x new)
  then have a: "adds base new (ps(fst x \<mapsto> new_pod x)) ps'" "ps (fst x) = None" by auto
  show ?case
  proof (cases "nc = x")
    case True
    then show ?thesis using a adds_keeps [OF a(1), of "fst x" "new_pod x"] by simp
  next
    case False
    then have "ps' (fst nc) = Some (new_pod nc) \<and> (ps(fst x \<mapsto> new_pod x)) (fst nc) = None"
      using Cons.prems(2) by (intro Cons.IH [OF a(1)]) simp
    then show ?thesis by (simp split: if_splits)
  qed
qed simp

lemma adds_only:
  "adds base new ps ps' \<Longrightarrow> ps' n = Some p \<Longrightarrow> ps n = Some p \<or> (\<exists>nc\<in>set new. n = fst nc \<and> p = new_pod nc)"
proof (induction new arbitrary: ps)
  case (Cons x new)
  then have a: "adds base new (ps(fst x \<mapsto> new_pod x)) ps'" by simp
  show ?case
    using Cons.IH [OF a Cons.prems(2)] by (auto split: if_splits)
qed simp

lemma adds_distinct: "adds base new ps ps' \<Longrightarrow> distinct (map fst new)"
proof (induction new arbitrary: ps)
  case (Cons x new)
  then have a: "adds base new (ps(fst x \<mapsto> new_pod x)) ps'" by simp
  have "fst x \<notin> fst ` set new"
    using adds_new [OF a] by fastforce
  then show ?case using Cons.IH [OF a] by simp
qed simp

lemma adds_generated: "adds base new ps ps' \<Longrightarrow> nc \<in> set new \<Longrightarrow> generated base (fst nc)"
  by (induction new arbitrary: ps) auto

lemma active_pods_listed:
  assumes "lists_pods m ps" "store_inv m"
  shows "active_pods (pods m) meta = Pod_Name ` set (filter (\<lambda>p. IsPodActiveAndOwnedBy p meta) ps)"
    "finite (active_pods (pods m) meta)"
    "card (active_pods (pods m) meta) = length (filter (\<lambda>p. IsPodActiveAndOwnedBy p meta) ps)"
proof -
  let ?f = "filter (\<lambda>p. IsPodActiveAndOwnedBy p meta) ps"
  show eq: "active_pods (pods m) meta = Pod_Name ` set ?f"
    using assms(1) pods_kept(2) [of m] assms(2)
    by (auto simp: active_pods_def lists_pods_def image_iff)
  show "finite (active_pods (pods m) meta)" by (simp add: eq)
  have "distinct (map Pod_Name ps)"
    using assms(1) by (simp add: lists_pods_def strict_sorted_iff)
  then have "distinct (map Pod_Name ?f)"
    by (rule distinct_map_filter)
  then show "card (active_pods (pods m) meta) = length ?f"
    by (metis distinct_card eq length_map list.set_map)
qed

lemma set_status_simps [simp]:
  "RS_ObjectMeta (set_status_replicas n rs) = RS_ObjectMeta rs" "RS_Spec (set_status_replicas n rs) = RS_Spec rs"
  "storable (ReplicaSetObj (set_status_replicas n rs)) = storable (ReplicaSetObj rs)"
  by (simp_all add: set_status_replicas_def)

lemma template_container_ok:
  "storable (ReplicaSetObj rs) \<Longrightarrow> \<forall>c\<in>set (template_containers rs). container_ok c"
  by (auto simp: template_ok_def podspec_ok_def list_all_iff)

text \<open>The pods a pass adds are active and, when the name of the set leaves room for the suffix, its own.\<close>

lemma active_adds:
  assumes "adds (Meta_Name meta) new ps ps'"
  shows "active_pods ps' meta = active_pods ps meta \<union> {n \<in> fst ` set new. prefix (Meta_Name meta) n}"
    "active_pods ps meta \<inter> fst ` set new = {}"
proof -
  have own: "IsPodActiveAndOwnedBy (new_pod nc) meta \<longleftrightarrow> prefix (Meta_Name meta) (fst nc)" for nc
    by (simp add: IsPodActiveAndOwnedBy_def IsOwnedBy_def Pod_IsActive_def status_defs)
  show "active_pods ps' meta = active_pods ps meta \<union> {n \<in> fst ` set new. prefix (Meta_Name meta) n}"
  proof (intro set_eqI iffI)
    fix n assume "n \<in> active_pods ps' meta"
    then obtain p where "ps' n = Some p" "IsPodActiveAndOwnedBy p meta" by (auto simp: active_pods_def)
    then show "n \<in> active_pods ps meta \<union> {n \<in> fst ` set new. prefix (Meta_Name meta) n}"
      using adds_only [OF assms, of n p] own by (auto simp: active_pods_def)
  next
    fix n assume "n \<in> active_pods ps meta \<union> {n \<in> fst ` set new. prefix (Meta_Name meta) n}"
    then consider p where "ps n = Some p" "IsPodActiveAndOwnedBy p meta"
      | nc where "nc \<in> set new" "n = fst nc" "prefix (Meta_Name meta) (fst nc)"
      by (auto simp: active_pods_def)
    then show "n \<in> active_pods ps' meta"
    proof cases
      case (1 p)
      then show ?thesis using adds_keeps [OF assms, of n p] by (auto simp: active_pods_def)
    next
      case (2 nc)
      then show ?thesis using adds_new [OF assms, of nc] own [of nc] by (auto simp: active_pods_def)
    qed
  qed
  show "active_pods ps meta \<inter> fst ` set new = {}"
    using adds_new [OF assms] by (fastforce simp: active_pods_def)
qed

lemma card_active_adds:
  assumes "adds (Meta_Name meta) new ps ps'" "finite (active_pods ps meta)"
  shows "length (Meta_Name meta) \<le> MaxGeneratedNameLength \<Longrightarrow>
      card (active_pods ps' meta) = card (active_pods ps meta) + length new"
    "maxNameLength < length (Meta_Name meta) \<Longrightarrow> active_pods ps' meta = active_pods ps meta"
proof -
  show "card (active_pods ps' meta) = card (active_pods ps meta) + length new"
    if "length (Meta_Name meta) \<le> MaxGeneratedNameLength"
  proof -
    have "{n \<in> fst ` set new. prefix (Meta_Name meta) n} = fst ` set new"
      using adds_generated [OF assms(1)] generated_owned [OF _ that] by auto
    moreover have "card (fst ` set new) = length new"
      using distinct_card [OF adds_distinct [OF assms(1)]] by simp
    ultimately show ?thesis
      using active_adds [OF assms(1)] assms(2) by (simp add: card_Un_disjoint)
  qed
  show "active_pods ps' meta = active_pods ps meta" if "maxNameLength < length (Meta_Name meta)"
    using active_adds(1) [OF assms(1)] adds_generated [OF assms(1)] generated_not_owned [OF _ that] by auto
qed

context registry
begin

lemma create_containers_result:
  assumes "create_containers V S base cs s w = Some ((r, s'), w')" "up w" "store_inv (contents w)"
    "ascii base" "\<forall>c\<in>set cs. container_ok c"
  shows "up w' \<and> store_inv (contents w') \<and> nodes (contents w') = nodes (contents w) \<and>
    replicasets (contents w') = replicasets (contents w) \<and>
    (\<exists>new. adds base new (pods (contents w)) (pods (contents w')) \<and> (r = None \<longrightarrow> map snd new = cs))"
  using assms(1-3,5)
proof (induction cs arbitrary: s w)
  case Nil
  then show ?case by (auto intro: exI [of _ "[]"])
next
  case (Cons c cs)
  obtain name s1 where g: "generatePodNameFromReplicaSet base s = Some (name, s1)"
    using Cons.prems(1) by (auto split: option.splits)
  then have gen: "generated base name" by (rule generated_name)
  then have st: "storable (PodObj (replica_pod name c))"
    using ascii_generated assms(4) Cons.prems(4) by (intro storable_replica_pod) auto
  have ws: "with_status (replica_pod name c) = new_pod (name, c)" by (simp add: new_pod_def)
  show ?case
  proof (rule CreatePod_total [OF Cons.prems(2) st], goal_cases)
    case (1 w1)
    then have "r \<noteq> None" "w' = w1" using Cons.prems(1) g by auto
    then show ?case using 1 Cons.prems(3) by (auto intro: exI [of _ "[]"])
  next
    case (2 w1 e)
    then have "r \<noteq> None" "w' = w1" using Cons.prems(1) g by auto
    then show ?case using 2 Cons.prems(3) by (auto intro: exI [of _ "[]"])
  next
    case (3 w1)
    then have rest: "create_containers V S base cs s1 w1 = Some ((r, s'), w')" using Cons.prems(1) g by simp
    note stored = 3(4)
    note views = views_stored_Pod [OF stored storable_with_status [OF st]]
    have "store_inv (contents w1)"
      using store_inv_stored [OF Cons.prems(3) stored storable_with_status [OF st]] by simp
    then obtain new where IH: "up w'" "store_inv (contents w')" "nodes (contents w') = nodes (contents w1)"
        "replicasets (contents w') = replicasets (contents w1)"
        "adds base new (pods (contents w1)) (pods (contents w'))" "r = None \<longrightarrow> map snd new = cs"
      using Cons.IH [OF rest 3(5)] Cons.prems(4) by auto
    have "adds base ((name, c) # new) (pods (contents w)) (pods (contents w'))"
      using IH(5) views(1) 3(1) gen by (simp add: ws)
    then show ?case
      using IH views(2,3) by (intro conjI exI [of _ "(name, c) # new"]) auto
  qed
qed

lemma create_replicas_result:
  assumes "create_replicas V S base cs n s w = Some ((r, s'), w')" "up w" "store_inv (contents w)"
    "ascii base" "\<forall>c\<in>set cs. container_ok c"
  shows "up w' \<and> store_inv (contents w') \<and> nodes (contents w') = nodes (contents w) \<and>
    replicasets (contents w') = replicasets (contents w) \<and>
    (\<exists>new. adds base new (pods (contents w)) (pods (contents w')) \<and>
       (r = None \<longrightarrow> map snd new = concat (replicate n cs)))"
  using assms(1-3)
proof (induction n arbitrary: s w)
  case 0
  then show ?case by (auto intro: exI [of _ "[]"])
next
  case (Suc n)
  obtain r1 s1 w1 where c: "create_containers V S base cs s w = Some ((r1, s1), w1)"
    using Suc.prems(1) by (auto split: option.splits)
  then obtain new1 where 1: "up w1" "store_inv (contents w1)" "nodes (contents w1) = nodes (contents w)"
      "replicasets (contents w1) = replicasets (contents w)"
      "adds base new1 (pods (contents w)) (pods (contents w1))" "r1 = None \<longrightarrow> map snd new1 = cs"
    using create_containers_result [OF c Suc.prems(2,3) assms(4,5)] by blast
  show ?case
  proof (cases r1)
    case (Some e)
    then have "r = Some e" "w' = w1" using Suc.prems(1) c by auto
    then show ?thesis using 1 by auto
  next
    case None
    then have "create_replicas V S base cs n s1 w1 = Some ((r, s'), w')" using Suc.prems(1) c by simp
    then obtain new2 where 2: "up w'" "store_inv (contents w')" "nodes (contents w') = nodes (contents w1)"
      "replicasets (contents w') = replicasets (contents w1)"
      "adds base new2 (pods (contents w1)) (pods (contents w'))" "r = None \<longrightarrow> map snd new2 = concat (replicate n cs)"
      using Suc.IH 1 by blast
    have "adds base (new1 @ new2) (pods (contents w)) (pods (contents w'))"
      using adds_append 1(5) 2(5) by blast
    then show ?thesis
      using 1 2 None by (intro conjI exI [of _ "new1 @ new2"]) auto
  qed
qed

text \<open>What a successful \<open>Reconcile\<close> did, while etcd is up.\<close>

lemma update_status:
  assumes "ReplicaSet_Update S (set_status_replicas n cur) w = (None, w')" "store_inv (contents w)"
    "storable (ReplicaSetObj cur)"
  shows "store_inv (contents w')" "pods (contents w') = pods (contents w)" "nodes (contents w') = nodes (contents w)"
    "replicasets (contents w') = (replicasets (contents w))(RS_Name cur \<mapsto> set_status_replicas n cur)"
proof -
  let ?o = "ReplicaSetObj (set_status_replicas n cur)"
  have st: "storable ?o" using assms(3) by simp
  note stored = ReplicaSet_Update_ok(2) [OF assms(1)]
  note views = views_stored_ReplicaSet [OF stored st]
  show "store_inv (contents w')"
    using store_inv_stored [OF assms(2) stored st] by simp
  show "pods (contents w') = pods (contents w)" "nodes (contents w') = nodes (contents w)"
    "replicasets (contents w') = (replicasets (contents w))(RS_Name cur \<mapsto> set_status_replicas n cur)"
    using views by simp_all
qed

lemma update_status_up:
  assumes "ReplicaSet_Update S (set_status_replicas n cur) w = (e, w')" "up w"
    "replicasets (contents w) (RS_Name cur) = Some cur" "storable (ReplicaSetObj cur)"
  shows "up w'"
  using ReplicaSet_Update_up [OF assms(2), of "set_status_replicas n cur" cur] assms by auto

text \<open>With etcd up, what \<open>Reconcile\<close> does depends on the count of active pods alone.\<close>

lemma Reconcile_up:
  assumes "up w" "store_inv (contents w)" "replicasets (contents w) (RS_Name rs) = Some cur"
  obtains w2 where "up w2" "contents w2 = contents w"
    "finite (active_pods (pods (contents w)) (RS_ObjectMeta cur))"
    "Reconcile V S rs s w =
      (let k = int (card (active_pods (pods (contents w)) (RS_ObjectMeta cur))) in
       if k < desired cur then
         (case create_replicas V S (RS_Name cur) (template_containers cur) (nat (desired cur - k)) s w2 of
            None \<Rightarrow> None
          | Some ((Some err, s1), w3) \<Rightarrow> Some ((Some err, s1), w3)
          | Some ((None, s1), w3) \<Rightarrow>
              (case ReplicaSet_Update S (set_status_replicas (desired cur) cur) w3 of (e, w4) \<Rightarrow> Some ((e, s1), w4)))
       else if k > desired cur then
         (case ReplicaSet_Update S (set_status_replicas (desired cur) cur) w2 of (e, w3) \<Rightarrow> Some ((e, s), w3))
       else Some ((None, s), w2))"
proof -
  obtain w1 where g: "ReplicaSet_Get S (RS_Name rs) w = (Inr cur, w1)" "up w1" "contents w1 = contents w"
    using ReplicaSet_Get_up [OF assms(1), of "RS_Name rs"] assms(3) by auto
  obtain ps w2 where l: "ListPods S w1 = (Inr ps, w2)" "lists_pods (contents w) ps" "up w2" "contents w2 = contents w"
    using ListPods_up [OF g(2)] g(3) assms(2) by auto
  note act = active_pods_listed [OF l(2) assms(2), of "RS_ObjectMeta cur"]
  show thesis
    by (rule that [OF l(3,4) act(2)])
      (use g(1) l(1) in \<open>simp add: Reconcile_def getPodsForReplicaSet_def act(3) Let_def\<close>)
qed

lemma Reconcile_found:
  assumes "Reconcile V S rs s w = Some ((None, s'), w')" "up w" "store_inv (contents w)"
  obtains cur where "replicasets (contents w) (RS_Name rs) = Some cur" "RS_Name cur = RS_Name rs"
    "storable (ReplicaSetObj cur)"
proof -
  obtain w1 where "ReplicaSet_Get S (RS_Name rs) w =
      ((case replicasets (contents w) (RS_Name rs) of Some r \<Rightarrow> Inr r
        | None \<Rightarrow> Inl (wrap_text ErrReplicaSetNotFound (RS_Name rs))), w1)"
    using ReplicaSet_Get_up [OF assms(2)] by blast
  then obtain cur where "replicasets (contents w) (RS_Name rs) = Some cur"
    using assms(1) by (auto simp: Reconcile_def split: option.splits)
  then show thesis
    using replicasets_kept(2) [of "contents w" "RS_Name rs" cur] assms(3) by (intro that [of cur]) simp_all
qed

lemma Reconcile_result:
  assumes "Reconcile V S rs s w = Some ((None, s'), w')" "up w" "store_inv (contents w)" "ascii (RS_Name rs)"
  obtains cur new where "replicasets (contents w) (RS_Name rs) = Some cur" "RS_Name cur = RS_Name rs"
    "store_inv (contents w')" "nodes (contents w') = nodes (contents w)"
    "replicasets (contents w') =
       (if int (card (active_pods (pods (contents w)) (RS_ObjectMeta cur))) = desired cur then replicasets (contents w)
        else (replicasets (contents w))(RS_Name rs \<mapsto> set_status_replicas (desired cur) cur))"
    "adds (RS_Name rs) new (pods (contents w)) (pods (contents w'))"
    "map snd new = concat (replicate
       (nat (desired cur - int (card (active_pods (pods (contents w)) (RS_ObjectMeta cur))))) (template_containers cur))"
    "finite (active_pods (pods (contents w)) (RS_ObjectMeta cur))" "up w'"
proof -
  obtain cur where cur: "replicasets (contents w) (RS_Name rs) = Some cur" "RS_Name cur = RS_Name rs"
    "storable (ReplicaSetObj cur)" using Reconcile_found [OF assms(1,2,3)] .
  let ?k = "card (active_pods (pods (contents w)) (RS_ObjectMeta cur))"
  obtain w2 where w2: "up w2" "contents w2 = contents w" "finite (active_pods (pods (contents w)) (RS_ObjectMeta cur))"
    and R: "Reconcile V S rs s w =
      (let k = int ?k in
       if k < desired cur then
         (case create_replicas V S (RS_Name cur) (template_containers cur) (nat (desired cur - k)) s w2 of
            None \<Rightarrow> None
          | Some ((Some err, s1), w3) \<Rightarrow> Some ((Some err, s1), w3)
          | Some ((None, s1), w3) \<Rightarrow>
              (case ReplicaSet_Update S (set_status_replicas (desired cur) cur) w3 of (e, w4) \<Rightarrow> Some ((e, s1), w4)))
       else if k > desired cur then
         (case ReplicaSet_Update S (set_status_replicas (desired cur) cur) w2 of (e, w3) \<Rightarrow> Some ((e, s), w3))
       else Some ((None, s), w2))"
    using Reconcile_up [OF assms(2,3) cur(1)] .
  have inv2: "store_inv (contents w2)" using w2(2) assms(3) by simp
  consider (less) "int ?k < desired cur" | (more) "int ?k > desired cur" | (eq) "int ?k = desired cur" by linarith
  then show thesis
  proof cases
    case less
    then obtain s1 w3 where c: "create_replicas V S (RS_Name cur) (template_containers cur) (nat (desired cur - int ?k)) s w2
        = Some ((None, s1), w3)"
      and u: "ReplicaSet_Update S (set_status_replicas (desired cur) cur) w3 = (None, w')"
      using assms(1) unfolding R Let_def by (auto split: option.splits prod.splits)
    have "ascii (RS_Name cur)" using assms(4) cur(2) by simp
    then obtain new where new: "up w3" "store_inv (contents w3)" "nodes (contents w3) = nodes (contents w2)"
        "replicasets (contents w3) = replicasets (contents w2)"
        "adds (RS_Name cur) new (pods (contents w2)) (pods (contents w3))"
        "map snd new = concat (replicate (nat (desired cur - int ?k)) (template_containers cur))"
      using create_replicas_result [OF c w2(1) inv2 _ template_container_ok [OF cur(3)]] by blast
    have "up w'" using update_status_up [OF u new(1)] new(4) cur w2(2) by simp
    then show thesis
      using update_status [OF u new(2) cur(3)] new less cur w2 by (intro that [of cur new]) simp_all
  next
    case more
    then have u: "ReplicaSet_Update S (set_status_replicas (desired cur) cur) w2 = (None, w')"
      using assms(1) unfolding R Let_def by (auto split: prod.splits)
    have "up w'" using update_status_up [OF u w2(1)] cur w2(2) by simp
    then show thesis
      using update_status [OF u inv2 cur(3)] more cur w2 by (intro that [of cur "[]"]) simp_all
  next
    case eq
    then have "w' = w2" using assms(1) unfolding R by simp
    then show thesis
      using eq cur w2 assms(3) by (intro that [of cur "[]"]) simp_all
  qed
qed

text \<open>A replica set with the desired number of active pods is left alone.\<close>

lemma Reconcile_stable:
  assumes "up w" "store_inv (contents w)" "replicasets (contents w) (RS_Name rs) = Some cur"
    "int (card (active_pods (pods (contents w)) (RS_ObjectMeta cur))) = desired cur"
  shows "\<exists>w'. Reconcile V S rs s w = Some ((None, s), w') \<and> up w' \<and> contents w' = contents w"
proof -
  obtain w2 where "up w2" "contents w2 = contents w" "Reconcile V S rs s w = Some ((None, s), w2)"
    by (rule Reconcile_up [OF assms(1-3), of s]) (use assms(4) in auto)
  then show ?thesis by blast
qed

text \<open>One missing replica of a template with one valid container is created, when no pod of the store
  has a name that may be generated.\<close>

lemma Reconcile_one:
  assumes "up w" "store_inv (contents w)" "replicasets (contents w) (RS_Name rs) = Some cur" "ascii (RS_Name rs)"
    "template_containers cur = [c]" "container_tags c" "fair usable s"
    "desired cur = int (card (active_pods (pods (contents w)) (RS_ObjectMeta cur))) + 1"
    "\<And>n. generated (RS_Name rs) n \<Longrightarrow> pods (contents w) n = None"
  shows "\<exists>s' w'. Reconcile V S rs s w = Some ((None, s'), w') \<and> up w'"
proof -
  have cur: "RS_Name cur = RS_Name rs" "storable (ReplicaSetObj cur)"
    using replicasets_kept(2) [of "contents w" "RS_Name rs" cur] assms(2,3) by simp_all
  obtain name s1 where g: "generatePodNameFromReplicaSet (RS_Name rs) s = Some (name, s1)"
    using GenerateName_returns [OF assms(7), of "RS_Name rs"] by (auto simp: generatePodNameFromReplicaSet_def)
  note gen = generated_name [OF g]
  have st: "storable (PodObj (replica_pod name c))" "struct_tags (PodObj (replica_pod name c))"
    using storable_replica_pod [OF ascii_generated [OF assms(4) gen]] template_container_ok [OF cur(2)] assms(5,6) gen
    by (auto simp: meta_tags_def podspec_tags_def generated_def randomLength_def)
  show ?thesis
  proof (rule Reconcile_up [OF assms(1-3), of s], goal_cases)
    case (1 w2)
    obtain w3 where c: "CreatePod V S (replica_pod name c) w2 = ((None, with_status (replica_pod name c)), w3)" "up w3"
      using CreatePod_new [OF 1(1), of "replica_pod name c"] 1(2) assms(9) [OF gen] st by auto
    have "replicasets (contents w3) = replicasets (contents w)"
      using views_stored_Pod(3) [OF CreatePod_ok(3) [OF c(1)]] storable_with_status [OF st(1)] 1(2) by simp
    then obtain w4 where "ReplicaSet_Update S (set_status_replicas (desired cur) cur) w3 = (None, w4)" "up w4"
      using ReplicaSet_Update_up [OF c(2), of "set_status_replicas (desired cur) cur" cur] cur assms(3) by auto
    then show ?thesis
      using 1(4) assms(5,8) cur(1) g c(1) by (simp add: numeral_eq_Suc)
  qed
qed

end

text \<open>It returns when usable random values keep coming, whatever the storage does.\<close>

lemma create_containers_returns:
  "fair usable s \<Longrightarrow> \<exists>r s' w'. create_containers V S base cs s w = Some ((r, s'), w') \<and> fair usable s'"
proof (induction cs arbitrary: s w)
  case (Cons c cs)
  obtain name s1 where g: "generatePodNameFromReplicaSet base s = Some (name, s1)"
    using GenerateName_returns [OF Cons.prems, of base] by (auto simp: generatePodNameFromReplicaSet_def)
  then have f: "fair usable s1"
    using GenerateName_result(2) [of base s name s1] Cons.prems by (auto simp: generatePodNameFromReplicaSet_def)
  obtain e p w1 where "CreatePod V S (replica_pod name c) w = ((e, p), w1)"
    by (metis prod.collapse)
  then show ?case
    using g f Cons.IH [OF f, of w1] by (cases e) auto
qed simp

lemma create_replicas_returns:
  "fair usable s \<Longrightarrow> \<exists>r s' w'. create_replicas V S base cs n s w = Some ((r, s'), w') \<and> fair usable s'"
proof (induction n arbitrary: s w)
  case (Suc n)
  obtain r s1 w1 where "create_containers V S base cs s w = Some ((r, s1), w1)" "fair usable s1"
    using create_containers_returns [OF Suc.prems, of V S base cs w] by blast
  then show ?case
    using Suc.IH [of s1 w1] by (cases r) auto
qed simp

lemma Reconcile_returns:
  assumes "fair usable s"
  shows "\<exists>r s' w'. Reconcile V S rs s w = Some ((r, s'), w') \<and> fair usable s'"
proof -
  obtain g w1 where g: "ReplicaSet_Get S (RS_Name rs) w = (g, w1)" by (metis prod.collapse)
  obtain l w2 where l: "ListPods S w1 = (l, w2)" by (metis prod.collapse)
  show ?thesis
  proof (cases "\<exists>cur ps. g = Inr cur \<and> l = Inr ps")
    case True
    then obtain cur ps where gl: "g = Inr cur" "l = Inr ps" by blast
    let ?k = "int (length (filter (\<lambda>p. IsPodActiveAndOwnedBy p (RS_ObjectMeta cur)) ps))"
    obtain r s1 w3 where "create_replicas V S (RS_Name cur) (template_containers cur) (nat (desired cur - ?k)) s w2
        = Some ((r, s1), w3)" "fair usable s1"
      using create_replicas_returns [OF assms, of V S "RS_Name cur" "template_containers cur" "nat (desired cur - ?k)" w2]
      by blast
    then show ?thesis
      using assms g l gl
      by (cases r) (auto simp: Reconcile_def getPodsForReplicaSet_def Let_def split: prod.split)
  next
    case False
    then show ?thesis
      using assms g l by (cases g; cases l) (auto simp: Reconcile_def)
  qed
qed

lemma reconcile_all_returns:
  "fair usable s \<Longrightarrow> \<exists>r s' w'. reconcile_all V S rss s w = Some ((r, s'), w') \<and> fair usable s'"
proof (induction rss arbitrary: s w)
  case (Cons rs rss)
  obtain r s1 w1 where r: "Reconcile V S rs s w = Some ((r, s1), w1)" "fair usable s1"
    using Reconcile_returns [OF Cons.prems, of V S rs w] by blast
  then show ?case
    using Cons.IH [OF r(2), of w1] by (cases r) auto
qed simp

lemma Controller_Run_returns:
  "fair usable s \<Longrightarrow> \<exists>r s' w'. Controller_Run V S s w = Some ((r, s'), w') \<and> fair usable s'"
  using reconcile_all_returns [of s V S]
  by (auto simp: Controller_Run_def split: prod.split sum.split)

lemma Controller_Start_returns:
  "fair usable s \<Longrightarrow> \<exists>r s' w'. Controller_Start V S evs s w = Some ((r, s'), w')"
proof (induction evs arbitrary: s w)
  case (Cons ev evs)
  obtain r s1 w1 where r: "Controller_Run V S s w = Some ((r, s1), w1)" "fair usable s1"
    using Controller_Run_returns [OF Cons.prems, of V S w] by blast
  then show ?case
    using Cons.IH [OF r(2), of w1] by (cases ev; cases r) auto
qed simp

end
