(* ===== verification/Etcd_Mem.thy ===== *)
theory Etcd_Mem
  imports Storage
begin

text \<open>
  A concrete etcd for the interfaces of the development: an ordered list of entries with their
  revisions, and a script of faults, one per request, so that requests can fail before or after
  they take effect. It shows that the laws of \<open>etcd_kv\<close> can hold and gives the witnesses a
  store to run on; it does not stand for code of the repository.
\<close>

datatype fault = NoFault | FailBefore | FailAfter

record etcd_mem =
  mem_kvs :: "(key \<times> kv) list"
  mem_rev :: int
  mem_faults :: "fault list"

definition mem_empty :: "fault list \<Rightarrow> etcd_mem" where
  "mem_empty fs = \<lparr>mem_kvs = [], mem_rev = 1, mem_faults = fs\<rparr>"

definition mem_contents :: "etcd_mem \<Rightarrow> bytes contents" where
  "mem_contents w k = map_option kv_Value (map_of (mem_kvs w) k)"

definition mem_up :: "etcd_mem \<Rightarrow> bool" where
  "mem_up w \<longleftrightarrow> list_all (\<lambda>f. f = NoFault) (mem_faults w)"

definition next_fault :: "etcd_mem \<Rightarrow> fault \<times> etcd_mem" where
  "next_fault w =
     (case mem_faults w of
        [] \<Rightarrow> (NoFault, w)
      | f # fs \<Rightarrow> (f, w\<lparr>mem_faults := fs\<rparr>))"

definition mem_write :: "(etcd_mem \<Rightarrow> etcd_mem) \<Rightarrow> etcd_mem \<Rightarrow> error option \<times> etcd_mem" where
  "mem_write g w =
     (case next_fault w of
        (NoFault, w1) \<Rightarrow> (None, g w1)
      | (FailBefore, w1) \<Rightarrow> (Some (External ''etcdserver: request timed out''), w1)
      | (FailAfter, w1) \<Rightarrow> (Some (External ''context deadline exceeded''), g w1))"

definition mem_read :: "(etcd_mem \<Rightarrow> 'a) \<Rightarrow> etcd_mem \<Rightarrow> (error + 'a) \<times> etcd_mem" where
  "mem_read g w =
     (case next_fault w of
        (NoFault, w1) \<Rightarrow> (Inr (g w1), w1)
      | (_, w1) \<Rightarrow> (Inl (External ''etcdserver: request timed out''), w1))"

definition put_entry :: "key \<Rightarrow> bytes \<Rightarrow> etcd_mem \<Rightarrow> etcd_mem" where
  "put_entry k v w =
     w\<lparr>mem_rev := mem_rev w + 1,
       mem_kvs := alist_put k
         \<lparr>kv_Key = k, kv_Value = v,
          kv_CreateRevision = (case map_of (mem_kvs w) k of
              None \<Rightarrow> mem_rev w + 1 | Some r \<Rightarrow> kv_CreateRevision r),
          kv_ModRevision = mem_rev w + 1\<rparr> (mem_kvs w)\<rparr>"

definition del_entries :: "(key \<Rightarrow> bool) \<Rightarrow> etcd_mem \<Rightarrow> etcd_mem" where
  "del_entries P w =
     w\<lparr>mem_rev := mem_rev w + 1, mem_kvs := filter (\<lambda>e. \<not> P (fst e)) (mem_kvs w)\<rparr>"

definition entries_at :: "(key \<Rightarrow> bool) \<Rightarrow> etcd_mem \<Rightarrow> kv list" where
  "entries_at P w =
     map (\<lambda>(k, r). r\<lparr>kv_Key := k\<rparr>)
       (filter (\<lambda>e. P (fst e)) (foldr (\<lambda>(k, r). alist_put k r) (mem_kvs w) []))"

definition empty_key :: error where
  "empty_key = External ''etcdserver: key is not provided''"

definition mem_client :: "etcd_mem etcd_client" where
  "mem_client =
     \<lparr>etcd_Put = (\<lambda>k v w. if k = [] then (Some empty_key, w) else mem_write (put_entry k v) w),
      etcd_Get = (\<lambda>k w. if k = [] then (Inl empty_key, w) else mem_read (entries_at (\<lambda>x. x = k)) w),
      etcd_GetPrefix = (\<lambda>p. mem_read (entries_at (prefix p))),
      etcd_Delete = (\<lambda>k w. if k = [] then (Some empty_key, w) else mem_write (del_entries (\<lambda>x. x = k)) w),
      etcd_DeletePrefix = (\<lambda>p. mem_write (del_entries (prefix p)))\<rparr>"

lemma normal_alist:
  "alist_ok (foldr (\<lambda>(k, r). alist_put k r) es [])"
  "map_of (foldr (\<lambda>(k, r). alist_put k r) es []) = map_of es"
  by (induction es) (auto simp: map_of_alist_put)

lemma contents_put_entry: "mem_contents (put_entry k v w) = (mem_contents w)(k \<mapsto> v)"
  by (auto simp: mem_contents_def put_entry_def map_of_alist_put)

lemma contents_del_entries:
  "mem_contents (del_entries P w) = (\<lambda>k. if P k then None else mem_contents w k)"
  by (auto simp: mem_contents_def del_entries_def map_of_filter_key [where P = "\<lambda>k. \<not> P k"])

lemma pairs_entries_at:
  "map kv_pair (entries_at P w) =
     map (map_prod id kv_Value) (filter (\<lambda>e. P (fst e)) (foldr (\<lambda>(k, r). alist_put k r) (mem_kvs w) []))"
  by (auto simp: entries_at_def)

lemma entries_at_listing:
  "alist_ok (map kv_pair (entries_at P w)) \<and>
   (\<forall>k v. (k, v) \<in> set (map kv_pair (entries_at P w)) \<longleftrightarrow> mem_contents w k = Some v \<and> P k)"
proof -
  let ?n = "foldr (\<lambda>(k, r). alist_put k r) (mem_kvs w) []"
  let ?es = "map (map_prod id kv_Value) (filter (\<lambda>e. P (fst e)) ?n)"
  have n: "(k, r) \<in> set ?n \<longleftrightarrow> map_of (mem_kvs w) k = Some r" for k r
    using map_of_eq_Some_iff [OF alist_ok_distinct [OF normal_alist(1)], of "mem_kvs w" k r]
    by (simp add: normal_alist(2))
  have "(k, v) \<in> set ?es \<longleftrightarrow> (\<exists>r. (k, r) \<in> set ?n \<and> P k \<and> kv_Value r = v)" for k v
    by (auto simp: image_iff)
  then have "(k, v) \<in> set ?es \<longleftrightarrow> mem_contents w k = Some v \<and> P k" for k v
    by (auto simp: n mem_contents_def)
  moreover have "alist_ok (map (map_prod id kv_Value) (filter (\<lambda>e. P (fst e)) ?n))"
    using alist_ok_filter [OF normal_alist(1)] by (simp add: alist_ok_def comp_def)
  ultimately show ?thesis
    unfolding pairs_entries_at by blast
qed

lemma listing_of_key:
  assumes "distinct (map fst es)"
    and s: "\<forall>x v. (x, v) \<in> set es \<longleftrightarrow> m x = Some v \<and> x = k"
  shows "es = (case m k of None \<Rightarrow> [] | Some v \<Rightarrow> [(k, v)])"
proof (cases es)
  case Nil
  with s have "m k = None" by (cases "m k") auto
  with Nil show ?thesis by simp
next
  case (Cons e es')
  have k: "fst x = k" if "x \<in> set es" for x
    using that s [rule_format, of "fst x" "snd x"] by simp
  have "es' = []"
    using assms(1) k [of e] k [of "hd es'"] Cons by (cases es') auto
  moreover have e: "fst e = k"
    using k [of e] Cons by simp
  moreover have "m k = Some (snd e)"
    using s [rule_format, of "fst e" "snd e"] Cons e by (cases e) simp
  ultimately show ?thesis
    using Cons by (cases e) simp
qed

lemma entries_at_key:
  "map kv_pair (entries_at (\<lambda>x. x = k) w) = (case mem_contents w k of None \<Rightarrow> [] | Some v \<Rightarrow> [(k, v)])"
  using entries_at_listing [of "\<lambda>x. x = k" w] 
  by (elim conjE) (rule listing_of_key [OF alist_ok_distinct])

lemma next_fault_contents:
  "next_fault w = (f, w1) \<Longrightarrow> mem_contents w1 = mem_contents w \<and> mem_kvs w1 = mem_kvs w
     \<and> (mem_up w \<longrightarrow> f = NoFault \<and> mem_up w1)"
  by (cases "mem_faults w") (auto simp: next_fault_def mem_contents_def mem_up_def fun_eq_iff)

lemma mem_up_write [simp]: "mem_up (put_entry k v w) = mem_up w" "mem_up (del_entries P w) = mem_up w"
  by (simp_all add: mem_up_def put_entry_def del_entries_def)

lemma mem_write_cases:
  assumes "mem_write g w = (e, w')"
  shows "\<exists>w1. mem_contents w1 = mem_contents w \<and> (mem_up w \<longrightarrow> e = None \<and> mem_up w1)
    \<and> (if e = None then w' = g w1 else w' = w1 \<or> w' = g w1)"
proof -
  obtain f w1 where f: "next_fault w = (f, w1)" by (cases "next_fault w")
  show ?thesis
    using assms next_fault_contents [OF f] f
    by (cases f; intro exI [of _ w1]) (auto simp: mem_write_def)
qed

lemma mem_read_cases:
  assumes "mem_read g w = (r, w')"
  shows "mem_contents w' = mem_contents w \<and> mem_kvs w' = mem_kvs w \<and> (r = Inr (g w') \<or> (\<exists>e. r = Inl e))
    \<and> (mem_up w \<longrightarrow> r = Inr (g w') \<and> mem_up w')"
proof -
  obtain f w1 where f: "next_fault w = (f, w1)" by (cases "next_fault w")
  show ?thesis
    using assms next_fault_contents [OF f] f
    by (cases f) (auto simp: mem_read_def)
qed

lemma mem_write_effect:
  assumes "mem_write g w = (e, w')"
    and "\<And>w1. mem_contents (g w1) = h (mem_contents w1)"
  shows "mem_contents w' = h (mem_contents w) \<or> e \<noteq> None \<and> mem_contents w' = mem_contents w"
proof -
  obtain w1 where "mem_contents w1 = mem_contents w" "if e = None then w' = g w1 else w' = w1 \<or> w' = g w1"
    using mem_write_cases [OF assms(1)] by blast
  then show ?thesis
    using assms(2) [of w1] by (cases e) auto
qed

lemma mem_write_up:
  assumes "mem_up w" and "\<And>w1. mem_up (g w1) = mem_up w1"
  shows "\<exists>w'. mem_write g w = (None, w') \<and> mem_up w'"
proof -
  obtain e w' where m: "mem_write g w = (e, w')" by (cases "mem_write g w")
  obtain w1 where "e = None" "mem_up w1" "w' = g w1"
    using mem_write_cases [OF m] assms(1) by auto
  then show ?thesis
    using m assms(2) [of w1] by simp
qed

lemma mem_read_up:
  assumes "mem_up w"
  shows "\<exists>x w'. mem_read g w = (Inr x, w') \<and> mem_up w'"
proof -
  obtain r w' where m: "mem_read g w = (r, w')" by (cases "mem_read g w")
  show ?thesis
    using mem_read_cases [OF m] m assms by blast
qed

lemma contents_del_key: "mem_contents (del_entries (\<lambda>x. x = k) w) = (mem_contents w)(k := None)"
  by (auto simp: contents_del_entries)

lemma contents_del_prefix: "mem_contents (del_entries (prefix p) w) = remove_prefix p (mem_contents w)"
  by (simp add: contents_del_entries remove_prefix_def)

lemma mem_put_effect:
  "mem_write (put_entry k v) w = (e, w') \<Longrightarrow>
     mem_contents w' = (mem_contents w)(k \<mapsto> v) \<or> e \<noteq> None \<and> mem_contents w' = mem_contents w"
  by (erule mem_write_effect [where h = "\<lambda>m. m(k \<mapsto> v)"]) (rule contents_put_entry)

lemma mem_del_effect:
  "mem_write (del_entries (\<lambda>x. x = k)) w = (e, w') \<Longrightarrow>
     mem_contents w' = (mem_contents w)(k := None) \<or> e \<noteq> None \<and> mem_contents w' = mem_contents w"
  by (erule mem_write_effect [where h = "\<lambda>m. m(k := None)"]) (rule contents_del_key)

lemma mem_delp_effect:
  "mem_write (del_entries (prefix p)) w = (e, w') \<Longrightarrow>
     mem_contents w' = remove_prefix p (mem_contents w) \<or> e \<noteq> None \<and> mem_contents w' = mem_contents w"
  by (erule mem_write_effect [where h = "remove_prefix p"]) (rule contents_del_prefix)

interpretation mem: etcd_kv mem_client mem_contents mem_up
proof
  fix k v w w'
  assume "etcd_Put mem_client k v w = (None, w')"
  then show "mem_contents w' = (mem_contents w)(k \<mapsto> v)"
    using mem_put_effect [of k v w None w']
    by (simp add: mem_client_def split: if_splits)
next
  fix k v w e w'
  assume "etcd_Put mem_client k v w = (Some e, w')"
  then show "mem_contents w' = mem_contents w \<or> mem_contents w' = (mem_contents w)(k \<mapsto> v)"
    using mem_put_effect [of k v w "Some e" w']
    by (auto simp: mem_client_def split: if_splits)
next
  fix k w r w'
  assume "etcd_Get mem_client k w = (r, w')"
  then show "mem_contents w' = mem_contents w"
    by (auto simp: mem_client_def split: if_splits dest: mem_read_cases)
next
  fix k w rs w'
  assume "etcd_Get mem_client k w = (Inr rs, w')"
  then show "map kv_pair rs = (case mem_contents w k of None \<Rightarrow> [] | Some v \<Rightarrow> [(k, v)])"
    using mem_read_cases [of "entries_at (\<lambda>x. x = k)" w "Inr rs" w'] entries_at_key [of k w']
    by (auto simp: mem_client_def split: if_splits)
next
  fix p w r w'
  assume "etcd_GetPrefix mem_client p w = (r, w')"
  then show "mem_contents w' = mem_contents w"
    by (auto simp: mem_client_def dest: mem_read_cases)
next
  fix p w rs w'
  assume "etcd_GetPrefix mem_client p w = (Inr rs, w')"
  then show "lists_prefix (mem_contents w) p (map kv_pair rs)"
    using mem_read_cases [of "entries_at (prefix p)" w "Inr rs" w'] entries_at_listing [of "prefix p" w']
    by (simp add: mem_client_def lists_prefix_def)
next
  fix k w w'
  assume "etcd_Delete mem_client k w = (None, w')"
  then show "mem_contents w' = (mem_contents w)(k := None)"
    using mem_del_effect [of k w None w']
    by (simp add: mem_client_def split: if_splits)
next
  fix k w e w'
  assume "etcd_Delete mem_client k w = (Some e, w')"
  then show "mem_contents w' = mem_contents w \<or> mem_contents w' = (mem_contents w)(k := None)"
    using mem_del_effect [of k w "Some e" w']
    by (auto simp: mem_client_def split: if_splits)
next
  fix p w w'
  assume "etcd_DeletePrefix mem_client p w = (None, w')"
  then show "mem_contents w' = remove_prefix p (mem_contents w)"
    using mem_delp_effect [of p w None w'] by (simp add: mem_client_def)
next
  fix p w e w'
  assume "etcd_DeletePrefix mem_client p w = (Some e, w')"
  then show "mem_contents w' = mem_contents w \<or> mem_contents w' = remove_prefix p (mem_contents w)"
    using mem_delp_effect [of p w "Some e" w'] by (auto simp: mem_client_def)
qed (simp_all add: mem_client_def mem_write_up mem_read_up)

end
