(* ===== verification/Registry_Properties.thy ===== *)
theory Registry_Properties
  imports Pod_Registry Node_Registry ReplicaSet_Registry Etcd_Mem
begin

text \<open>
  The registries over etcd. The interface \<open>registry\<close> holds for \<open>EtcdStorage\<close> on any etcd client that
  keeps etcd's promises, and on the concrete etcd of \<open>Etcd_Mem\<close>; the properties below are its
  lemmas with the interface written out, and the witnesses run on the concrete etcd.
\<close>

context etcd_kv
begin

lemma EtcdStorage_is_store: "object_store (NewEtcdStorage cl) kvs up"
  by unfold_locales

end

lemma etcd_registry:
  "etcd_kv cl kvs up \<Longrightarrow> struct_validator V \<Longrightarrow> registry (NewEtcdStorage cl) kvs up V"
  by (simp add: registry.intro etcd_kv.EtcdStorage_is_store)

abbreviation mem_storage :: "etcd_mem Storage" where
  "mem_storage \<equiv> NewEtcdStorage mem_client"

interpretation demo: registry mem_storage mem_contents mem_up tag_validator
  by (rule etcd_registry) unfold_locales

lemmas mem_laws = mem.etcd_kv_axioms tags.struct_validator_axioms

subsection \<open>Objects for the witnesses\<close>

definition demo_container :: Container where
  "demo_container = \<lparr>Container_Name = ''nginx'', Container_Image = ''nginx:1.25''\<rparr>"

definition demo_pod :: Pod where
  "demo_pod = zero_Pod\<lparr>Pod_ObjectMeta := zero_ObjectMeta\<lparr>Meta_Name := ''web''\<rparr>,
     Pod_Spec := zero_PodSpec\<lparr>PodSpec_Containers := Some [demo_container]\<rparr>\<rparr>"

definition demo_node :: Node where
  "demo_node = zero_Node\<lparr>Node_ObjectMeta := zero_ObjectMeta\<lparr>Meta_Name := ''node-1''\<rparr>, Node_Status := NodeReady\<rparr>"

definition demo_rs :: ReplicaSet where
  "demo_rs = zero_ReplicaSet\<lparr>RS_ObjectMeta := zero_ObjectMeta\<lparr>Meta_Name := ''web''\<rparr>,
     RS_Spec := zero_ReplicaSetSpec\<lparr>RSSpec_Replicas := 2,
       RSSpec_Template := zero_PodTemplateSpec\<lparr>Template_Spec := zero_PodSpec\<lparr>PodSpec_Containers := Some [demo_container]\<rparr>\<rparr>\<rparr>\<rparr>"

lemmas demo_defs = demo_container_def demo_pod_def demo_node_def demo_rs_def

lemma demo_storable:
  "storable (PodObj demo_pod)" "storable (NodeObj demo_node)" "storable (ReplicaSetObj demo_rs)"
proof -
  have t: "valid_time zero_Time" by (simp add: valid_time_def zero_Time_def days_in_def)
  have c: "container_ok demo_container" by code_simp
  have u: "valid_utf8 ''web''" "valid_utf8 ''node-1''" "valid_utf8 NodeReady" "valid_utf8 []" by code_simp+
  show "storable (PodObj demo_pod)" "storable (NodeObj demo_node)" "storable (ReplicaSetObj demo_rs)"
    using t c u by (simp_all add: demo_pod_def demo_node_def demo_rs_def zero_defs meta_ok_def podspec_ok_def
        template_ok_def selector_ok_def)
qed

lemma demo_tags:
  "struct_tags (PodObj demo_pod)" "struct_tags (NodeObj demo_node)" "\<not> struct_tags (PodObj (zero_Pod))"
  "\<not> struct_tags (ReplicaSetObj demo_rs)"
  by (simp_all add: demo_defs zero_defs meta_tags_def podspec_tags_def container_tags_def replicaset_tags_def)

lemma demo_names [simp]: "Pod_Name demo_pod = ''web''" "Node_Name demo_node = ''node-1''" "RS_Name demo_rs = ''web''"
  "Pod_Status demo_pod = ''''"
  by (simp_all add: demo_defs zero_defs)

lemma empty_contents [simp]: "mem_contents (mem_empty fs) = (\<lambda>_. None)"
  by (simp add: mem_contents_def mem_empty_def fun_eq_iff)

lemma empty_up [simp]: "mem_up (mem_empty [])"
  by (simp add: mem_up_def mem_empty_def)

lemma empty_views [simp]: "pods (\<lambda>_. None) n = None" "nodes (\<lambda>_. None) n = None" "replicasets (\<lambda>_. None) n = None"
  by (simp_all add: view_defs lookup_def)

text \<open>The concrete etcd after the demonstration pod was created.\<close>

definition demo_world :: etcd_mem where
  "demo_world = snd (CreatePod tag_validator mem_storage demo_pod (mem_empty []))"

lemma demo_created:
  "CreatePod tag_validator mem_storage demo_pod (mem_empty []) = ((None, with_status demo_pod), demo_world)"
  "mem_up demo_world"
  using demo.CreatePod_new [of "mem_empty []" demo_pod] demo_storable(1) demo_tags(1)
  by (auto simp: demo_world_def)

lemma demo_world_views:
  "pods (mem_contents demo_world) = [''web'' \<mapsto> with_status demo_pod]"
  "nodes (mem_contents demo_world) = Map.empty" "store_inv (mem_contents demo_world)"
proof -
  note st = demo.CreatePod_ok(3) [OF demo_created(1)]
  note v = views_stored_Pod [OF st storable_with_status [OF demo_storable(1)]]
  show "pods (mem_contents demo_world) = [''web'' \<mapsto> with_status demo_pod]"
    "nodes (mem_contents demo_world) = Map.empty"
    using v by (simp_all add: fun_eq_iff)
  show "store_inv (mem_contents demo_world)"
    using store_inv_stored [OF _ st storable_with_status [OF demo_storable(1)]] store_inv_empty by simp
qed

subsection \<open>Properties\<close>

text \<open>C4: every object the API stores survives a round trip: encoding succeeds, and decoding the bytes
  into a fresh object of the same type gives the object back. The hypothesis is what JSON can hold:
  UTF-8 strings, RFC 3339 times, maps.\<close>

theorem Encode_Decode_roundtrip:
  assumes "storable obj"
  shows "\<exists>data. Encode obj = Inr data \<and> Decode data (zero_like obj) = Inr obj"
  using Encode_storable [OF assms] Decode_Encode [OF assms] by blast

theorem Encode_Decode_roundtrip_witness:
  "\<exists>data. Encode (PodObj demo_pod) = Inr data \<and> Decode data (PodObj zero_Pod) = Inr (PodObj demo_pod)"
  using Encode_Decode_roundtrip [OF demo_storable(1)] by simp



text \<open>While etcd is up, \<open>CreatePod\<close> of a pod that can be stored has exactly one of three
  outcomes: the name is taken and it fails with \<open>ErrPodAlreadyExists\<close>; the pod is invalid and it fails
  with \<open>ErrPodInvalid\<close>; or it succeeds, and the pod is stored under its name, with the status \<open>Pending\<close>
  when it had none. In the first two the store is unchanged, and in the last no other pod, no node and
  no replica set changed.\<close>

lemma CreatePod_outcomes:
  assumes "etcd_kv cl kvs up" "struct_validator V" "up w" "storable (PodObj pod)"
    and "CreatePod V (NewEtcdStorage cl) pod w = ((r, pod'), w')"
  shows "up w' \<and> (if pods (kvs w) (Pod_Name pod) \<noteq> None
      then r = Some (wrap_text ErrPodAlreadyExists (Pod_Name pod)) \<and> kvs w' = kvs w
    else if \<not> struct_tags (PodObj pod) then (\<exists>e. r = Some (wrap_cause ErrPodInvalid '''' e)) \<and> kvs w' = kvs w
    else r = None \<and> pod' = with_status pod \<and> pods (kvs w') = (pods (kvs w))(Pod_Name pod \<mapsto> pod') \<and>
      nodes (kvs w') = nodes (kvs w) \<and> replicasets (kvs w') = replicasets (kvs w))"
proof (rule registry.CreatePod_total [OF etcd_registry [OF assms(1,2)] assms(3,4)], goal_cases)
  case (3 w1)
  then show ?thesis
    using assms(5) views_stored_Pod [OF 3(4) storable_with_status [OF assms(4)]] by simp
qed (use assms(5) in auto)

lemma CreatePod_outcomes_instance:
  "\<exists>w'. CreatePod tag_validator mem_storage demo_pod demo_world
     = ((Some (wrap_text ErrPodAlreadyExists ''web''), demo_pod), w') \<and> mem_contents w' = mem_contents demo_world"
proof -
  obtain r p' w' where c: "CreatePod tag_validator mem_storage demo_pod demo_world = ((r, p'), w')"
    by (metis prod.collapse)
  have "r = Some (wrap_text ErrPodAlreadyExists ''web'') \<and> mem_contents w' = mem_contents demo_world"
    using CreatePod_outcomes [OF mem_laws, OF demo_created(2) demo_storable(1) c] by (simp add: demo_world_views)
  moreover have "p' = demo_pod"
    using c demo.CreatePod_exists [OF demo_created(2), of demo_pod] by (auto simp: demo_world_views)
  ultimately show ?thesis using c by blast
qed



text \<open>C34: \<open>CreatePod\<close> takes any error of its lookup for an absent pod. When the lookup request fails and etcd
  then answers again, creating a pod whose name is taken reports success and overwrites the stored pod.\<close>

theorem CreatePod_overwrites:
  assumes "etcd_kv cl kvs up" "struct_validator V" "storable (PodObj pod)" "struct_tags (PodObj pod)"
    and "pods (kvs w) (Pod_Name pod) = Some old"
    and "etcd_Get cl (PodRegistry_generateKey (Pod_Name pod)) w = (Inl e, w1)" "up w1"
  shows "\<exists>w'. CreatePod V (NewEtcdStorage cl) pod w = ((None, with_status pod), w') \<and>
    pods (kvs w') (Pod_Name pod) = Some (with_status pod)"
proof -
  note reg = etcd_registry [OF assms(1,2)]
  let ?k = "object_key (PodObj (with_status pod))" and ?S = "NewEtcdStorage cl"
  obtain e' where g: "st_Get ?S (object_key (PodObj pod)) (PodObj zero_Pod) w = (Inl e', w1)"
    using assms(6) by (auto simp: NewEtcdStorage_def EtcdStorage_Get_def)
  obtain d where d: "Encode (PodObj (with_status pod)) = Inr d"
    using Encode_storable [OF storable_with_status [OF assms(3)]] by blast
  obtain w2 where c: "st_Create ?S ?k (PodObj (with_status pod)) w1 = (None, w2)"
    using object_store.create_up [OF etcd_kv.EtcdStorage_is_store [OF assms(1)] assms(7) object_key_nonempty d] by blast
  have "Pod_Validate V (with_status pod) = None"
    using struct_validator.Pod_Validate_None [OF assms(2)] assms(4) by simp
  then have r: "CreatePod V ?S pod w = ((None, with_status pod), w2)"
    using g c by (simp add: CreatePod_alt)
  show ?thesis
    using views_stored_Pod(1) [OF registry.CreatePod_ok(3) [OF reg r] storable_with_status [OF assms(3)]] r by simp
qed

lemma faulty_contents: "mem_contents (w\<lparr>mem_faults := fs\<rparr>) = mem_contents w"
  by (simp add: mem_contents_def fun_eq_iff)

theorem CreatePod_overwrites_witness:
  "\<exists>p w'. Pod_Name p = ''web'' \<and> p \<noteq> demo_pod \<and>
     CreatePod tag_validator mem_storage p (demo_world\<lparr>mem_faults := [FailBefore]\<rparr>) = ((None, with_status p), w') \<and>
     pods (mem_contents w') ''web'' = Some (with_status p)"
proof -
  let ?p = "demo_pod\<lparr>Pod_NodeName := ''node-9''\<rparr>"
  have "valid_utf8 ''node-9''" by code_simp
  then have p: "storable (PodObj ?p)" "struct_tags (PodObj ?p)" "Pod_Name ?p = ''web''" "?p \<noteq> demo_pod"
    using demo_storable(1) demo_tags(1) by (simp_all add: demo_pod_def zero_defs)
  have g: "etcd_Get mem_client (PodRegistry_generateKey (Pod_Name ?p)) (demo_world\<lparr>mem_faults := [FailBefore]\<rparr>)
      = (Inl (External ''etcdserver: request timed out''), demo_world\<lparr>mem_faults := []\<rparr>)"
    by (simp add: mem_client_def key_defs mem_read_def next_fault_def)
  have "pods (mem_contents (demo_world\<lparr>mem_faults := [FailBefore]\<rparr>)) (Pod_Name ?p) = Some (with_status demo_pod)"
    "mem_up (demo_world\<lparr>mem_faults := []\<rparr>)"
    using p(3) by (simp_all add: faulty_contents demo_world_views mem_up_def)
  from CreatePod_overwrites [OF mem_laws, OF p(1,2) this(1) g this(2)] obtain w' where
    "CreatePod tag_validator mem_storage ?p (demo_world\<lparr>mem_faults := [FailBefore]\<rparr>) = ((None, with_status ?p), w')"
    "pods (mem_contents w') (Pod_Name ?p) = Some (with_status ?p)" by blast
  then show ?thesis
    using p(3,4) by (intro exI [of _ ?p] exI [of _ w']) simp
qed

lemma generateKey_escapes:
  assumes "plain_element n"
  shows "generateKey nodePrefix (''../../pods/'' @ n) = PodRegistry_generateKey n"
proof -
  have "split_slash (''../../pods/'' @ n) = [''..'', ''..'', ''pods'', n]"
    using assms split_slash_plain [of n] by (simp add: plain_element_def)
  then show ?thesis
    unfolding generateKey_def nodePrefix_def
    by (subst path_Join_rooted) (use assms in \<open>simp add: clean_step_def plain_element_def key_defs\<close>)
qed

text \<open>C35: the name of a node can leave the nodes' part of the store. While etcd is up, updating a valid node named
  \<open>../../pods/n\<close> succeeds and writes the node over the entry of the pod \<open>n\<close>.\<close>

theorem node_name_reaches_pods:
  assumes "etcd_kv cl kvs up" "struct_validator V" "up w" "storable (NodeObj node)" "struct_tags (NodeObj node)"
    and "Node_Name node = ''../../pods/'' @ n" "plain_element n"
  shows "\<exists>w' d. UpdateNode V (NewEtcdStorage cl) node w = (None, w') \<and> Encode (NodeObj node) = Inr d \<and>
    kvs w' (PodRegistry_generateKey n) = Some d"
proof -
  obtain d where d: "Encode (NodeObj node) = Inr d" using Encode_storable [OF assms(4)] by blast
  have k: "object_key (NodeObj node) = PodRegistry_generateKey n"
    using generateKey_escapes [OF assms(7)] assms(6) by simp
  obtain w' where u: "st_Update (NewEtcdStorage cl) (object_key (NodeObj node)) (NodeObj node) w = (None, w')"
    using object_store.update_up [OF etcd_kv.EtcdStorage_is_store [OF assms(1)] assms(3) object_key_nonempty d] by blast
  have "Node_Validate V node = None"
    using struct_validator.Node_Validate_None [OF assms(2)] assms(5) by blast
  then have "UpdateNode V (NewEtcdStorage cl) node w = (None, w')"
    using u by (simp add: UpdateNode_def)
  moreover have "kvs w' (PodRegistry_generateKey n) = Some d"
    using registry.UpdateNode_ok(2) [OF etcd_registry [OF assms(1,2)] calculation] d unfolding k by (simp add: stored_def)
  ultimately show ?thesis using d by blast
qed

theorem node_name_reaches_pods_witness:
  "\<exists>node w' d. UpdateNode tag_validator mem_storage node demo_world = (None, w') \<and> Encode (NodeObj node) = Inr d \<and>
     mem_contents w' (PodRegistry_generateKey ''web'') = Some d"
proof -
  let ?n = "demo_node\<lparr>Node_ObjectMeta := zero_ObjectMeta\<lparr>Meta_Name := ''../../pods/web''\<rparr>\<rparr>"
  have "valid_utf8 ''../../pods/web''" "valid_utf8 []" by code_simp+
  moreover have "valid_time zero_Time" by (simp add: valid_time_def zero_Time_def days_in_def)
  ultimately have n: "storable (NodeObj ?n)" "struct_tags (NodeObj ?n)" "Node_Name ?n = ''../../pods/'' @ ''web''"
    using demo_storable(2) by (simp_all add: demo_node_def zero_defs meta_ok_def meta_tags_def)
  have "plain_element ''web''" by (simp add: plain_element_def)
  from node_name_reaches_pods [OF mem_laws, OF demo_created(2) n this] show ?thesis by blast
qed

end
