(* ===== verification/Control_Properties.thy ===== *)
theory Control_Properties
  imports Controller Registry_Properties
begin

text \<open>
  Properties of the name generator, the scheduler and the replica set controller over etcd. The
  etcd client, its contents and the validator are arbitrary, with the laws of \<open>etcd_kv\<close> and
  \<open>struct_validator\<close> as hypotheses; the witnesses run on the concrete etcd.
\<close>

subsection \<open>A cluster for the witnesses\<close>

definition demo_nodes :: etcd_mem where
  "demo_nodes = snd (CreateNode tag_validator mem_storage demo_node demo_world)"

definition demo_with :: "ReplicaSet \<Rightarrow> etcd_mem" where
  "demo_with rs = snd (ReplicaSet_Create mem_storage rs demo_nodes)"

abbreviation demo_cluster :: etcd_mem where
  "demo_cluster \<equiv> demo_with demo_rs"

lemma demo_plain: "plain_element ''node-1''"
  by (simp add: plain_element_def)

lemma demo_nodes_created:
  "CreateNode tag_validator mem_storage demo_node demo_world = (None, demo_nodes)" "mem_up demo_nodes"
  using demo.CreateNode_up [OF demo_created(2), of demo_node] demo_plain demo_storable(2) demo_tags(2) demo_world_views
  by (auto simp: demo_nodes_def)

lemma demo_nodes_views:
  "pods (mem_contents demo_nodes) = [''web'' \<mapsto> with_status demo_pod]"
  "nodes (mem_contents demo_nodes) = [''node-1'' \<mapsto> demo_node]"
  "replicasets (mem_contents demo_nodes) = replicasets (mem_contents demo_world)"
  "store_inv (mem_contents demo_nodes)"
proof -
  note st = demo.CreateNode_ok(2) [OF demo_nodes_created(1)]
  note v = views_stored_Node [OF st demo_storable(2)]
  show "pods (mem_contents demo_nodes) = [''web'' \<mapsto> with_status demo_pod]"
    "nodes (mem_contents demo_nodes) = [''node-1'' \<mapsto> demo_node]"
    "replicasets (mem_contents demo_nodes) = replicasets (mem_contents demo_world)"
    using v demo_plain by (simp_all add: demo_world_views)
  show "store_inv (mem_contents demo_nodes)"
    using store_inv_stored [OF demo_world_views(3) st demo_storable(2)] demo_plain by simp
qed

lemma demo_with_created:
  assumes "storable (ReplicaSetObj rs)"
  shows "ReplicaSet_Create mem_storage rs demo_nodes = (None, demo_with rs)" "mem_up (demo_with rs)"
proof -
  have "replicasets (mem_contents demo_nodes) = Map.empty"
    using views_stored_Pod [OF demo.CreatePod_ok(3) [OF demo_created(1)] storable_with_status [OF demo_storable(1)]]
    by (simp add: demo_nodes_views fun_eq_iff)
  then obtain w where "ReplicaSet_Create mem_storage rs demo_nodes = (None, w)" "mem_up w"
    using demo.ReplicaSet_Create_up [OF demo_nodes_created(2) assms] by auto
  then show "ReplicaSet_Create mem_storage rs demo_nodes = (None, demo_with rs)" "mem_up (demo_with rs)"
    by (auto simp: demo_with_def)
qed

lemma demo_with_views:
  assumes "storable (ReplicaSetObj rs)"
  shows "pods (mem_contents (demo_with rs)) = [''web'' \<mapsto> with_status demo_pod]"
    "nodes (mem_contents (demo_with rs)) = [''node-1'' \<mapsto> demo_node]"
    "replicasets (mem_contents (demo_with rs)) (RS_Name rs) = Some rs" "store_inv (mem_contents (demo_with rs))"
proof -
  note st = demo.ReplicaSet_Create_ok [OF demo_with_created(1) [OF assms]]
  note v = views_stored_ReplicaSet [OF st assms]
  show "pods (mem_contents (demo_with rs)) = [''web'' \<mapsto> with_status demo_pod]"
    "nodes (mem_contents (demo_with rs)) = [''node-1'' \<mapsto> demo_node]"
    "replicasets (mem_contents (demo_with rs)) (RS_Name rs) = Some rs"
    using v by (simp_all add: demo_nodes_views)
  show "store_inv (mem_contents (demo_with rs))"
    using store_inv_stored [OF demo_nodes_views(4) st assms] by simp
qed

lemmas demo_cluster_created = demo_with_created [OF demo_storable(3)]
lemmas demo_cluster_views = demo_with_views [OF demo_storable(3), unfolded demo_names]

lemma demo_valid_pods: "valid_pods (mem_contents demo_cluster)"
  using demo_tags(1) by (auto simp: valid_pods_def demo_cluster_views)

lemma demo_pending: "Pod_Status (with_status demo_pod) = PodPending"
  by (simp add: with_status_def)

subsection \<open>Generated names\<close>

text \<open>C22: \<open>GenerateName\<close> returns, for every source that keeps giving values with a usable index, the
  base cut to 58 bytes followed by five letters of the alphabet: at most 63 bytes, and the base
  is a prefix of the name when it has at most 58.\<close>

theorem GenerateName_spec:
  assumes "fair usable s"
  shows "\<exists>u s'. GenerateName base s = Some (take MaxGeneratedNameLength base @ u, s') \<and>
    length u = randomLength \<and> set u \<subseteq> set alphanums \<and>
    length (take MaxGeneratedNameLength base @ u) = min (length base) 58 + 5 \<and>
    (length base \<le> 58 \<longrightarrow> take MaxGeneratedNameLength base = base)"
proof -
  obtain name s' where g: "GenerateName base s = Some (name, s')"
    using GenerateName_returns [OF assms] by blast
  then show ?thesis
    using GenerateName_result(1) [OF g] by (auto simp: MaxGeneratedNameLength_def maxNameLength_def randomLength_def)
qed

theorem GenerateName_spec_witness:
  "\<exists>u s'. GenerateName ''web'' (sconst 0) = Some (''web'' @ u, s') \<and> length u = 5"
  using GenerateName_spec [OF usable_zero, of "''web''"]
  by (auto simp: MaxGeneratedNameLength_def maxNameLength_def randomLength_def)

text \<open>C10: \<open>String\<close>, which shifts five bits at a time out of a value and draws the next one when it is used up,
  returns what the plain description says: cut every drawn value into twelve indices of five bits, drop
  the indices outside the alphabet, and take the first \<open>n\<close> letters; and it draws no value beyond the first
  that it does not need.\<close>

theorem String_reference:
  assumes "String n s = Some (t, s')"
  shows "\<exists>k>0. s' = sdrop k s \<and> t = take n (concat (map (letters 12) (stake k s))) \<and>
    n \<le> length (concat (map (letters 12) (stake k s))) \<and>
    (1 < k \<longrightarrow> length (concat (map (letters 12) (stake (k - 1) s))) < n)"
proof -
  have "maxAlphanumsPerInt = 12" by (simp add: maxAlphanumsPerInt_def alphanumsIdxBits_def)
  then obtain k where k: "s' = sdrop k (stl s)"
      "t = take n (letters 12 (shd s) @ concat (map (letters 12) (stake k (stl s))))"
      "n \<le> length (letters 12 (shd s) @ concat (map (letters 12) (stake k (stl s))))"
      "0 < k \<longrightarrow> length (letters 12 (shd s) @ concat (map (letters 12) (stake (k - 1) (stl s)))) < n"
    using String_loop_takes [OF assms [unfolded String_def]] by (auto simp: loop_takes_def)
  have "1 < Suc k \<longrightarrow> length (concat (map (letters 12) (stake (Suc k - 1) s))) < n"
    using k(4) by (cases k) simp_all
  then show ?thesis using k(1-3) by (intro exI [of _ "Suc k"]) simp
qed

theorem String_reference_witness:
  "\<exists>t s' k. String 5 (sconst 0) = Some (t, s') \<and> t = take 5 (concat (map (letters 12) (stake k (sconst 0))))"
proof -
  obtain t s' where r: "String 5 (sconst 0) = Some (t, s')"
    using String_returns [OF usable_zero, of 5] by auto
  show ?thesis using String_reference [OF r] r by blast
qed

subsection \<open>The scheduler\<close>

text \<open>C13: a scheduling pass that returns, with or without an error, and whatever etcd does, keeps the
  store's invariant and changes only pods that were pending, each into itself assigned to a node of
  the store with the status \<open>Scheduled\<close>; and when it returns no error, no pod is pending any more.\<close>

theorem schedulePendingPods_safe:
  assumes "etcd_kv cl kvs up" "struct_validator V" "store_inv (kvs w)"
    and "schedulePendingPods V (NewEtcdStorage cl) s w = Some ((r, s'), w')"
  shows "store_inv (kvs w') \<and> rescheduled (kvs w) (kvs w') \<and>
    (r = None \<longrightarrow> (\<forall>n p. pods (kvs w') n = Some p \<longrightarrow> Pod_Status p \<noteq> PodPending))"
  by (rule registry.schedulePendingPods_result [OF etcd_registry [OF assms(1,2)] assms(4,3)])

lemma demo_node_count:
  "nodes (mem_contents demo_cluster) ''node-1'' = Some demo_node" "card (dom (nodes (mem_contents demo_cluster))) < 2 ^ 63"
  by (simp_all add: demo_cluster_views)

lemma demo_scheduled:
  "\<exists>s' w'. schedulePendingPods tag_validator mem_storage (sconst 0) demo_cluster = Some ((None, s'), w')"
  using registry.schedulePendingPods_returns [OF etcd_registry [OF mem_laws] demo_cluster_created(2) proper_source_zero demo_cluster_views(4)
    demo_valid_pods demo_node_count] by blast

theorem schedulePendingPods_safe_witness:
  "\<exists>s' w'. schedulePendingPods tag_validator mem_storage (sconst 0) demo_cluster = Some ((None, s'), w') \<and>
     store_inv (mem_contents w') \<and> (\<forall>n p. pods (mem_contents w') n = Some p \<longrightarrow> Pod_Status p \<noteq> PodPending)"
proof -
  obtain s' w' where r: "schedulePendingPods tag_validator mem_storage (sconst 0) demo_cluster = Some ((None, s'), w')"
    using demo_scheduled by blast
  show ?thesis
    using schedulePendingPods_safe [OF mem_laws demo_cluster_views(4) r] r by blast
qed

text \<open>C5: while etcd is up, the stored pods are valid, there is a node and the random source does not
  reject for ever, a pass returns without error; every pod that was pending is then assigned to an
  existing node, and every other pod is as it was.\<close>

theorem schedulePendingPods_completes:
  assumes "etcd_kv cl kvs up" "struct_validator V" "up w" "store_inv (kvs w)" "valid_pods (kvs w)"
    and "proper_source s" "nodes (kvs w) x = Some node" "card (dom (nodes (kvs w))) < 2 ^ 63"
  shows "\<exists>s' w'. schedulePendingPods V (NewEtcdStorage cl) s w = Some ((None, s'), w') \<and> up w' \<and>
    (\<forall>n p. pods (kvs w) n = Some p \<longrightarrow>
      (if Pod_Status p = PodPending then \<exists>y nd. nodes (kvs w) y = Some nd \<and> pods (kvs w') n = Some (assign p nd)
       else pods (kvs w') n = Some p))"
proof -
  note reg = etcd_registry [OF assms(1,2)]
  obtain s' w' where r: "schedulePendingPods V (NewEtcdStorage cl) s w = Some ((None, s'), w')" "up w'"
    using registry.schedulePendingPods_returns [OF reg assms(3,6,4,5,7,8)] by blast
  note res = registry.schedulePendingPods_result [OF reg r(1) assms(4)]
  have "if Pod_Status p = PodPending then \<exists>y nd. nodes (kvs w) y = Some nd \<and> pods (kvs w') n = Some (assign p nd)
       else pods (kvs w') n = Some p" if p: "pods (kvs w) n = Some p" for n p
  proof -
    have "pods (kvs w') n = pods (kvs w) n \<or> (\<exists>q y nd. pods (kvs w) n = Some q \<and> Pod_Status q = PodPending \<and>
        nodes (kvs w) y = Some nd \<and> pods (kvs w') n = Some (assign q nd))"
      using conjunct1 [OF conjunct2 [OF res]] unfolding rescheduled_def by blast
    then show ?thesis
    proof (elim disjE exE conjE)
      assume "pods (kvs w') n = pods (kvs w) n"
      then show ?thesis using res p by simp
    next
      fix q y nd
      assume "pods (kvs w) n = Some q" "Pod_Status q = PodPending" "nodes (kvs w) y = Some nd"
        "pods (kvs w') n = Some (assign q nd)"
      then show ?thesis using p by auto
    qed
  qed
  then show ?thesis using r by blast
qed

theorem schedulePendingPods_completes_witness:
  "\<exists>s' w' nd. schedulePendingPods tag_validator mem_storage (sconst 0) demo_cluster = Some ((None, s'), w') \<and>
     pods (mem_contents w') ''web'' = Some (assign (with_status demo_pod) nd)"
proof -
  obtain s' w' where r: "schedulePendingPods tag_validator mem_storage (sconst 0) demo_cluster = Some ((None, s'), w')"
    and p: "\<forall>n p. pods (mem_contents demo_cluster) n = Some p \<longrightarrow>
      (if Pod_Status p = PodPending
       then \<exists>y nd. nodes (mem_contents demo_cluster) y = Some nd \<and> pods (mem_contents w') n = Some (assign p nd)
       else pods (mem_contents w') n = Some p)"
    using schedulePendingPods_completes [OF mem_laws demo_cluster_created(2) demo_cluster_views(4) demo_valid_pods
      proper_source_zero demo_node_count] by blast
  show ?thesis
    using r p [rule_format, of "''web''" "with_status demo_pod"] demo_pending
    by (auto simp: demo_cluster_views(1))
qed

text \<open>Without nodes nothing is scheduled: while etcd is up, a pass over a store with no node returns
  an error and leaves the store as it was.\<close>

lemma schedulePendingPods_no_nodes:
  assumes "etcd_kv cl kvs up" "struct_validator V" "up w" "store_inv (kvs w)" "nodes (kvs w) = Map.empty"
  shows "\<exists>w'. schedulePendingPods V (NewEtcdStorage cl) s w =
      Some ((Some (Errorf None ''no nodes available for scheduling'' None), s), w') \<and> kvs w' = kvs w"
proof -
  note reg = etcd_registry [OF assms(1,2)]
  obtain ps w1 where p: "ListPendingPods (NewEtcdStorage cl) w = (Inr ps, w1)" "up w1"
    using registry.ListPendingPods_up [OF reg assms(3) store_inv_kept [OF assms(4)]] by blast
  have f: "kvs w1 = kvs w" by (rule registry.ListPendingPods_frame [OF reg p(1)])
  have "kept (NodeObj zero_Node) (kvs w1)" using f assms(4) by simp
  then obtain ns w2 where n: "ListNodes (NewEtcdStorage cl) w1 = (Inr ns, w2)" "lists_nodes (kvs w1) ns" "kvs w2 = kvs w1"
    using registry.ListNodes_up [OF reg p(2)] by blast
  have "ns = []"
    using n(2) assms(5) f by (cases ns) (auto simp: lists_nodes_def)
  then show ?thesis using p n f by (simp add: schedulePendingPods_def)
qed

lemma schedulePendingPods_no_nodes_instance:
  "\<exists>err w'. schedulePendingPods tag_validator mem_storage (sconst 0) demo_world = Some ((Some err, sconst 0), w') \<and>
     mem_contents w' = mem_contents demo_world"
  using schedulePendingPods_no_nodes [OF mem_laws demo_created(2) demo_world_views(3,2)] by blast

subsection \<open>The replica set controller\<close>

text \<open>C12: a successful \<open>Reconcile\<close> adds, for each missing replica and each container of the template, one
  pending pod with that container, under a fresh generated name, and nothing else: every other pod
  and every node stays, and the replica set's status count is set to the desired count unless the
  count was already right.\<close>

theorem Reconcile_effect:
  assumes "etcd_kv cl kvs up" "struct_validator V" "up w" "store_inv (kvs w)" "ascii (RS_Name rs)"
    and "Reconcile V (NewEtcdStorage cl) rs s w = Some ((None, s'), w')"
  shows "\<exists>cur new. replicasets (kvs w) (RS_Name rs) = Some cur \<and>
    adds (RS_Name rs) new (pods (kvs w)) (pods (kvs w')) \<and>
    map snd new = concat (replicate
      (nat (desired cur - int (card (active_pods (pods (kvs w)) (RS_ObjectMeta cur))))) (template_containers cur)) \<and>
    nodes (kvs w') = nodes (kvs w) \<and> store_inv (kvs w') \<and>
    replicasets (kvs w') =
      (if int (card (active_pods (pods (kvs w)) (RS_ObjectMeta cur))) = desired cur then replicasets (kvs w)
       else (replicasets (kvs w))(RS_Name rs \<mapsto> set_status_replicas (desired cur) cur))"
  by (rule registry.Reconcile_result [OF etcd_registry [OF assms(1,2)] assms(6,3,4,5)]) blast

lemma Reconcile_counts:
  assumes "etcd_kv cl kvs up" "struct_validator V" "up w" "store_inv (kvs w)" "ascii (RS_Name rs)"
    and "Reconcile V (NewEtcdStorage cl) rs s w = Some ((None, s'), w')"
    and "replicasets (kvs w) (RS_Name rs) = Some cur" "length (RS_Name rs) \<le> MaxGeneratedNameLength"
  shows "int (card (active_pods (pods (kvs w')) (RS_ObjectMeta cur))) =
      int (card (active_pods (pods (kvs w)) (RS_ObjectMeta cur))) +
      max 0 (desired cur - int (card (active_pods (pods (kvs w)) (RS_ObjectMeta cur)))) * int (length (template_containers cur))"
    and "RS_Name cur = RS_Name rs" "store_inv (kvs w')" "up w'"
    and "\<exists>cur'. replicasets (kvs w') (RS_Name rs) = Some cur' \<and> RS_ObjectMeta cur' = RS_ObjectMeta cur \<and>
      RS_Spec cur' = RS_Spec cur"
proof -
  obtain new where name: "RS_Name cur = RS_Name rs" and inv: "store_inv (kvs w')" "up w'"
    and rsets: "replicasets (kvs w') =
      (if int (card (active_pods (pods (kvs w)) (RS_ObjectMeta cur))) = desired cur then replicasets (kvs w)
       else (replicasets (kvs w))(RS_Name rs \<mapsto> set_status_replicas (desired cur) cur))"
    and adds: "adds (RS_Name rs) new (pods (kvs w)) (pods (kvs w'))"
    and new: "map snd new = concat (replicate
      (nat (desired cur - int (card (active_pods (pods (kvs w)) (RS_ObjectMeta cur))))) (template_containers cur))"
    and fin: "finite (active_pods (pods (kvs w)) (RS_ObjectMeta cur))"
    by (rule registry.Reconcile_result [OF etcd_registry [OF assms(1,2)] assms(6,3,4,5)]) (use assms(7) in auto)
  have "length new = nat (desired cur - int (card (active_pods (pods (kvs w)) (RS_ObjectMeta cur)))) * length (template_containers cur)"
    using arg_cong [OF new, of length] by (simp add: length_concat sum_list_replicate)
  moreover have "card (active_pods (pods (kvs w')) (RS_ObjectMeta cur)) = card (active_pods (pods (kvs w)) (RS_ObjectMeta cur)) + length new"
    using card_active_adds(1) [of "RS_ObjectMeta cur" new "pods (kvs w)" "pods (kvs w')"] adds fin name assms(8) by simp
  ultimately show "int (card (active_pods (pods (kvs w')) (RS_ObjectMeta cur))) =
      int (card (active_pods (pods (kvs w)) (RS_ObjectMeta cur))) +
      max 0 (desired cur - int (card (active_pods (pods (kvs w)) (RS_ObjectMeta cur)))) * int (length (template_containers cur))"
    by simp
  show "RS_Name cur = RS_Name rs" "store_inv (kvs w')" "up w'" by fact+
  show "\<exists>cur'. replicasets (kvs w') (RS_Name rs) = Some cur' \<and> RS_ObjectMeta cur' = RS_ObjectMeta cur \<and>
      RS_Spec cur' = RS_Spec cur"
    using rsets assms(7) by auto
qed

text \<open>A successful \<open>Reconcile\<close> of a set whose name has at most 58 bytes raises the number of its
  active pods by the number of missing replicas times the number of containers of the template: a
  template with two containers overshoots the desired count.\<close>

lemma Reconcile_pod_count:
  assumes "etcd_kv cl kvs up" "struct_validator V" "up w" "store_inv (kvs w)" "ascii (RS_Name rs)"
    and "Reconcile V (NewEtcdStorage cl) rs s w = Some ((None, s'), w')"
    and "replicasets (kvs w) (RS_Name rs) = Some cur" "length (RS_Name rs) \<le> MaxGeneratedNameLength"
  shows "int (card (active_pods (pods (kvs w')) (RS_ObjectMeta cur))) =
    int (card (active_pods (pods (kvs w)) (RS_ObjectMeta cur))) +
    max 0 (desired cur - int (card (active_pods (pods (kvs w)) (RS_ObjectMeta cur)))) * int (length (template_containers cur))"
  by (rule Reconcile_counts(1) [OF assms])


lemma demo_active:
  "active_pods (pods (mem_contents (demo_with rs))) meta = (if prefix (Meta_Name meta) ''web'' then {''web''} else {})"
  if "storable (ReplicaSetObj rs)"
  by (auto simp: active_pods_def demo_with_views [OF that] IsPodActiveAndOwnedBy_def IsOwnedBy_def Pod_IsActive_def
      demo_pending status_defs)

lemma demo_reconciled:
  assumes "storable (ReplicaSetObj rs)" "ascii (RS_Name rs)" "template_containers rs = [demo_container]"
    "desired rs = int (card (active_pods (pods (mem_contents (demo_with rs))) (RS_ObjectMeta rs))) + 1"
    "0 < length (RS_Name rs)"
  shows "\<exists>s' w'. Reconcile tag_validator mem_storage rs (sconst 0) (demo_with rs) = Some ((None, s'), w') \<and> mem_up w'"
proof (rule registry.Reconcile_one [OF etcd_registry [OF mem_laws] demo_with_created(2) [OF assms(1)]
      demo_with_views(4,3) [OF assms(1)] assms(2,3)])
  show "container_tags demo_container" by (simp add: container_tags_def demo_container_def)
  fix n assume "generated (RS_Name rs) n"
  then have "5 < length n"
    using assms(5) by (auto simp: generated_def names_consts)
  then show "pods (mem_contents (demo_with rs)) n = None"
    by (auto simp: demo_with_views [OF assms(1)])
qed (use assms usable_zero in auto)

text \<open>Replica sets for the witnesses: \<open>web\<close> misses one pod, \<open>we\<close> has the pod \<open>web\<close> for its own, and the
  third has a name of 64 bytes.\<close>

definition demo_set :: "string \<Rightarrow> int32 \<Rightarrow> ReplicaSet" where
  "demo_set name n = demo_rs\<lparr>RS_ObjectMeta := zero_ObjectMeta\<lparr>Meta_Name := name\<rparr>,
     RS_Spec := (RS_Spec demo_rs)\<lparr>RSSpec_Replicas := n\<rparr>\<rparr>"

lemma demo_set_simps [simp]:
  "RS_ObjectMeta (demo_set name n) = zero_ObjectMeta\<lparr>Meta_Name := name\<rparr>"
  "template_containers (demo_set name n) = [demo_container]" "RSSpec_Replicas (RS_Spec (demo_set name n)) = n"
  by (simp_all add: demo_set_def demo_rs_def zero_defs slice_def)

lemma demo_set_storable: "ascii name \<Longrightarrow> storable (ReplicaSetObj (demo_set name n))"
  using demo_storable(3) valid_utf8_ascii [of name] zero_ObjectMeta_ok [of name]
  by (simp add: demo_set_def ascii_def)

lemma demo_set_reconciled:
  assumes "ascii name" "0 < length name" "sint n = (if prefix name ''web'' then 2 else 1)"
  shows "\<exists>s' w'. Reconcile tag_validator mem_storage (demo_set name n) (sconst 0) (demo_with (demo_set name n))
    = Some ((None, s'), w') \<and> mem_up w'"
  by (rule demo_reconciled [OF demo_set_storable [OF assms(1)]])
    (use assms demo_active [OF demo_set_storable [OF assms(1)]] in simp_all)

lemma demo_ascii: "ascii ''web''" "ascii ''we''" "ascii (replicate 64 CHR ''a'')"
  by (simp_all add: ascii_def byte_in_def)

abbreviation demo_web :: ReplicaSet where
  "demo_web \<equiv> demo_set ''web'' 2"

lemmas demo_web_facts = demo_with_created(2) [OF demo_set_storable [OF demo_ascii(1), of 2]]
  demo_with_views(4) [OF demo_set_storable [OF demo_ascii(1), of 2]]

lemma demo_web_name: "ascii (RS_Name demo_web)" "length (RS_Name demo_web) \<le> MaxGeneratedNameLength"
  using demo_ascii(1) by (simp_all add: MaxGeneratedNameLength_def maxNameLength_def randomLength_def)

lemma demo_web_views: "replicasets (mem_contents (demo_with demo_web)) ''web'' = Some demo_web"
  "active_pods (pods (mem_contents (demo_with demo_web))) (zero_ObjectMeta\<lparr>Meta_Name := ''web''\<rparr>) = {''web''}"
  using demo_with_views(3) [OF demo_set_storable [OF demo_ascii(1)], of 2]
    demo_active [OF demo_set_storable [OF demo_ascii(1)], of 2] by simp_all

theorem Reconcile_effect_witness:
  "\<exists>s' w' new. Reconcile tag_validator mem_storage demo_web (sconst 0) (demo_with demo_web) = Some ((None, s'), w') \<and>
     adds ''web'' new (pods (mem_contents (demo_with demo_web))) (pods (mem_contents w')) \<and> map snd new = [demo_container]"
proof -
  obtain s' w' where r: "Reconcile tag_validator mem_storage demo_web (sconst 0) (demo_with demo_web) = Some ((None, s'), w')"
    using demo_set_reconciled [OF demo_ascii(1), of 2] by auto
  from Reconcile_effect [OF mem_laws, OF demo_web_facts demo_web_name(1) r] obtain cur new where
    n: "replicasets (mem_contents (demo_with demo_web)) (RS_Name demo_web) = Some cur"
      "adds (RS_Name demo_web) new (pods (mem_contents (demo_with demo_web))) (pods (mem_contents w'))"
      "map snd new = concat (replicate (nat (desired cur -
        int (card (active_pods (pods (mem_contents (demo_with demo_web))) (RS_ObjectMeta cur))))) (template_containers cur))"
    by blast
  have "cur = demo_web" using n(1) demo_web_views(1) by simp
  then have "map snd new = [demo_container]" using n(3) by (simp add: demo_web_views(2))
  then show ?thesis using r n(2) by (intro exI conjI) simp_all
qed

lemma Reconcile_pod_count_instance:
  "\<exists>s' w'. Reconcile tag_validator mem_storage demo_web (sconst 0) (demo_with demo_web) = Some ((None, s'), w') \<and>
     card (active_pods (pods (mem_contents w')) (RS_ObjectMeta demo_web)) = 2"
proof -
  obtain s' w' where r: "Reconcile tag_validator mem_storage demo_web (sconst 0) (demo_with demo_web) = Some ((None, s'), w')"
    using demo_set_reconciled [OF demo_ascii(1), of 2] by auto
  have "replicasets (mem_contents (demo_with demo_web)) (RS_Name demo_web) = Some demo_web"
    using demo_web_views(1) by simp
  from Reconcile_pod_count [OF mem_laws, OF demo_web_facts demo_web_name(1) r this demo_web_name(2)]
  have "card (active_pods (pods (mem_contents w')) (RS_ObjectMeta demo_web)) = 2"
    by (simp add: demo_web_views(2))
  with r show ?thesis by (intro exI conjI)
qed


text \<open>C32: ownership is a test on names, so the pods of a replica set count for every other set whose name is
  a prefix of its name. When the pods of \<open>b\<close> alone are as many as the set \<open>rs\<close> desires and the name of
  \<open>rs\<close> is a prefix of the name of \<open>b\<close>, a successful \<open>Reconcile\<close> of \<open>rs\<close> creates no pod.\<close>

theorem shared_prefix_starves:
  assumes "etcd_kv cl kvs up" "struct_validator V" "up w" "store_inv (kvs w)" "ascii (RS_Name rs)"
    and "Reconcile V (NewEtcdStorage cl) rs s w = Some ((None, s'), w')"
    and "replicasets (kvs w) (RS_Name rs) = Some cur" "prefix (RS_Name rs) (Meta_Name b)"
    and "desired cur \<le> int (card (active_pods (pods (kvs w)) b))"
  shows "pods (kvs w') = pods (kvs w)"
proof -
  obtain new where name: "RS_Name cur = RS_Name rs"
    and adds: "adds (RS_Name rs) new (pods (kvs w)) (pods (kvs w'))"
    and new: "map snd new = concat (replicate
      (nat (desired cur - int (card (active_pods (pods (kvs w)) (RS_ObjectMeta cur))))) (template_containers cur))"
    and fin: "finite (active_pods (pods (kvs w)) (RS_ObjectMeta cur))"
    by (rule registry.Reconcile_result [OF etcd_registry [OF assms(1,2)] assms(6,3,4,5)]) (use assms(7) in auto)
  have "active_pods (pods (kvs w)) b \<subseteq> active_pods (pods (kvs w)) (RS_ObjectMeta cur)"
    using assms(8) name by (auto simp: active_pods_def IsPodActiveAndOwnedBy_def IsOwnedBy_def intro: prefix_order.trans)
  then have "card (active_pods (pods (kvs w)) b) \<le> card (active_pods (pods (kvs w)) (RS_ObjectMeta cur))"
    by (rule card_mono [OF fin])
  then have "new = []" using new assms(9) by simp
  then show ?thesis using adds by simp
qed

theorem shared_prefix_starves_witness:
  "\<exists>s' w'. Reconcile tag_validator mem_storage (demo_set ''we'' 1) (sconst 0) (demo_with (demo_set ''we'' 1))
     = Some ((None, s'), w') \<and> pods (mem_contents w') = pods (mem_contents (demo_with (demo_set ''we'' 1)))"
proof -
  note st = demo_set_storable [OF demo_ascii(2), of 1]
  note up = demo_with_created(2) [OF st] and v = demo_with_views [OF st] and act = demo_active [OF st]
  obtain w' where r: "Reconcile tag_validator mem_storage (demo_set ''we'' 1) (sconst 0) (demo_with (demo_set ''we'' 1))
      = Some ((None, sconst 0), w')"
    using registry.Reconcile_stable [OF etcd_registry [OF mem_laws] up v(4) v(3), of "sconst 0"] act by auto
  show ?thesis
    using shared_prefix_starves [OF mem_laws, OF up v(4) _ r v(3), of "zero_ObjectMeta\<lparr>Meta_Name := ''web''\<rparr>"] r demo_ascii(2) act
    by (simp add: prefix_def)
qed

text \<open>C33: a replica set whose name has more than 63 bytes never converges: the generated names are cut, so
  its own pods are not counted, and each successful \<open>Reconcile\<close> of a set that misses pods adds pods
  and leaves the set of active pods, and with it the number that is missing, as it was.\<close>

theorem long_names_never_converge:
  assumes "etcd_kv cl kvs up" "struct_validator V" "up w" "store_inv (kvs w)" "ascii (RS_Name rs)"
    and "Reconcile V (NewEtcdStorage cl) rs s w = Some ((None, s'), w')"
    and "replicasets (kvs w) (RS_Name rs) = Some cur" "maxNameLength < length (RS_Name rs)"
  shows "active_pods (pods (kvs w')) (RS_ObjectMeta cur) = active_pods (pods (kvs w)) (RS_ObjectMeta cur) \<and>
    (int (card (active_pods (pods (kvs w)) (RS_ObjectMeta cur))) < desired cur \<and> template_containers cur \<noteq> [] \<longrightarrow>
      pods (kvs w') \<noteq> pods (kvs w))"
proof -
  obtain new where name: "RS_Name cur = RS_Name rs"
    and adds: "adds (RS_Name rs) new (pods (kvs w)) (pods (kvs w'))"
    and new: "map snd new = concat (replicate
      (nat (desired cur - int (card (active_pods (pods (kvs w)) (RS_ObjectMeta cur))))) (template_containers cur))"
    and fin: "finite (active_pods (pods (kvs w)) (RS_ObjectMeta cur))"
    by (rule registry.Reconcile_result [OF etcd_registry [OF assms(1,2)] assms(6,3,4,5)]) (use assms(7) in auto)
  have "pods (kvs w') \<noteq> pods (kvs w)" if "new \<noteq> []"
    using adds_new [OF adds, of "hd new"] that by auto
  moreover have "new \<noteq> []" if "int (card (active_pods (pods (kvs w)) (RS_ObjectMeta cur))) < desired cur"
      "template_containers cur \<noteq> []"
    using new that by auto
  ultimately show ?thesis
    using card_active_adds(2) [of "RS_ObjectMeta cur" new "pods (kvs w)" "pods (kvs w')"] adds fin name assms(8) by auto
qed

theorem long_names_never_converge_witness:
  "\<exists>s' w' rs. length (RS_Name rs) = 64 \<and>
     Reconcile tag_validator mem_storage rs (sconst 0) (demo_with rs) = Some ((None, s'), w') \<and>
     active_pods (pods (mem_contents w')) (RS_ObjectMeta rs) = {} \<and> pods (mem_contents w') \<noteq> pods (mem_contents (demo_with rs))"
proof -
  let ?n = "replicate 64 CHR ''a''"
  let ?rs = "demo_set ?n 1"
  note st = demo_set_storable [OF demo_ascii(3), of 1]
  have p: "\<not> prefix ?n ''web''" by (auto dest: prefix_length_le)
  obtain s' w' where r: "Reconcile tag_validator mem_storage ?rs (sconst 0) (demo_with ?rs) = Some ((None, s'), w')"
    using demo_set_reconciled [OF demo_ascii(3), of 1] p by auto
  have "active_pods (pods (mem_contents w')) (RS_ObjectMeta ?rs) = {} \<and> pods (mem_contents w') \<noteq> pods (mem_contents (demo_with ?rs))"
    using long_names_never_converge [OF mem_laws, OF demo_with_created(2) [OF st] demo_with_views(4) [OF st] _ r demo_with_views(3) [OF st]]
      demo_ascii(3) demo_active [OF st] p by (simp add: names_consts)
  then show ?thesis using r by (intro exI [of _ s'] exI [of _ w'] exI [of _ ?rs]) simp
qed



end
