(* ===== verification/Cluster.thy ===== *)
theory Cluster
  imports Control_Properties
begin

text \<open>
  The control plane as a transition system: the operations the API server, the scheduler and the
  replica set controller perform on the one store, in any order and with any failures of etcd. The
  invariant of the store holds in every state they reach, and the controller and the scheduler
  together bring the pods of a replica set onto nodes.
\<close>

subsection \<open>Steps\<close>

datatype cluster_op =
    OpCreatePod Pod | OpUpdatePod Pod | OpDeletePod string
  | OpCreateNode Node | OpUpdateNode Node | OpDeleteNode string
  | OpCreateReplicaSet ReplicaSet | OpUpdateReplicaSet ReplicaSet | OpDeleteReplicaSet string
  | OpSchedule rng | OpReconcile ReplicaSet rng

inductive cluster_step :: "validator \<Rightarrow> 'w Storage \<Rightarrow> 'w \<Rightarrow> cluster_op \<Rightarrow> 'w \<Rightarrow> bool" for V S where
  create_pod: "CreatePod V S pod w = (r, w') \<Longrightarrow> cluster_step V S w (OpCreatePod pod) w'"
| update_pod: "UpdatePod V S pod w = (e, w') \<Longrightarrow> cluster_step V S w (OpUpdatePod pod) w'"
| delete_pod: "DeletePod S n w = (e, w') \<Longrightarrow> cluster_step V S w (OpDeletePod n) w'"
| create_node: "CreateNode V S node w = (e, w') \<Longrightarrow> cluster_step V S w (OpCreateNode node) w'"
| update_node: "UpdateNode V S node w = (e, w') \<Longrightarrow> cluster_step V S w (OpUpdateNode node) w'"
| delete_node: "DeleteNode S n w = (e, w') \<Longrightarrow> cluster_step V S w (OpDeleteNode n) w'"
| create_rs: "ReplicaSet_Create S rs w = (e, w') \<Longrightarrow> cluster_step V S w (OpCreateReplicaSet rs) w'"
| update_rs: "ReplicaSet_Update S rs w = (e, w') \<Longrightarrow> cluster_step V S w (OpUpdateReplicaSet rs) w'"
| delete_rs: "ReplicaSet_Delete S n w = (e, w') \<Longrightarrow> cluster_step V S w (OpDeleteReplicaSet n) w'"
| schedule: "schedulePendingPods V S s w = Some (r, w') \<Longrightarrow> cluster_step V S w (OpSchedule s) w'"
| reconcile: "Reconcile V S rs s w = Some (r, w') \<Longrightarrow> cluster_step V S w (OpReconcile rs s) w'"

inductive_cases scheduleE: "cluster_step V S w (OpSchedule s) w'"
inductive_cases reconcileE: "cluster_step V S w (OpReconcile rs s) w'"

inductive cluster_run :: "validator \<Rightarrow> 'w Storage \<Rightarrow> 'w \<Rightarrow> cluster_op list \<Rightarrow> 'w \<Rightarrow> bool" for V S where
  run_nil: "cluster_run V S w [] w"
| run_cons: "cluster_step V S w x w' \<Longrightarrow> cluster_run V S w' xs w'' \<Longrightarrow> cluster_run V S w (x # xs) w''"

text \<open>The requests the invariant depends on: objects JSON can hold, node names that are one path
  element, ASCII names for replica sets.\<close>

fun good_op :: "cluster_op \<Rightarrow> bool" where
  "good_op (OpCreatePod pod) \<longleftrightarrow> storable (PodObj pod)"
| "good_op (OpUpdatePod pod) \<longleftrightarrow> storable (PodObj pod)"
| "good_op (OpCreateNode node) \<longleftrightarrow> storable (NodeObj node) \<and> plain_element (Node_Name node)"
| "good_op (OpUpdateNode node) \<longleftrightarrow> storable (NodeObj node) \<and> plain_element (Node_Name node)"
| "good_op (OpCreateReplicaSet rs) \<longleftrightarrow> storable (ReplicaSetObj rs) \<and> ascii (RS_Name rs)"
| "good_op (OpUpdateReplicaSet rs) \<longleftrightarrow> storable (ReplicaSetObj rs) \<and> ascii (RS_Name rs)"
| "good_op (OpDeleteNode n) \<longleftrightarrow> plain_element n"
| "good_op _ \<longleftrightarrow> True"

definition cluster_inv :: "bytes contents \<Rightarrow> bool" where
  "cluster_inv m \<longleftrightarrow> store_inv m \<and> valid_pods m \<and> (\<forall>n node. nodes m n = Some node \<longrightarrow> struct_tags (NodeObj node)) \<and>
     (\<forall>n rs. replicasets m n = Some rs \<longrightarrow> ascii n)"

subsection \<open>The invariant\<close>

lemma cluster_inv_store: "cluster_inv m \<Longrightarrow> store_inv m"
  by (simp add: cluster_inv_def)

lemma cluster_inv_empty: "cluster_inv (\<lambda>_. None)"
  using store_inv_empty by (simp add: cluster_inv_def valid_pods_def)

lemma cluster_inv_Pod:
  assumes "cluster_inv m" "stored (object_key (PodObj p)) (PodObj p) m m'" "storable (PodObj p)" "struct_tags (PodObj p)"
  shows "cluster_inv m'"
  using assms store_inv_stored [OF _ assms(2,3)] views_stored_Pod [OF assms(2,3)]
  by (auto simp: cluster_inv_def valid_pods_def)

lemma cluster_inv_Node:
  assumes "cluster_inv m" "stored (object_key (NodeObj n)) (NodeObj n) m m'" "storable (NodeObj n)" "struct_tags (NodeObj n)"
    "plain_element (Node_Name n)"
  shows "cluster_inv m'"
  using assms store_inv_stored [OF _ assms(2,3)] views_stored_Node [OF assms(2,3,5)]
  by (auto simp: cluster_inv_def valid_pods_def)

lemma cluster_inv_ReplicaSet:
  assumes "cluster_inv m" "stored (object_key (ReplicaSetObj r)) (ReplicaSetObj r) m m'" "storable (ReplicaSetObj r)"
    "ascii (RS_Name r)"
  shows "cluster_inv m'"
  using assms store_inv_stored [OF _ assms(2,3)] views_stored_ReplicaSet [OF assms(2,3)]
  by (auto simp: cluster_inv_def valid_pods_def)

lemma cluster_inv_del:
  assumes "cluster_inv m"
  shows "cluster_inv (m(PodRegistry_generateKey n := None))" "cluster_inv (m(ReplicaSetRegistry_generateKey n := None))"
    "plain_element n \<Longrightarrow> cluster_inv (m(generateKey nodePrefix n := None))"
  using assms by (auto simp: cluster_inv_def valid_pods_def views_del_Pod views_del_ReplicaSet views_del_Node)

lemma cluster_inv_rescheduled:
  assumes "cluster_inv m" "store_inv m'" "rescheduled m m'"
  shows "cluster_inv m'"
proof -
  have "struct_tags (PodObj q)" if q: "pods m' n = Some q" for n q
  proof -
    have "pods m n = Some q \<or> (\<exists>p node. pods m n = Some p \<and> q = assign p node)"
      using assms(3) q unfolding rescheduled_def by (metis option.inject)
    then show ?thesis
      using assms(1) unfolding cluster_inv_def valid_pods_def by (auto simp: assign_def)
  qed
  then show ?thesis
    using assms unfolding cluster_inv_def valid_pods_def rescheduled_def by simp
qed

context registry
begin

lemma CreatePod_inv:
  assumes "CreatePod V S pod w = ((r, pod'), w')" "cluster_inv (contents w)" "storable (PodObj pod)"
  shows "cluster_inv (contents w')"
proof (cases "struct_tags (PodObj pod)")
  case True
  then have "struct_tags (PodObj (with_status pod))" by simp
  from cluster_inv_Pod [OF assms(2) _ storable_with_status [OF assms(3)] this]
  show ?thesis
    using assms(1,2) CreatePod_ok(3) [of pod w pod' w'] CreatePod_err [of pod w _ pod' w'] by (cases r) auto
next
  case False
  then show ?thesis using CreatePod_invalid [OF _ assms(1)] assms(2) by simp
qed

lemma UpdatePod_inv:
  assumes "UpdatePod V S pod w = (r, w')" "cluster_inv (contents w)" "storable (PodObj pod)"
  shows "cluster_inv (contents w')"
proof (cases "struct_tags (PodObj pod)")
  case True
  show ?thesis
    using assms(1,2) cluster_inv_Pod [OF assms(2) _ assms(3) True] UpdatePod_ok(2) [of pod w w'] UpdatePod_err [of pod w _ w']
    by (cases r) auto
next
  case False
  then have "w' = w" using assms(1) Pod_Validate_None [of pod] by (auto simp: UpdatePod_def split: option.splits)
  then show ?thesis using assms(2) by simp
qed

lemma CreateNode_inv:
  assumes "CreateNode V S node w = (r, w')" "cluster_inv (contents w)" "storable (NodeObj node)" "plain_element (Node_Name node)"
  shows "cluster_inv (contents w')"
proof (cases "struct_tags (NodeObj node)")
  case True
  show ?thesis
    using assms(1,2) cluster_inv_Node [OF assms(2) _ assms(3) True assms(4)] CreateNode_ok(2) [of node w w']
      CreateNode_err [of node w _ w'] by (cases r) auto
next
  case False
  then have "contents w' = contents w"
    using assms(1) Node_Validate_None [of node]
    by (auto simp: CreateNode_def Let_def split: prod.splits sum.splits option.splits dest: get_frame)
  then show ?thesis using assms(2) by simp
qed

lemma UpdateNode_inv:
  assumes "UpdateNode V S node w = (r, w')" "cluster_inv (contents w)" "storable (NodeObj node)" "plain_element (Node_Name node)"
  shows "cluster_inv (contents w')"
proof (cases "struct_tags (NodeObj node)")
  case True
  show ?thesis
    using assms(1,2) cluster_inv_Node [OF assms(2) _ assms(3) True assms(4)] UpdateNode_ok(2) [of node w w']
      UpdateNode_err [of node w _ w'] by (cases r) auto
next
  case False
  then have "w' = w" using assms(1) Node_Validate_None [of node] by (auto simp: UpdateNode_def split: option.splits)
  then show ?thesis using assms(2) by simp
qed

lemma ReplicaSet_inv:
  assumes "cluster_inv (contents w)" "storable (ReplicaSetObj rs)" "ascii (RS_Name rs)"
  shows "ReplicaSet_Create S rs w = (r, w') \<Longrightarrow> cluster_inv (contents w')"
    "ReplicaSet_Update S rs w = (r, w') \<Longrightarrow> cluster_inv (contents w')"
  using assms(1) cluster_inv_ReplicaSet [OF assms(1) _ assms(2,3)] ReplicaSet_Create_ok [of rs w w']
    ReplicaSet_Create_err [of rs w _ w'] ReplicaSet_Update_ok(2) [of rs w w'] ReplicaSet_Update_err [of rs w _ w']
  by (cases r; auto)+

lemma Delete_inv:
  assumes "cluster_inv (contents w)"
  shows "DeletePod S n w = (r, w') \<Longrightarrow> cluster_inv (contents w')"
    "ReplicaSet_Delete S n w = (r, w') \<Longrightarrow> cluster_inv (contents w')"
    "DeleteNode S n w = (r, w') \<Longrightarrow> plain_element n \<Longrightarrow> cluster_inv (contents w')"
  using assms cluster_inv_del [OF assms, of n] DeletePod_ok [of n w w'] DeletePod_err [of n w _ w'] ReplicaSet_Delete_ok [of n w w']
    ReplicaSet_Delete_err [of n w _ w'] DeleteNode_ok [of n w w'] DeleteNode_err [of n w _ w']
  by (cases r; auto)+

lemma create_containers_inv:
  assumes "create_containers V S base cs s w = Some ((r, s'), w')" "cluster_inv (contents w)" "ascii base"
    "\<forall>c\<in>set cs. container_ok c"
  shows "cluster_inv (contents w')"
  using assms
proof (induction cs arbitrary: s w)
  case (Cons c cs)
  obtain name s1 where g: "generatePodNameFromReplicaSet base s = Some (name, s1)"
    using Cons.prems(1) by (auto split: option.splits)
  obtain e pod w1 where c: "CreatePod V S (replica_pod name c) w = ((e, pod), w1)"
    by (metis prod.collapse)
  have "storable (PodObj (replica_pod name c))"
    by (rule storable_replica_pod [OF ascii_generated [OF assms(3) generated_name [OF g]]]) (use Cons.prems(4) in simp)
  then have "cluster_inv (contents w1)"
    by (rule CreatePod_inv [OF c Cons.prems(2)])
  then show ?case
    using Cons.prems Cons.IH [of s1 w1] g c by (cases e) auto
qed simp

lemma create_replicas_inv:
  assumes "create_replicas V S base cs n s w = Some ((r, s'), w')" "cluster_inv (contents w)" "ascii base"
    "\<forall>c\<in>set cs. container_ok c"
  shows "cluster_inv (contents w')"
  using assms(1,2)
proof (induction n arbitrary: s w)
  case (Suc n)
  obtain e s1 w1 where c: "create_containers V S base cs s w = Some ((e, s1), w1)"
    using Suc.prems(1) by (cases "create_containers V S base cs s w") auto
  then show ?case
    using create_containers_inv [OF c Suc.prems(2) assms(3,4)] Suc.prems(1) Suc.IH [of s1 w1] by (cases e) auto
qed simp

lemma Reconcile_inv:
  assumes "Reconcile V S rs s w = Some ((r, s'), w')" "cluster_inv (contents w)"
  shows "cluster_inv (contents w')"
proof -
  obtain g w1 where g: "ReplicaSet_Get S (RS_Name rs) w = (g, w1)" by (metis prod.collapse)
  obtain l w2 where l: "ListPods S w1 = (l, w2)" by (metis prod.collapse)
  have f: "contents w1 = contents w" "contents w2 = contents w"
    using ReplicaSet_Get_frame [OF g] ListPods_frame [OF l] by simp_all
  show ?thesis
  proof (cases "\<exists>cur ps. g = Inr cur \<and> l = Inr ps")
    case True
    then obtain cur ps where gl: "g = Inr cur" "l = Inr ps" by blast
    have cur: "replicasets (contents w) (RS_Name rs) = Some cur"
      using ReplicaSet_Get_ok g gl(1) by blast
    have c: "storable (ReplicaSetObj cur)" "ascii (RS_Name cur)"
      using replicasets_kept(2) [of "contents w" "RS_Name rs" cur] cur assms(2) by (auto simp: cluster_inv_def)
    have upd: "cluster_inv (contents x')"
      if "ReplicaSet_Update S (set_status_replicas k cur) x = (e, x')" "cluster_inv (contents x)" for k x e x'
      by (rule ReplicaSet_inv(2) [OF that(2) _ _ that(1)]) (use c in simp_all)
    have mk: "cluster_inv (contents x')"
      if "create_replicas V S (RS_Name cur) (template_containers cur) k s w2 = Some ((e, s1), x')" for k e s1 x'
      by (rule create_replicas_inv [OF that _ c(2) template_container_ok [OF c(1)]]) (use f assms(2) in simp)
    show ?thesis
      using assms g l gl f
      by (auto simp: Reconcile_def getPodsForReplicaSet_def Let_def split: if_splits option.splits prod.splits
          dest: upd mk)
  next
    case False
    then show ?thesis
      using assms g l f by (cases g; cases l) (auto simp: Reconcile_def)
  qed
qed

lemma cluster_step_inv:
  assumes "cluster_step V S w x w'" "good_op x" "cluster_inv (contents w)"
  shows "cluster_inv (contents w')"
  using assms
proof (cases rule: cluster_step.cases)
  case (create_pod pod r)
  then show ?thesis using CreatePod_inv [of pod w "fst r" "snd r" w'] assms(2,3) by simp
next
  case (schedule s r)
  then have "store_inv (contents w') \<and> rescheduled (contents w) (contents w')"
    using schedulePendingPods_result [of s w "fst r" "snd r" w'] cluster_inv_store [OF assms(3)] by simp
  then show ?thesis using cluster_inv_rescheduled [OF assms(3)] by blast
next
  case (reconcile rs s r)
  then show ?thesis using Reconcile_inv [of rs s w "fst r" "snd r" w'] assms(3) by simp
qed (use assms(2,3) in \<open>auto dest: UpdatePod_inv CreateNode_inv UpdateNode_inv ReplicaSet_inv Delete_inv\<close>)

lemma cluster_run_inv:
  "cluster_run V S w xs w' \<Longrightarrow> list_all good_op xs \<Longrightarrow> cluster_inv (contents w) \<Longrightarrow> cluster_inv (contents w')"
  by (induction rule: cluster_run.induct) (auto dest: cluster_step_inv)

end

subsection \<open>Properties\<close>



lemma active_rescheduled:
  assumes "rescheduled m m'"
  shows "active_pods (pods m') meta = active_pods (pods m) meta"
proof -
  have "(\<exists>p. pods m' n = Some p \<and> IsPodActiveAndOwnedBy p meta) \<longleftrightarrow> (\<exists>p. pods m n = Some p \<and> IsPodActiveAndOwnedBy p meta)"
    for n
  proof -
    have "pods m' n = pods m n \<or> (\<exists>p x node. pods m n = Some p \<and> Pod_Status p = PodPending \<and> nodes m x = Some node \<and>
        pods m' n = Some (assign p node))"
      using assms unfolding rescheduled_def by blast
    then show ?thesis
    proof (elim disjE exE conjE)
      fix p x node
      assume "pods m n = Some p" "Pod_Status p = PodPending" "pods m' n = Some (assign p node)"
      then show ?thesis by (simp add: IsPodActiveAndOwnedBy_def IsOwnedBy_def Pod_IsActive_def status_defs)
    qed simp
  qed
  then show ?thesis by (simp add: active_pods_def)
qed


subsection \<open>Witnesses\<close>

lemma demo_runs:
  "cluster_run tag_validator mem_storage (mem_empty [])
     [OpCreatePod demo_pod, OpCreateNode demo_node, OpCreateReplicaSet demo_web] (demo_with demo_web)"
  "list_all good_op [OpCreatePod demo_pod, OpCreateNode demo_node, OpCreateReplicaSet demo_web]"
proof -
  note st = demo_set_storable [OF demo_ascii(1), of 2]
  show "list_all good_op [OpCreatePod demo_pod, OpCreateNode demo_node, OpCreateReplicaSet demo_web]"
    using demo_storable(1,2) st demo_plain demo_ascii(1) by (simp del: storable.simps)
  show "cluster_run tag_validator mem_storage (mem_empty [])
     [OpCreatePod demo_pod, OpCreateNode demo_node, OpCreateReplicaSet demo_web] (demo_with demo_web)"
    by (rule run_cons [OF create_pod [OF demo_created(1)]], rule run_cons [OF create_node [OF demo_nodes_created(1)]],
        rule run_cons [OF create_rs [OF demo_with_created(1) [OF st]] run_nil])
qed



lemma demo_web_inv: "cluster_inv (mem_contents (demo_with demo_web))"
  using registry.cluster_run_inv [OF etcd_registry [OF mem_laws] demo_runs] cluster_inv_empty by simp


end
