(* ===== verification/Kubelet.thy ===== *)
theory Kubelet
  imports Runtime Names
begin

text \<open>
  \<open>pkg/kubelet/kubelet.go\<close>. The docker client and the HTTP transport are outside the repository: records
  of operations on a world \<open>'w\<close>. The map \<open>k.pods\<close> is the kubelet's state; a \<open>range\<close> over it visits the
  keys in an order the runtime chooses, given as a list. A \<open>panic\<close> and a nil dereference are
  outcomes of the model.
\<close>

subsection \<open>The services a kubelet uses\<close>

record 'w http_client =
  http_Post :: "string \<Rightarrow> bytes \<Rightarrow> 'w \<Rightarrow> (error + int \<times> bytes) \<times> 'w"
  http_Get :: "string \<Rightarrow> 'w \<Rightarrow> (error + int \<times> bytes) \<times> 'w"
  http_NewRequest :: "string \<Rightarrow> error option"
  http_Put :: "string \<Rightarrow> bytes \<Rightarrow> 'w \<Rightarrow> (error + int \<times> bytes) \<times> 'w"

record container_summary =
  cs_ID :: string
  cs_Labels :: "(string \<times> string) list"
  cs_State :: string

text \<open>\<open>ImagePull\<close> gives a stream: its result carries what copying the stream returns.\<close>

record 'w docker_client =
  docker_ImagePull :: "string \<Rightarrow> 'w \<Rightarrow> (error + error option) \<times> 'w"
  docker_ContainerCreate :: "string \<Rightarrow> (string \<times> string) list \<Rightarrow> string \<Rightarrow> 'w \<Rightarrow> (error + string) \<times> 'w"
  docker_ContainerStart :: "string \<Rightarrow> 'w \<Rightarrow> error option \<times> 'w"
  docker_ContainerList :: "bool \<Rightarrow> 'w \<Rightarrow> (error + container_summary list) \<times> 'w"
  docker_ContainerInspect :: "string \<Rightarrow> 'w \<Rightarrow> (error + bool \<times> int) \<times> 'w"
  docker_IsErrNotFound :: "error \<Rightarrow> bool"
  docker_ContainerRemove :: "string \<Rightarrow> 'w \<Rightarrow> error option \<times> 'w"

record Kubelet =
  k_nodeName :: string
  k_apiServerURL :: string
  k_pods :: "string \<Rightarrow> Pod option"

definition NewKubelet :: "string \<Rightarrow> string \<Rightarrow> error option \<Rightarrow> error + Kubelet" where
  "NewKubelet nodeName apiServerURL dockerErr =
     (case dockerErr of
        Some err \<Rightarrow> Inl (Errorf None ''failed to create Docker client'' (Some err))
      | None \<Rightarrow> Inr \<lparr>k_nodeName = nodeName, k_apiServerURL = apiServerURL, k_pods = (\<lambda>_. None)\<rparr>)"

definition GetNodeName :: "Kubelet \<Rightarrow> string" where
  "GetNodeName k = k_nodeName k"

definition StatusCreated :: int where "StatusCreated = 201"
definition StatusOK :: int where "StatusOK = 200"

subsection \<open>Registration\<close>

definition registerNode :: "'w http_client \<Rightarrow> Kubelet \<Rightarrow> 'w \<Rightarrow> error option \<times> 'w" where
  "registerNode H k w =
     (let node = zero_Node\<lparr>Node_ObjectMeta := zero_ObjectMeta\<lparr>Meta_Name := k_nodeName k\<rparr>, Node_Status := NodeReady\<rparr>
      in case Encode (NodeObj node) of
           Inl err \<Rightarrow> (Some (Errorf (Some err) ''failed to marshal node data'' None), w)
         | Inr jsonData \<Rightarrow>
             (case http_Post H (''http://'' @ k_apiServerURL k @ ''/api/v1/nodes'') jsonData w of
                (Inl err, w1) \<Rightarrow> (Some (Errorf (Some err) ''failed to send request to API server'' None), w1)
              | (Inr (status, body), w1) \<Rightarrow>
                  (if status \<noteq> StatusCreated
                   then (Some (Errorf None (''failed to register node, status code: '' @ show_int status) None), w1)
                   else (None, w1))))"

text \<open>\<open>Start\<close> registers the node and then spawns the two loops, which run when it returns \<open>nil\<close>.\<close>

definition Kubelet_Start :: "'w http_client \<Rightarrow> Kubelet \<Rightarrow> 'w \<Rightarrow> error option \<times> 'w" where
  "Kubelet_Start H k w =
     (case registerNode H k w of
        (Some err, w1) \<Rightarrow> (Some (Errorf (Some err) ''failed to register node'' None), w1)
      | (None, w1) \<Rightarrow> (None, w1))"

subsection \<open>Pod assignments\<close>

text \<open>\<open>json.Decoder.Decode\<close> reads the first value of the stream: the shortest prefix that is a value.\<close>

fun first_value :: "nat \<Rightarrow> bytes \<Rightarrow> bytes \<Rightarrow> json option" where
  "first_value 0 pre rest = parse_json pre"
| "first_value (Suc n) pre rest =
     (case parse_json pre of
        Some j \<Rightarrow> Some j
      | None \<Rightarrow> (case rest of [] \<Rightarrow> None | c # cs \<Rightarrow> first_value n (pre @ [c]) cs))"

definition dec_ptr :: "'a dec \<Rightarrow> 'a \<Rightarrow> 'a option dec" where
  "dec_ptr d zero j old =
     (if j = JNull then Some None else map_option Some (d j (case old of None \<Rightarrow> zero | Some x \<Rightarrow> x)))"

definition decode_pods :: "bytes \<Rightarrow> error + Pod option list" where
  "decode_pods body =
     (case first_value (length body) [] body of
        None \<Rightarrow> Inl (JsonError SyntaxError)
      | Some j \<Rightarrow>
          (case dec_slice (dec_ptr dec_Pod zero_Pod) None j None of
             None \<Rightarrow> Inl (JsonError DecodeError)
           | Some ps \<Rightarrow> Inr (slice ps)))"

definition getPodAssignments :: "'w http_client \<Rightarrow> Kubelet \<Rightarrow> 'w \<Rightarrow> (error + Pod option list) \<times> 'w" where
  "getPodAssignments H k w =
     (case http_Get H (''http://'' @ k_apiServerURL k @ ''/api/v1/pods?nodeName='' @ k_nodeName k) w of
        (Inl err, w1) \<Rightarrow> (Inl err, w1)
      | (Inr (status, body), w1) \<Rightarrow> (decode_pods body, w1))"

text \<open>The kubelet after \<open>runNewPods\<close> and the pods it starts a goroutine for, in order; \<open>None\<close> is the
  panic on a nil pod.\<close>

fun runNewPods :: "Kubelet \<Rightarrow> Pod option list \<Rightarrow> (Kubelet \<times> Pod list) option" where
  "runNewPods k [] = Some (k, [])"
| "runNewPods k (None # ps) = None"
| "runNewPods k (Some pod # ps) =
     (if k_pods k (Pod_Name pod) = None
      then map_option (\<lambda>(k', started). (k', pod # started))
             (runNewPods (k\<lparr>k_pods := (k_pods k)(Pod_Name pod \<mapsto> pod)\<rparr>) ps)
      else runNewPods k ps)"

text \<open>One turn of the loop of \<open>watchPods\<close>, and the loop for a number of turns: the pods started at each.\<close>

definition watch_poll :: "'w http_client \<Rightarrow> Kubelet \<Rightarrow> 'w \<Rightarrow> ((Kubelet \<times> Pod list) \<times> 'w) option" where
  "watch_poll H k w =
     (case getPodAssignments H k w of
        (Inl err, w1) \<Rightarrow> Some ((k, []), w1)
      | (Inr ps, w1) \<Rightarrow> map_option (\<lambda>r. (r, w1)) (runNewPods k ps))"

fun watchPods :: "nat \<Rightarrow> 'w http_client \<Rightarrow> Kubelet \<Rightarrow> 'w \<Rightarrow> ((Kubelet \<times> Pod list list) \<times> 'w) option" where
  "watchPods 0 H k w = Some ((k, []), w)"
| "watchPods (Suc n) H k w =
     (case watch_poll H k w of
        None \<Rightarrow> None
      | Some ((k1, started), w1) \<Rightarrow>
          map_option (\<lambda>((k', sts), w'). ((k', started # sts), w')) (watchPods n H k1 w1))"

subsection \<open>Containers\<close>

datatype start_outcome = StartOk | StartErr error | StartPanic error

definition pod_labels :: "Pod \<Rightarrow> string \<Rightarrow> (string \<times> string) list" where
  "pod_labels pod containerName =
     [(''gokube.pod.name'', Pod_Name pod),
      (''gokube.pod.namespace'', Meta_Namespace (Pod_ObjectMeta pod)),
      (''gokube.container.name'', containerName)]"

definition StartContainer ::
  "'w docker_client \<Rightarrow> Pod \<Rightarrow> string \<Rightarrow> string \<Rightarrow> rng \<Rightarrow> 'w \<Rightarrow> ((start_outcome \<times> rng) \<times> 'w) option" where
  "StartContainer D pod containerName imageName s w =
     (case docker_ImagePull D imageName w of
        (Inl err, w1) \<Rightarrow> Some ((StartPanic err, s), w1)
      | (Inr (Some err), w1) \<Rightarrow>
          Some ((StartErr (Errorf None (''failed to pull image '' @ imageName) (Some err)), s), w1)
      | (Inr None, w1) \<Rightarrow>
          (case GenerateName (Pod_Name pod @ ''-'' @ containerName) s of
             None \<Rightarrow> None
           | Some (uniqueContainerName, s1) \<Rightarrow>
               (case docker_ContainerCreate D imageName (pod_labels pod containerName) uniqueContainerName w1 of
                  (Inl err, w2) \<Rightarrow>
                    Some ((StartErr (Errorf None (''failed to create container '' @ containerName) (Some err)), s1), w2)
                | (Inr cid, w2) \<Rightarrow>
                    (case docker_ContainerStart D cid w2 of
                       (Some err, w3) \<Rightarrow>
                         Some ((StartErr (Errorf None (''failed to start container '' @ containerName) (Some err)), s1), w3)
                     | (None, w3) \<Rightarrow> Some ((StartOk, s1), w3)))))"

text \<open>\<open>runPod\<close> logs the errors of its containers; a panic ends the process. The outcomes are listed.\<close>

fun run_containers ::
  "'w docker_client \<Rightarrow> Pod \<Rightarrow> Container list \<Rightarrow> rng \<Rightarrow> 'w \<Rightarrow> ((start_outcome list \<times> rng) \<times> 'w) option" where
  "run_containers D pod [] s w = Some (([], s), w)"
| "run_containers D pod (c # cs) s w =
     (case StartContainer D pod (Container_Name c) (Container_Image c) s w of
        None \<Rightarrow> None
      | Some ((StartPanic err, s1), w1) \<Rightarrow> Some (([StartPanic err], s1), w1)
      | Some ((r, s1), w1) \<Rightarrow>
          map_option (\<lambda>((rs, s'), w'). ((r # rs, s'), w')) (run_containers D pod cs s1 w1))"

definition runPod :: "'w docker_client \<Rightarrow> Pod \<Rightarrow> rng \<Rightarrow> 'w \<Rightarrow> ((start_outcome list \<times> rng) \<times> 'w) option" where
  "runPod D pod s w = run_containers D pod (slice (PodSpec_Containers (Pod_Spec pod))) s w"

record ContainerStatus =
  PodName :: string
  ContainerName :: string
  ContainerID :: string
  Status :: string

definition label :: "container_summary \<Rightarrow> string \<Rightarrow> string" where
  "label c l = (case map_of (cs_Labels c) l of None \<Rightarrow> '''' | Some v \<Rightarrow> v)"

text \<open>One turn of the loop of \<open>ListContainers\<close>: the inner loop stops at the first match.\<close>

definition container_status :: "Kubelet \<Rightarrow> container_summary \<Rightarrow> ContainerStatus list" where
  "container_status k c =
     (case map_of (cs_Labels c) ''gokube.pod.name'' of
        None \<Rightarrow> []
      | Some podName \<Rightarrow>
          (case k_pods k podName of
             None \<Rightarrow> []
           | Some pod \<Rightarrow>
               (if Pod_NodeName pod \<noteq> k_nodeName k then []
                else (case find (\<lambda>spec. Container_Name spec = label c ''gokube.container.name'')
                             (slice (PodSpec_Containers (Pod_Spec pod))) of
                        None \<Rightarrow> []
                      | Some spec \<Rightarrow>
                          [\<lparr>PodName = podName, ContainerName = Container_Name spec, ContainerID = cs_ID c,
                            Status = cs_State c\<rparr>]))))"

definition ListContainers ::
  "'w docker_client \<Rightarrow> Kubelet \<Rightarrow> 'w \<Rightarrow> (error + ContainerStatus list) \<times> 'w" where
  "ListContainers D k w =
     (case docker_ContainerList D False w of
        (Inl err, w1) \<Rightarrow> (Inl (Errorf None ''failed to list containers'' (Some err)), w1)
      | (Inr cs, w1) \<Rightarrow> (Inr (concat (map (container_status k) cs)), w1))"

subsection \<open>Pod status\<close>

record containerState =
  exists :: bool
  running :: bool
  exitCode :: int

definition getContainerState :: "'w docker_client \<Rightarrow> string \<Rightarrow> 'w \<Rightarrow> (error + containerState) \<times> 'w" where
  "getContainerState D containerName w =
     (case docker_ContainerInspect D containerName w of
        (Inl err, w1) \<Rightarrow>
          (if docker_IsErrNotFound D err then (Inr \<lparr>exists = False, running = False, exitCode = 0\<rparr>, w1)
           else (Inl err, w1))
      | (Inr (run, code), w1) \<Rightarrow> (Inr \<lparr>exists = True, running = run, exitCode = code\<rparr>, w1))"

fun allContainersSucceeded :: "containerState list \<Rightarrow> bool" where
  "allContainersSucceeded [] = True"
| "allContainersSucceeded (state # states) = (if exitCode state \<noteq> 0 then False else allContainersSucceeded states)"

fun anyContainerRunning :: "containerState list \<Rightarrow> bool" where
  "anyContainerRunning [] = False"
| "anyContainerRunning (state # states) = (if running state then True else anyContainerRunning states)"

fun allContainersFailed :: "containerState list \<Rightarrow> bool" where
  "allContainersFailed [] = True"
| "allContainersFailed (state # states) =
     (if exists state \<and> exitCode state = 0 then False else allContainersFailed states)"

fun anyContainerExists :: "containerState list \<Rightarrow> bool" where
  "anyContainerExists [] = False"
| "anyContainerExists (state # states) = (if exists state then True else anyContainerExists states)"

definition determinePodStatus :: "containerState list \<Rightarrow> PodStatus" where
  "determinePodStatus states =
     (if anyContainerRunning states then PodRunning
      else if allContainersFailed states \<and> anyContainerExists states then PodFailed
      else if allContainersSucceeded states then PodSucceeded
      else PodScheduled)"

fun container_states ::
  "'w docker_client \<Rightarrow> Container list \<Rightarrow> 'w \<Rightarrow> (error + containerState list) \<times> 'w" where
  "container_states D [] w = (Inr [], w)"
| "container_states D (c # cs) w =
     (case getContainerState D (Container_Name c) w of
        (Inl err, w1) \<Rightarrow> (Inl (Errorf (Some err) (''failed to get state for container '' @ Container_Name c) None), w1)
      | (Inr state, w1) \<Rightarrow>
          (case container_states D cs w1 of
             (Inl err, w2) \<Rightarrow> (Inl err, w2)
           | (Inr states, w2) \<Rightarrow> (Inr (state # states), w2)))"

definition getPodStatus :: "'w docker_client \<Rightarrow> Pod \<Rightarrow> 'w \<Rightarrow> (PodStatus \<times> error option) \<times> 'w" where
  "getPodStatus D pod w =
     (case container_states D (slice (PodSpec_Containers (Pod_Spec pod))) w of
        (Inl err, w1) \<Rightarrow> ((PodRunning, Some err), w1)
      | (Inr states, w1) \<Rightarrow> ((determinePodStatus states, None), w1))"

definition updatePodStatus :: "'w http_client \<Rightarrow> Kubelet \<Rightarrow> Pod \<Rightarrow> 'w \<Rightarrow> error option \<times> 'w" where
  "updatePodStatus H k pod w =
     (let url = ''http://'' @ k_apiServerURL k @ ''/api/v1/pods/'' @ Pod_Name pod
      in case Encode (PodObj pod) of
           Inl err \<Rightarrow> (Some (Errorf (Some err) ''failed to marshal pod data'' None), w)
         | Inr jsonData \<Rightarrow>
             (case http_NewRequest H url of
                Some err \<Rightarrow> (Some (Errorf (Some err) ''failed to create request'' None), w)
              | None \<Rightarrow>
                  (case http_Put H url jsonData w of
                     (Inl err, w1) \<Rightarrow> (Some (Errorf (Some err) ''failed to send request to API server'' None), w1)
                   | (Inr (status, body), w1) \<Rightarrow>
                       (if status \<noteq> StatusOK
                        then (Some (Errorf None (''failed to update pod status, status code: '' @ show_int status) None), w1)
                        else (None, w1)))))"

text \<open>One tick of \<open>updatePodStatuses\<close>: the pods in the order the map yields them.\<close>

fun updatePodStatuses ::
  "'w docker_client \<Rightarrow> 'w http_client \<Rightarrow> string list \<Rightarrow> Kubelet \<Rightarrow> 'w \<Rightarrow> Kubelet \<times> 'w" where
  "updatePodStatuses D H [] k w = (k, w)"
| "updatePodStatuses D H (n # ns) k w =
     (case k_pods k n of
        None \<Rightarrow> updatePodStatuses D H ns k w
      | Some pod \<Rightarrow>
          (case getPodStatus D pod w of
             ((status, Some err), w1) \<Rightarrow> updatePodStatuses D H ns k w1
           | ((status, None), w1) \<Rightarrow>
               (if Pod_Status pod \<noteq> status then
                  (let pod1 = pod\<lparr>Pod_Status := status\<rparr>;
                       k1 = k\<lparr>k_pods := (k_pods k)(n \<mapsto> pod1)\<rparr>
                   in case updatePodStatus H k1 pod1 w1 of
                        (e, w2) \<Rightarrow> updatePodStatuses D H ns k1 w2)
                else updatePodStatuses D H ns k w1)))"

text \<open>The two goroutines of \<open>Start\<close> together: turns of \<open>watchPods\<close> and ticks of \<open>updatePodStatuses\<close> in any order, each
  turn and each tick as a whole. The pods started are listed.\<close>

datatype kubelet_event = Poll | StatusTick "string list"

fun kubelet_run ::
  "'w docker_client \<Rightarrow> 'w http_client \<Rightarrow> kubelet_event list \<Rightarrow> Kubelet \<Rightarrow> 'w \<Rightarrow> ((Kubelet \<times> Pod list) \<times> 'w) option" where
  "kubelet_run D H [] k w = Some ((k, []), w)"
| "kubelet_run D H (Poll # evs) k w =
     (case watch_poll H k w of
        None \<Rightarrow> None
      | Some ((k1, started), w1) \<Rightarrow>
          map_option (\<lambda>((k', ps), w'). ((k', started @ ps), w')) (kubelet_run D H evs k1 w1))"
| "kubelet_run D H (StatusTick ns # evs) k w =
     (case updatePodStatuses D H ns k w of (k1, w1) \<Rightarrow> kubelet_run D H evs k1 w1)"

definition owns_container :: "Kubelet \<Rightarrow> container_summary \<Rightarrow> bool" where
  "owns_container k c =
     (case map_of (cs_Labels c) ''gokube.pod.name'' of
        None \<Rightarrow> False
      | Some podName \<Rightarrow>
          (case k_pods k podName of None \<Rightarrow> False | Some pod \<Rightarrow> Pod_NodeName pod = k_nodeName k))"

fun cleanup_loop :: "'w docker_client \<Rightarrow> Kubelet \<Rightarrow> container_summary list \<Rightarrow> 'w \<Rightarrow> 'w" where
  "cleanup_loop D k [] w = w"
| "cleanup_loop D k (c # cs) w =
     (if owns_container k c then
        (case docker_ContainerRemove D (cs_ID c) w of (e, w1) \<Rightarrow> cleanup_loop D k cs w1)
      else cleanup_loop D k cs w)"

definition CleanupContainers :: "'w docker_client \<Rightarrow> Kubelet \<Rightarrow> 'w \<Rightarrow> error option \<times> 'w" where
  "CleanupContainers D k w =
     (case docker_ContainerList D True w of
        (Inl err, w1) \<Rightarrow> (Some (Errorf None ''error listing containers for cleanup'' (Some err)), w1)
      | (Inr cs, w1) \<Rightarrow> (None, cleanup_loop D k cs w1))"

end
