(* ===== verification/Kubelet_Properties.thy ===== *)
theory Kubelet_Properties
  imports Kubelet
begin

text \<open>
  Properties of the kubelet: the status it computes, the pods it starts, the containers it lists and
  cleans up, and what happens between starting a container and asking for its state. The last
  needs a docker daemon: \<open>mem_docker\<close> keeps containers by name and does not stand for code of the
  repository.
\<close>

subsection \<open>Status\<close>

lemma container_predicates:
  "allContainersSucceeded states \<longleftrightarrow> (\<forall>c\<in>set states. exitCode c = 0)"
  "anyContainerRunning states \<longleftrightarrow> (\<exists>c\<in>set states. running c)"
  "allContainersFailed states \<longleftrightarrow> (\<forall>c\<in>set states. exists c \<longrightarrow> exitCode c \<noteq> 0)"
  "anyContainerExists states \<longleftrightarrow> (\<exists>c\<in>set states. exists c)"
  by (induction states) auto

lemma states_distinct: "PodRunning \<noteq> PodFailed" "PodRunning \<noteq> PodSucceeded" "PodRunning \<noteq> PodScheduled"
  "PodFailed \<noteq> PodSucceeded" "PodFailed \<noteq> PodScheduled" "PodSucceeded \<noteq> PodScheduled"
  by (simp_all add: status_defs)



text \<open>Two statuses the code computes are not those the constants document. A pod none of whose
  containers exists (nothing was started yet) is \<open>Succeeded\<close>; and a pod whose containers have all
  terminated, one of them in failure, is \<open>Scheduled\<close>, where the comment on \<open>PodFailed\<close> says it failed.\<close>

lemma status_against_documentation:
  "determinePodStatus (replicate n \<lparr>exists = False, running = False, exitCode = 0\<rparr>) = PodSucceeded \<and>
   determinePodStatus
     (replicate (Suc a) \<lparr>exists = True, running = False, exitCode = 0\<rparr> @
      replicate (Suc b) \<lparr>exists = True, running = False, exitCode = 1 + int c\<rparr>) = PodScheduled"
  by (auto simp: determinePodStatus_def container_predicates)

subsection \<open>Pods started\<close>

lemma runNewPods_result:
  "runNewPods k ps = Some (k', started) \<Longrightarrow>
     distinct (map Pod_Name started) \<and> (\<forall>p\<in>set started. k_pods k (Pod_Name p) = None \<and> Some p \<in> set ps) \<and>
     k_nodeName k' = k_nodeName k \<and> k_apiServerURL k' = k_apiServerURL k \<and>
     (\<forall>n. k_pods k' n = (case find (\<lambda>p. Pod_Name p = n) started of Some p \<Rightarrow> Some p | None \<Rightarrow> k_pods k n)) \<and>
     (\<forall>p. Some p \<in> set ps \<longrightarrow> k_pods k' (Pod_Name p) \<noteq> None)"
proof (induction k ps arbitrary: k' started rule: runNewPods.induct)
  case (3 k pod ps)
  show ?case
  proof (cases "k_pods k (Pod_Name pod) = None")
    case True
    let ?k = "k\<lparr>k_pods := (k_pods k)(Pod_Name pod \<mapsto> pod)\<rparr>"
    obtain started1 where r: "runNewPods ?k ps = Some (k', started1)" "started = pod # started1"
      using 3(3) True by auto
    note IH = 3(1) [OF True r(1)]
    have "k_pods k' (Pod_Name pod) \<noteq> None"
      using IH by (auto split: option.splits)
    moreover have "\<forall>p\<in>set started1. Pod_Name p \<noteq> Pod_Name pod"
      using IH by (auto split: if_splits)
    moreover have "\<forall>n. k_pods k' n = (case find (\<lambda>p. Pod_Name p = n) started of Some p \<Rightarrow> Some p | None \<Rightarrow> k_pods k n)"
    proof
      fix n
      have "find (\<lambda>p. Pod_Name p = Pod_Name pod) started1 = None"
        using calculation(2) by (auto simp: find_None_iff)
      then show "k_pods k' n = (case find (\<lambda>p. Pod_Name p = n) started of Some p \<Rightarrow> Some p | None \<Rightarrow> k_pods k n)"
        using IH r(2) by (auto split: option.splits)
    qed
    ultimately show ?thesis
      using IH r(2) True by (auto split: if_splits)
  next
    case False
    then have r: "runNewPods k ps = Some (k', started)" using 3(3) by (auto split: if_splits)
    note IH = 3(2) [OF False r]
    have "k_pods k' (Pod_Name pod) \<noteq> None" using IH False by (auto split: option.splits)
    then show ?thesis using IH by auto
  qed
qed auto

lemma runNewPods_old:
  assumes "runNewPods k ps = Some (k', started)" "k_pods k m \<noteq> None"
  shows "k_pods k' m = k_pods k m"
proof -
  have "find (\<lambda>p. Pod_Name p = m) started = None"
    using runNewPods_result [OF assms(1)] assms(2) by (auto simp: find_None_iff)
  then show ?thesis using runNewPods_result [OF assms(1)] by simp
qed

lemma runNewPods_new:
  assumes "runNewPods k ps = Some (k', started)" "p \<in> set started"
  shows "k_pods k' (Pod_Name p) = Some p"
proof -
  note R = runNewPods_result [OF assms(1)]
  obtain q where q: "find (\<lambda>x. Pod_Name x = Pod_Name p) started = Some q"
    by (cases "find (\<lambda>x. Pod_Name x = Pod_Name p) started") (use assms(2) in \<open>auto simp: find_None_iff\<close>)
  then have "q \<in> set started" "Pod_Name q = Pod_Name p"
    by (auto simp: find_Some_iff)
  then have "q = p"
    using R assms(2) by (auto simp: distinct_map dest: inj_onD)
  then show ?thesis using R q by simp
qed

text \<open>The pods of \<open>k\<close> are those of \<open>k'\<close>, but for their statuses.\<close>

definition keeps_pods :: "Kubelet \<Rightarrow> Kubelet \<Rightarrow> bool" where
  "keeps_pods k k' \<longleftrightarrow> (\<forall>m p. k_pods k m = Some p \<longrightarrow> (\<exists>s. k_pods k' m = Some (p\<lparr>Pod_Status := s\<rparr>)))"

lemma keeps_pods_refl: "keeps_pods k k"
  unfolding keeps_pods_def by (metis Pod.surjective Pod.update_convs(4))

lemma keeps_pods_trans:
  assumes "keeps_pods k1 k2" "keeps_pods k2 k3"
  shows "keeps_pods k1 k3"
  unfolding keeps_pods_def
proof (intro allI impI)
  fix m p assume "k_pods k1 m = Some p"
  then obtain s where "k_pods k2 m = Some (p\<lparr>Pod_Status := s\<rparr>)" using assms(1) by (auto simp: keeps_pods_def)
  then obtain t where "k_pods k3 m = Some (p\<lparr>Pod_Status := s\<rparr>\<lparr>Pod_Status := t\<rparr>)"
    using assms(2) unfolding keeps_pods_def by blast
  then show "\<exists>s. k_pods k3 m = Some (p\<lparr>Pod_Status := s\<rparr>)" by (intro exI [of _ t]) simp
qed

lemma updatePodStatuses_keeps:
  "updatePodStatuses D H ns k w = (k', w') \<Longrightarrow> keeps_pods k k' \<and> dom (k_pods k') = dom (k_pods k)"
proof (induction ns arbitrary: k w)
  case (Cons n ns)
  show ?case
  proof (cases "k_pods k n")
    case None
    then show ?thesis using Cons by simp
  next
    case (Some pod)
    obtain st e w1 where g: "getPodStatus D pod w = ((st, e), w1)" by (metis prod.collapse)
    let ?k1 = "k\<lparr>k_pods := (k_pods k)(n \<mapsto> pod\<lparr>Pod_Status := st\<rparr>)\<rparr>"
    have "keeps_pods k ?k1"
      using Some keeps_pods_refl [of k] by (auto simp: keeps_pods_def)
    moreover have "dom (k_pods ?k1) = dom (k_pods k)" using Some by auto
    moreover obtain k2 w2 where "k2 = k \<or> k2 = ?k1" "updatePodStatuses D H ns k2 w2 = (k', w')"
      using Cons.prems Some g
      by (cases e; cases "Pod_Status pod = st") (auto simp: Let_def split: prod.splits)
    ultimately show ?thesis
      using Cons.IH [of k2 w2] keeps_pods_trans [of k ?k1 k'] by auto
  qed
qed (simp add: keeps_pods_refl)

lemma watch_poll_result:
  assumes "watch_poll H k w = Some ((k', started), w')"
  shows "distinct (map Pod_Name started)" "\<forall>p\<in>set started. k_pods k (Pod_Name p) = None \<and> k_pods k' (Pod_Name p) = Some p"
    "keeps_pods k k'"
proof -
  consider "started = []" "k' = k" | ps where "runNewPods k ps = Some (k', started)"
    using assms by (auto simp: watch_poll_def split: prod.splits sum.splits)
  then have "distinct (map Pod_Name started) \<and>
      (\<forall>p\<in>set started. k_pods k (Pod_Name p) = None \<and> k_pods k' (Pod_Name p) = Some p) \<and> keeps_pods k k'"
  proof cases
    case 2
    have "keeps_pods k k'"
      using runNewPods_old [OF 2] keeps_pods_refl [of k] unfolding keeps_pods_def by (metis option.distinct(1))
    then show ?thesis using runNewPods_result [OF 2] runNewPods_new [OF 2] by blast
  qed (simp add: keeps_pods_refl)
  then show "distinct (map Pod_Name started)" "\<forall>p\<in>set started. k_pods k (Pod_Name p) = None \<and> k_pods k' (Pod_Name p) = Some p"
    "keeps_pods k k'" by blast+
qed

lemma kubelet_run_result:
  "kubelet_run D H evs k w = Some ((k', ps), w') \<Longrightarrow>
     distinct (map Pod_Name ps) \<and> keeps_pods k k' \<and>
     (\<forall>p\<in>set ps. k_pods k (Pod_Name p) = None \<and> (\<exists>s. k_pods k' (Pod_Name p) = Some (p\<lparr>Pod_Status := s\<rparr>)))"
proof (induction D H evs k w arbitrary: ps rule: kubelet_run.induct)
  case (2 D H evs k w)
  then obtain k1 started w1 qs where p: "watch_poll H k w = Some ((k1, started), w1)"
      and l: "kubelet_run D H evs k1 w1 = Some ((k', qs), w')" "ps = started @ qs"
    by (auto split: option.splits)
  note P = watch_poll_result [OF p]
  have IH: "distinct (map Pod_Name qs)" "keeps_pods k1 k'"
      "\<forall>q\<in>set qs. k_pods k1 (Pod_Name q) = None \<and> (\<exists>s. k_pods k' (Pod_Name q) = Some (q\<lparr>Pod_Status := s\<rparr>))"
    using 2(1) [OF p refl refl l(1)] by auto
  have a: "k_pods k (Pod_Name q) = None" if "q \<in> set qs" for q
    using IH(3) that P(3) unfolding keeps_pods_def by (metis not_Some_eq)
  have b: "\<exists>s. k_pods k' (Pod_Name p) = Some (p\<lparr>Pod_Status := s\<rparr>)" if "p \<in> set started" for p
    using P(2) that IH(2) unfolding keeps_pods_def by blast
  have "Pod_Name p \<noteq> Pod_Name q" if "p \<in> set started" "q \<in> set qs" for p q
    using P(2) IH(3) that by fastforce
  then have "distinct (map Pod_Name ps)" using P(1) IH(1) l(2) by (auto simp: image_iff)
  then show ?case using keeps_pods_trans [OF P(3) IH(2)] P(2) IH(3) a b l(2) by auto
next
  case (3 D H ns evs k w)
  obtain k1 w1 where u: "updatePodStatuses D H ns k w = (k1, w1)" by (cases "updatePodStatuses D H ns k w")
  have "keeps_pods k k1" "dom (k_pods k1) = dom (k_pods k)" using updatePodStatuses_keeps [OF u] by auto
  moreover have "kubelet_run D H evs k1 w1 = Some ((k', ps), w')" using 3(2) u by simp
  ultimately show ?case
    using 3(1) [OF u [symmetric]] keeps_pods_trans [of k k1 k'] by (auto simp: domIff)
qed (simp add: keeps_pods_refl)

lemma watchPods_run:
  "kubelet_run D H (replicate n Poll) k w = map_option (\<lambda>((k', sts), w'). ((k', concat sts), w')) (watchPods n H k w)"
  by (induction n arbitrary: k w) (auto split: option.split simp: option.map_comp comp_def case_prod_beta)

text \<open>C20: however the polls and the status ticks of a kubelet interleave, and whatever the API server and the
  daemon answer, it starts a pod of a given name at most once: the names of all pods it ever starts a
  goroutine for are distinct, none was known before, and each is still in its map, unchanged but for
  its status.\<close>

theorem pods_started_once:
  assumes "kubelet_run D H evs k w = Some ((k', ps), w')"
  shows "distinct (map Pod_Name ps) \<and>
    (\<forall>p\<in>set ps. k_pods k (Pod_Name p) = None \<and> (\<exists>s. k_pods k' (Pod_Name p) = Some (p\<lparr>Pod_Status := s\<rparr>)))"
  using kubelet_run_result [OF assms] by blast

text \<open>An API server that answers every poll with the same list of one pod.\<close>

definition demo_kubelet :: Kubelet where
  "demo_kubelet = \<lparr>k_nodeName = ''node-1'', k_apiServerURL = ''localhost:8080'', k_pods = (\<lambda>_. None)\<rparr>"

definition demo_http :: "unit http_client" where
  "demo_http = \<lparr>http_Post = (\<lambda>u b w. (Inr (201, []), w)),
     http_Get = (\<lambda>u w. (Inr (200, ''[{}]''), w)), http_NewRequest = (\<lambda>u. None),
     http_Put = (\<lambda>u b w. (Inr (200, []), w))\<rparr>"

lemma demo_decode: "decode_pods ''[{}]'' = Inr [Some zero_Pod]"
  by code_simp

subsection \<open>Containers listed and removed\<close>

lemma container_status_mem:
  assumes "st \<in> set (container_status k c)"
  shows "\<exists>podName pod spec. map_of (cs_Labels c) ''gokube.pod.name'' = Some podName \<and> k_pods k podName = Some pod \<and>
    Pod_NodeName pod = k_nodeName k \<and>
    find (\<lambda>spec. Container_Name spec = label c ''gokube.container.name'') (slice (PodSpec_Containers (Pod_Spec pod))) = Some spec \<and>
    st = \<lparr>PodName = podName, ContainerName = Container_Name spec, ContainerID = cs_ID c, Status = cs_State c\<rparr>"
proof (cases "map_of (cs_Labels c) ''gokube.pod.name''")
  case (Some podName)
  show ?thesis
  proof (cases "k_pods k podName")
    case (Some pod)
    then show ?thesis
      using assms \<open>map_of (cs_Labels c) ''gokube.pod.name'' = Some podName\<close>
      by (cases "find (\<lambda>spec. Container_Name spec = label c ''gokube.container.name'')
            (slice (PodSpec_Containers (Pod_Spec pod)))")
        (simp_all add: container_status_def split: if_splits)
  qed (use assms Some in \<open>simp add: container_status_def\<close>)
qed (use assms in \<open>simp add: container_status_def\<close>)

text \<open>\<open>ListContainers\<close> reports only containers of its own pods: every entry comes from a listed
  container labelled with the name of a pod the kubelet keeps, assigned to this node, and with the
  name of a container of that pod's specification; id and state are the daemon's.\<close>

lemma ListContainers_own:
  assumes "ListContainers D k w = (Inr sts, w')" "st \<in> set sts"
  shows "\<exists>cs c pod. docker_ContainerList D False w = (Inr cs, w') \<and> c \<in> set cs \<and>
    map_of (cs_Labels c) ''gokube.pod.name'' = Some (PodName st) \<and> k_pods k (PodName st) = Some pod \<and>
    Pod_NodeName pod = k_nodeName k \<and>
    ContainerName st = label c ''gokube.container.name'' \<and>
    ContainerName st \<in> Container_Name ` set (slice (PodSpec_Containers (Pod_Spec pod))) \<and>
    ContainerID st = cs_ID c \<and> Status st = cs_State c"
proof -
  obtain cs where cs: "docker_ContainerList D False w = (Inr cs, w')" "sts = concat (map (container_status k) cs)"
    using assms(1) by (auto simp: ListContainers_def split: prod.splits sum.splits)
  then obtain c where c: "c \<in> set cs" "st \<in> set (container_status k c)"
    using assms(2) by auto
  then obtain pod spec where "map_of (cs_Labels c) ''gokube.pod.name'' = Some (PodName st)"
      "k_pods k (PodName st) = Some pod" "Pod_NodeName pod = k_nodeName k"
      and f: "find (\<lambda>spec. Container_Name spec = label c ''gokube.container.name'')
        (slice (PodSpec_Containers (Pod_Spec pod))) = Some spec"
      and "ContainerName st = Container_Name spec" "ContainerID st = cs_ID c" "Status st = cs_State c"
    using container_status_mem by fastforce
  moreover have "spec \<in> set (slice (PodSpec_Containers (Pod_Spec pod)))"
      "Container_Name spec = label c ''gokube.container.name''"
    using f by (auto simp: find_Some_iff)
  ultimately show ?thesis
    using cs(1) c(1) by (intro exI [of _ cs] exI [of _ c] exI [of _ pod]) (metis image_eqI)
qed

definition demo_docker :: "unit docker_client" where
  "demo_docker =
     \<lparr>docker_ImagePull = (\<lambda>i w. (Inr None, w)), docker_ContainerCreate = (\<lambda>i l n w. (Inr n, w)),
      docker_ContainerStart = (\<lambda>i w. (None, w)),
      docker_ContainerList = (\<lambda>a w. (Inr [\<lparr>cs_ID = ''4f2a'',
          cs_Labels = [(''gokube.pod.name'', ''web''), (''gokube.container.name'', ''nginx'')], cs_State = ''running''\<rparr>], w)),
      docker_ContainerInspect = (\<lambda>n w. (Inl (External ''No such container''), w)),
      docker_IsErrNotFound = (\<lambda>e. e = External ''No such container''),
      docker_ContainerRemove = (\<lambda>i w. (None, w))\<rparr>"

definition running_kubelet :: Kubelet where
  "running_kubelet = demo_kubelet\<lparr>k_pods :=
     [''web'' \<mapsto> zero_Pod\<lparr>Pod_ObjectMeta := zero_ObjectMeta\<lparr>Meta_Name := ''web''\<rparr>,
        Pod_Spec := zero_PodSpec\<lparr>PodSpec_Containers := Some [\<lparr>Container_Name = ''nginx'', Container_Image = ''nginx''\<rparr>]\<rparr>,
        Pod_NodeName := ''node-1'', Pod_Status := PodScheduled\<rparr>]\<rparr>"

lemma demo_run:
  "kubelet_run demo_docker demo_http [Poll, StatusTick [], Poll] demo_kubelet () =
     Some ((demo_kubelet\<lparr>k_pods := [Pod_Name zero_Pod \<mapsto> zero_Pod]\<rparr>, [zero_Pod]), ())"
  by (simp add: watch_poll_def demo_http_def getPodAssignments_def demo_decode demo_kubelet_def)

theorem pods_started_once_witness: "distinct (map Pod_Name [zero_Pod])"
  using pods_started_once [OF demo_run] by blast

lemma demo_list:
  "ListContainers demo_docker running_kubelet () =
     (Inr [\<lparr>PodName = ''web'', ContainerName = ''nginx'', ContainerID = ''4f2a'', Status = ''running''\<rparr>], ())"
  by (simp add: ListContainers_def demo_docker_def running_kubelet_def demo_kubelet_def container_status_def label_def)

lemma ListContainers_own_instance:
  "\<exists>pod. k_pods running_kubelet ''web'' = Some pod \<and> Pod_NodeName pod = ''node-1''"
  using ListContainers_own [OF demo_list, of "\<lparr>PodName = ''web'', ContainerName = ''nginx'', ContainerID = ''4f2a'', Status = ''running''\<rparr>"]
  by (auto simp: running_kubelet_def demo_kubelet_def)

lemma cleanup_loop_fold:
  "cleanup_loop D k cs w = fold (\<lambda>c w. snd (docker_ContainerRemove D (cs_ID c) w)) (filter (owns_container k) cs) w"
  by (induction cs arbitrary: w) (simp_all add: case_prod_beta)

text \<open>\<open>CleanupContainers\<close> asks the daemon to remove exactly the listed containers that belong to the
  kubelet's pods on this node, each once and in the listed order, whether or not a removal fails;
  a daemon that cannot list its containers is left alone.\<close>

lemma CleanupContainers_removes_own:
  "CleanupContainers D k w =
     (case docker_ContainerList D True w of
        (Inl err, w1) \<Rightarrow> (Some (Errorf None ''error listing containers for cleanup'' (Some err)), w1)
      | (Inr cs, w1) \<Rightarrow>
          (None, fold (\<lambda>c w. snd (docker_ContainerRemove D (cs_ID c) w)) (filter (owns_container k) cs) w1))"
  by (simp add: CleanupContainers_def cleanup_loop_fold split: prod.split sum.split)

subsection \<open>Updates that are lost\<close>

text \<open>C36: a status the API server did not accept is not sent again. When the containers of a pod report a
  new status and the request to the API server fails, the kubelet has already recorded the status,
  so at the next tick, with the containers unchanged, it makes no request, whatever the HTTP client
  \<open>H'\<close> would do with it: only the daemon is asked.\<close>

theorem failed_update_not_retried:
  assumes "k_pods k n = Some pod" "getPodStatus D pod w = ((status, None), w1)" "Pod_Status pod \<noteq> status"
    and "updatePodStatus H (k\<lparr>k_pods := (k_pods k)(n \<mapsto> pod\<lparr>Pod_Status := status\<rparr>)\<rparr>) (pod\<lparr>Pod_Status := status\<rparr>) w1
      = (Some err, w2)"
    and "getPodStatus D (pod\<lparr>Pod_Status := status\<rparr>) w2 = ((status, None), w3)"
  shows "case updatePodStatuses D H [n] k w of (k', w') \<Rightarrow> updatePodStatuses D H' [n] k' w' = (k', w3)"
  using assms by simp

definition refusing_http :: "unit http_client" where
  "refusing_http = demo_http\<lparr>http_Put := (\<lambda>u b w. (Inr (500, []), w))\<rparr>"

lemma demo_status:
  "getPodStatus demo_docker (the (k_pods running_kubelet ''web'')\<lparr>Pod_Status := st\<rparr>) () = ((PodSucceeded, None), ())"
  by (simp add: running_kubelet_def demo_kubelet_def getPodStatus_def demo_docker_def getContainerState_def
      determinePodStatus_def)

lemma refused: "\<exists>err. updatePodStatus refusing_http k p () = (Some err, ())"
  by (auto simp: updatePodStatus_def refusing_http_def demo_http_def StatusOK_def Let_def split: sum.split)

theorem failed_update_not_retried_witness:
  "case updatePodStatuses demo_docker refusing_http [''web''] running_kubelet () of
     (k', w') \<Rightarrow> updatePodStatuses demo_docker demo_http [''web''] k' w' = (k', ())"
proof -
  define pod where "pod = the (k_pods running_kubelet ''web'')"
  have k: "k_pods running_kubelet ''web'' = Some pod" "Pod_Status pod \<noteq> PodSucceeded"
    by (simp_all add: pod_def running_kubelet_def demo_kubelet_def status_defs)
  have "pod\<lparr>Pod_Status := Pod_Status pod\<rparr> = pod" by simp
  then have g: "getPodStatus demo_docker pod () = ((PodSucceeded, None), ())"
    using demo_status [of "Pod_Status pod"] unfolding pod_def by metis
  obtain err where u: "updatePodStatus refusing_http
      (running_kubelet\<lparr>k_pods := (k_pods running_kubelet)(''web'' \<mapsto> pod\<lparr>Pod_Status := PodSucceeded\<rparr>)\<rparr>)
      (pod\<lparr>Pod_Status := PodSucceeded\<rparr>) () = (Some err, ())"
    using refused by blast
  show ?thesis
    by (rule failed_update_not_retried [OF k(1) g k(2) u demo_status [folded pod_def]])
qed

subsection \<open>Between starting a container and asking for it\<close>

text \<open>A docker daemon that knows its containers by name, as \<open>ContainerInspect\<close> looks them up.\<close>

record dcontainer =
  dc_name :: string
  dc_labels :: "(string \<times> string) list"
  dc_running :: bool
  dc_code :: int

definition mem_docker :: "dcontainer list docker_client" where
  "mem_docker =
     \<lparr>docker_ImagePull = (\<lambda>i w. (Inr None, w)),
      docker_ContainerCreate = (\<lambda>i l n w.
        if n \<in> dc_name ` set w then (Inl (External ''Conflict''), w)
        else (Inr n, w @ [\<lparr>dc_name = n, dc_labels = l, dc_running = False, dc_code = 0\<rparr>])),
      docker_ContainerStart = (\<lambda>i w. (None, map (\<lambda>d. if dc_name d = i then d\<lparr>dc_running := True\<rparr> else d) w)),
      docker_ContainerList = (\<lambda>a w. (Inr (map (\<lambda>d. \<lparr>cs_ID = dc_name d, cs_Labels = dc_labels d,
          cs_State = (if dc_running d then ''running'' else ''exited'')\<rparr>) (filter (\<lambda>d. a \<or> dc_running d) w)), w)),
      docker_ContainerInspect = (\<lambda>n w. (case find (\<lambda>d. dc_name d = n) w of
          None \<Rightarrow> Inl (External ''No such container'') | Some d \<Rightarrow> Inr (dc_running d, dc_code d), w)),
      docker_IsErrNotFound = (\<lambda>e. e = External ''No such container''),
      docker_ContainerRemove = (\<lambda>i w. (None, filter (\<lambda>d. dc_name d \<noteq> i) w))\<rparr>"

lemma mem_docker_start:
  assumes "StartContainer mem_docker pod c i s w = Some ((r, s'), w')"
    "length (Pod_Name pod @ ''-'' @ c) \<le> MaxGeneratedNameLength"
  shows "dc_name ` set w' \<subseteq> dc_name ` set w \<union> {n. prefix (Pod_Name pod @ ''-'') n}"
    "{d \<in> set w. dc_running d} \<subseteq> set w'"
    "r = StartOk \<Longrightarrow> \<exists>d\<in>set w'. dc_running d \<and> dc_labels d = pod_labels pod c"
proof -
  obtain name where g: "GenerateName (Pod_Name pod @ ''-'' @ c) s = Some (name, s')"
    using assms(1) by (auto simp: StartContainer_def mem_docker_def split: option.splits if_splits prod.splits sum.splits)
  then have p: "prefix (Pod_Name pod @ ''-'') name"
    using GenerateName_result(1) [OF g] assms(2) by (auto simp: prefix_def)
  have w': "if name \<in> dc_name ` set w then w' = w \<and> r \<noteq> StartOk
      else r = StartOk \<and> w' = map (\<lambda>d. if dc_name d = name then d\<lparr>dc_running := True\<rparr> else d) w @
        [\<lparr>dc_name = name, dc_labels = pod_labels pod c, dc_running = True, dc_code = 0\<rparr>]"
    using assms(1) g by (auto simp: StartContainer_def mem_docker_def split: if_splits)
  then show "dc_name ` set w' \<subseteq> dc_name ` set w \<union> {n. prefix (Pod_Name pod @ ''-'') n}"
    using p by (auto split: if_splits)
  show "{d \<in> set w. dc_running d} \<subseteq> set w'"
    using w' by (auto split: if_splits simp: image_iff)
  show "r = StartOk \<Longrightarrow> \<exists>d\<in>set w'. dc_running d \<and> dc_labels d = pod_labels pod c"
    using w' by (auto split: if_splits)
qed

lemma mem_docker_run:
  "run_containers mem_docker pod cs s w = Some ((rs, s'), w') \<Longrightarrow>
   \<forall>c\<in>set cs. length (Pod_Name pod @ ''-'' @ Container_Name c) \<le> MaxGeneratedNameLength \<Longrightarrow>
     dc_name ` set w' \<subseteq> dc_name ` set w \<union> {n. prefix (Pod_Name pod @ ''-'') n} \<and>
     {d \<in> set w. dc_running d} \<subseteq> set w' \<and>
     (StartOk \<in> set rs \<longrightarrow> (\<exists>d\<in>set w'. dc_running d \<and> map_of (dc_labels d) ''gokube.pod.name'' = Some (Pod_Name pod)))"
proof (induction cs arbitrary: s w rs)
  case (Cons c cs)
  obtain r s1 w1 where c: "StartContainer mem_docker pod (Container_Name c) (Container_Image c) s w = Some ((r, s1), w1)"
    using Cons.prems(1) by (auto split: option.splits)
  note S = mem_docker_start [OF c]
  have len: "length (Pod_Name pod @ ''-'' @ Container_Name c) \<le> MaxGeneratedNameLength"
    using Cons.prems(2) by simp
  have chain: "dc_name ` set w' \<subseteq> dc_name ` set w \<union> {n. prefix (Pod_Name pod @ ''-'') n}"
      "{d \<in> set w. dc_running d} \<subseteq> set w'"
    if "dc_name ` set w' \<subseteq> dc_name ` set w1 \<union> {n. prefix (Pod_Name pod @ ''-'') n}"
      "{d \<in> set w1. dc_running d} \<subseteq> set w'"
    using that S(1,2) [OF len] by blast+
  show ?case
  proof (cases r)
    case (StartPanic err)
    then show ?thesis using Cons.prems(1) c S [OF len] by auto
  next
    case StartOk
    then obtain rs1 where rest: "run_containers mem_docker pod cs s1 w1 = Some ((rs1, s'), w')"
      using Cons.prems(1) c by auto
    note IH = Cons.IH [OF rest]
    obtain d where d: "d \<in> set w1" "dc_running d" "dc_labels d = pod_labels pod (Container_Name c)"
      using S(3) [OF len StartOk] by blast
    have "d \<in> set w'" using IH Cons.prems(2) d by auto
    moreover have "map_of (dc_labels d) ''gokube.pod.name'' = Some (Pod_Name pod)"
      by (simp add: d(3) pod_labels_def)
    moreover have "dc_name ` set w' \<subseteq> dc_name ` set w \<union> {n. prefix (Pod_Name pod @ ''-'') n}"
        "{d \<in> set w. dc_running d} \<subseteq> set w'"
      using chain IH Cons.prems(2) by simp_all
    ultimately show ?thesis using d(2) by blast
  next
    case (StartErr err)
    then obtain rs1 where rest: "run_containers mem_docker pod cs s1 w1 = Some ((rs1, s'), w')" "rs = StartErr err # rs1"
      using Cons.prems(1) c by auto
    note IH = Cons.IH [OF rest(1)]
    have "dc_name ` set w' \<subseteq> dc_name ` set w \<union> {n. prefix (Pod_Name pod @ ''-'') n}"
        "{d \<in> set w. dc_running d} \<subseteq> set w'"
      using chain IH Cons.prems(2) by simp_all
    then show ?thesis using IH rest(2) Cons.prems(2) by simp
  qed
qed auto

lemma absent_states:
  "\<forall>c\<in>set cs. Container_Name c \<notin> dc_name ` set w \<Longrightarrow>
     container_states mem_docker cs w = (Inr (replicate (length cs) \<lparr>exists = False, running = False, exitCode = 0\<rparr>), w)"
proof (induction cs)
  case (Cons c cs)
  then have "\<forall>d\<in>set w. dc_name d \<noteq> Container_Name c"
    by (auto simp: image_iff)
  then have "find (\<lambda>d. dc_name d = Container_Name c) w = None"
    by (auto simp: find_None_iff)
  then show ?case
    using Cons by (simp add: getContainerState_def mem_docker_def)
qed simp


definition demo_run_pod :: Pod where
  "demo_run_pod = zero_Pod\<lparr>Pod_ObjectMeta := zero_ObjectMeta\<lparr>Meta_Name := ''web''\<rparr>,
     Pod_Spec := zero_PodSpec\<lparr>PodSpec_Containers := Some [\<lparr>Container_Name = ''nginx'', Container_Image = ''nginx''\<rparr>]\<rparr>\<rparr>"


end
