(* ===== verification/Handlers.thy ===== *)
theory Handlers
  imports Pod_Registry Node_Registry ReplicaSet_Registry
begin

text \<open>
  \<open>pkg/api/response.go\<close>, \<open>pkg/api/handlers\<close> and \<open>pkg/api/server\<close>. go-restful is outside the repository: a
  request is what the handlers ask of it (the path parameter, the query parameter, the outcome of
  \<open>ReadEntity\<close>, the attributes), and a response is the list of the calls made on it, each with its
  status. net/http sends the status of the first call.
\<close>

datatype body = NoBody | ErrorBody error | Entity Object | Entities "Object list option"

type_synonym response = "(int \<times> body) list"

record request =
  req_name :: string
  req_nodeName :: string
  req_ReadEntity :: "Object \<Rightarrow> error + Object"
  req_Attribute :: "string \<Rightarrow> Object option"

type_synonym 'w handler = "request \<Rightarrow> response \<Rightarrow> 'w \<Rightarrow> response \<times> 'w"

definition WriteResponse :: "response \<Rightarrow> int \<Rightarrow> body option \<Rightarrow> response" where
  "WriteResponse response status entity =
     (case entity of
        Some b \<Rightarrow> response @ [(status, b)]
      | None \<Rightarrow> response @ [(status, NoBody)])"

definition WriteError :: "response \<Rightarrow> int \<Rightarrow> error \<Rightarrow> response" where
  "WriteError response status err = response @ [(status, ErrorBody err)]"

text \<open>The status the client sees.\<close>

definition sent_status :: "response \<Rightarrow> int" where
  "sent_status r = fst (hd r)"

definition podAttributeKey :: string where "podAttributeKey = ''pod''"
definition nodeAttributeKey :: string where "nodeAttributeKey = ''node''"
definition replicasetAttributeKey :: string where "replicasetAttributeKey = ''replicaset''"

definition SetAttribute :: "string \<Rightarrow> Object \<Rightarrow> request \<Rightarrow> request" where
  "SetAttribute key obj req = req\<lparr>req_Attribute := (req_Attribute req)(key \<mapsto> obj)\<rparr>"

definition missing_attribute :: "string \<Rightarrow> error" where
  "missing_attribute kind = Errorf None (''failed to retrieve '' @ kind @ '' from request attributes'') None"

subsection \<open>Pods\<close>

definition LoadPodIntoRequest :: "'w Storage \<Rightarrow> 'w handler \<Rightarrow> 'w handler" where
  "LoadPodIntoRequest S next req resp w =
     (case GetPod S (req_name req) w of
        (Inl err, w1) \<Rightarrow>
          (if errors_Is err ErrPodNotFound then (WriteError resp 404 err, w1)
           else (WriteError resp 500 err, w1))
      | (Inr pod, w1) \<Rightarrow> next (SetAttribute podAttributeKey (PodObj pod) req) resp w1)"

definition PodHandler_CreatePod :: "validator \<Rightarrow> 'w Storage \<Rightarrow> 'w handler" where
  "PodHandler_CreatePod V S req resp w =
     (case req_ReadEntity req (PodObj zero_Pod) of
        Inl err \<Rightarrow> (WriteError resp 400 err, w)
      | Inr obj \<Rightarrow>
          (case CreatePod V S (as_Pod obj) w of
             ((Some err, pod), w1) \<Rightarrow>
               (if errors_Is err ErrPodAlreadyExists
                then (WriteResponse (WriteError resp 409 err) 201 (Some (Entity (PodObj pod))), w1)
                else if errors_Is err ErrPodInvalid then (WriteError resp 400 err, w1)
                else (WriteError resp 500 err, w1))
           | ((None, pod), w1) \<Rightarrow> (WriteResponse resp 201 (Some (Entity (PodObj pod))), w1)))"

definition PodHandler_ListPods :: "'w Storage \<Rightarrow> 'w handler" where
  "PodHandler_ListPods S req resp w =
     (case ListPods S w of
        (Inl err, w1) \<Rightarrow> (WriteError resp 500 err, w1)
      | (Inr ps, w1) \<Rightarrow>
          (let ps' = (if req_nodeName req \<noteq> '''' then filter (\<lambda>pod. Pod_NodeName pod = req_nodeName req) ps else ps)
           in (WriteResponse resp 200 (Some (Entities (Some (map PodObj ps')))), w1)))"

definition PodHandler_GetPod :: "'w handler" where
  "PodHandler_GetPod req resp w =
     (case req_Attribute req podAttributeKey of
        Some (PodObj pod) \<Rightarrow> (WriteResponse resp 200 (Some (Entity (PodObj pod))), w)
      | _ \<Rightarrow> (WriteError resp 500 (missing_attribute ''pod''), w))"

definition PodHandler_UpdatePod :: "validator \<Rightarrow> 'w Storage \<Rightarrow> 'w handler" where
  "PodHandler_UpdatePod V S req resp w =
     (case req_Attribute req podAttributeKey of
        Some (PodObj existingPod) \<Rightarrow>
          (case req_ReadEntity req (PodObj zero_Pod) of
             Inl err \<Rightarrow> (WriteError resp 400 err, w)
           | Inr obj \<Rightarrow>
               (let updatedPod = as_Pod obj
                in if Pod_Name existingPod \<noteq> Pod_Name updatedPod
                   then (WriteError resp 400 (Errorf None ''pod name in URL does not match pod name in request body'' None), w)
                   else (case UpdatePod V S updatedPod w of
                           (Some err, w1) \<Rightarrow>
                             (if errors_Is err ErrPodInvalid then (WriteError resp 400 err, w1)
                              else (WriteError resp 500 err, w1))
                         | (None, w1) \<Rightarrow> (WriteResponse resp 200 (Some (Entity (PodObj updatedPod))), w1))))
      | _ \<Rightarrow> (WriteError resp 500 (missing_attribute ''pod''), w))"

definition PodHandler_DeletePod :: "'w Storage \<Rightarrow> 'w handler" where
  "PodHandler_DeletePod S req resp w =
     (case req_Attribute req podAttributeKey of
        Some (PodObj pod) \<Rightarrow>
          (case DeletePod S (Pod_Name pod) w of
             (Some err, w1) \<Rightarrow> (WriteError resp 500 err, w1)
           | (None, w1) \<Rightarrow> (WriteResponse resp 204 None, w1))
      | _ \<Rightarrow> (WriteError resp 500 (missing_attribute ''pod''), w))"

definition PodHandler_ListUnassignedPods :: "'w Storage \<Rightarrow> 'w handler" where
  "PodHandler_ListUnassignedPods S req resp w =
     (case ListUnassignedPods S w of
        (Inl err, w1) \<Rightarrow> (WriteError resp 500 err, w1)
      | (Inr ps, w1) \<Rightarrow> (WriteResponse resp 200 (Some (Entities (Some (map PodObj ps)))), w1))"

type_synonym 'w route = "string \<times> string \<times> 'w handler"

definition RegisterPodRoutes :: "validator \<Rightarrow> 'w Storage \<Rightarrow> 'w route list" where
  "RegisterPodRoutes V S =
     [(''POST'', ''/pods'', PodHandler_CreatePod V S),
      (''GET'', ''/pods'', PodHandler_ListPods S),
      (''GET'', ''/pods/{name}'', LoadPodIntoRequest S PodHandler_GetPod),
      (''PUT'', ''/pods/{name}'', LoadPodIntoRequest S (PodHandler_UpdatePod V S)),
      (''DELETE'', ''/pods/{name}'', LoadPodIntoRequest S (PodHandler_DeletePod S)),
      (''GET'', ''/pods/unassigned'', PodHandler_ListUnassignedPods S)]"

subsection \<open>Nodes\<close>

definition LoadNodeIntoRequest :: "'w Storage \<Rightarrow> 'w handler \<Rightarrow> 'w handler" where
  "LoadNodeIntoRequest S next req resp w =
     (case GetNode S (req_name req) w of
        (Inl err, w1) \<Rightarrow>
          (if errors_Is err ErrNodeNotFound then (WriteError resp 404 err, w1)
           else (WriteError resp 500 err, w1))
      | (Inr node, w1) \<Rightarrow> next (SetAttribute nodeAttributeKey (NodeObj node) req) resp w1)"

definition NodeHandler_CreateNode :: "validator \<Rightarrow> 'w Storage \<Rightarrow> 'w handler" where
  "NodeHandler_CreateNode V S req resp w =
     (case req_ReadEntity req (NodeObj zero_Node) of
        Inl err \<Rightarrow> (WriteError resp 400 err, w)
      | Inr obj \<Rightarrow>
          (let node = as_Node obj
           in case CreateNode V S node w of
                (Some err, w1) \<Rightarrow>
                  (if errors_Is err ErrNodeAlreadyExists then (WriteError resp 409 err, w1)
                   else if errors_Is err ErrNodeInvalid then (WriteError resp 400 err, w1)
                   else (WriteError resp 500 err, w1))
              | (None, w1) \<Rightarrow> (WriteResponse resp 201 (Some (Entity (NodeObj node))), w1)))"

definition NodeHandler_GetNode :: "'w handler" where
  "NodeHandler_GetNode req resp w =
     (case req_Attribute req nodeAttributeKey of
        Some (NodeObj node) \<Rightarrow> (WriteResponse resp 200 (Some (Entity (NodeObj node))), w)
      | _ \<Rightarrow> (WriteError resp 500 (missing_attribute ''node''), w))"

definition NodeHandler_UpdateNode :: "validator \<Rightarrow> 'w Storage \<Rightarrow> 'w handler" where
  "NodeHandler_UpdateNode V S req resp w =
     (case req_Attribute req nodeAttributeKey of
        Some (NodeObj existingNode) \<Rightarrow>
          (case req_ReadEntity req (NodeObj zero_Node) of
             Inl err \<Rightarrow> (WriteError resp 400 err, w)
           | Inr obj \<Rightarrow>
               (let node = as_Node obj
                in if Node_Name existingNode \<noteq> Node_Name node
                   then (WriteError resp 400 (Errorf None ''node name in URL does not match the name in the request body'' None), w)
                   else (case UpdateNode V S node w of
                           (Some err, w1) \<Rightarrow>
                             (if errors_Is err ErrNodeInvalid then (WriteError resp 400 err, w1)
                              else (WriteError resp 500 err, w1))
                         | (None, w1) \<Rightarrow> (WriteResponse resp 200 (Some (Entity (NodeObj node))), w1))))
      | _ \<Rightarrow> (WriteError resp 500 (missing_attribute ''node''), w))"

definition NodeHandler_DeleteNode :: "'w Storage \<Rightarrow> 'w handler" where
  "NodeHandler_DeleteNode S req resp w =
     (case req_Attribute req nodeAttributeKey of
        Some (NodeObj node) \<Rightarrow>
          (case DeleteNode S (Node_Name node) w of
             (Some err, w1) \<Rightarrow> (WriteError resp 500 err, w1)
           | (None, w1) \<Rightarrow> (WriteResponse resp 204 None, w1))
      | _ \<Rightarrow> (WriteError resp 500 (missing_attribute ''node''), w))"

definition NodeHandler_ListNodes :: "'w Storage \<Rightarrow> 'w handler" where
  "NodeHandler_ListNodes S req resp w =
     (case ListNodes S w of
        (Inl err, w1) \<Rightarrow> (WriteError resp 500 err, w1)
      | (Inr ns, w1) \<Rightarrow> (WriteResponse resp 200 (Some (Entities (Some (map NodeObj ns)))), w1))"

definition RegisterNodeRoutes :: "validator \<Rightarrow> 'w Storage \<Rightarrow> 'w route list" where
  "RegisterNodeRoutes V S =
     [(''POST'', ''/nodes'', NodeHandler_CreateNode V S),
      (''GET'', ''/nodes'', NodeHandler_ListNodes S),
      (''GET'', ''/nodes/{name}'', LoadNodeIntoRequest S NodeHandler_GetNode),
      (''PUT'', ''/nodes/{name}'', LoadNodeIntoRequest S (NodeHandler_UpdateNode V S)),
      (''DELETE'', ''/nodes/{name}'', LoadNodeIntoRequest S (NodeHandler_DeleteNode S))]"

subsection \<open>Replica sets\<close>

definition LoadReplicasetIntoRequest :: "'w Storage \<Rightarrow> 'w handler \<Rightarrow> 'w handler" where
  "LoadReplicasetIntoRequest S next req resp w =
     (case ReplicaSet_Get S (req_name req) w of
        (Inl err, w1) \<Rightarrow>
          (if errors_Is err ErrReplicaSetNotFound then (WriteError resp 404 err, w1)
           else (WriteError resp 500 err, w1))
      | (Inr rs, w1) \<Rightarrow> next (SetAttribute replicasetAttributeKey (ReplicaSetObj rs) req) resp w1)"

definition ReplicasetHandler_Create :: "'w Storage \<Rightarrow> 'w handler" where
  "ReplicasetHandler_Create S req resp w =
     (case req_ReadEntity req (ReplicaSetObj zero_ReplicaSet) of
        Inl err \<Rightarrow> (WriteError resp 400 err, w)
      | Inr obj \<Rightarrow>
          (let rs = as_ReplicaSet obj
           in case ReplicaSet_Create S rs w of
                (Some err, w1) \<Rightarrow>
                  (if errors_Is err ErrReplicaSetExists then (WriteError resp 409 err, w1)
                   else (WriteError resp 500 err, w1))
              | (None, w1) \<Rightarrow> (WriteResponse resp 201 (Some (Entity (ReplicaSetObj rs))), w1)))"

definition ReplicasetHandler_Get :: "'w handler" where
  "ReplicasetHandler_Get req resp w =
     (case req_Attribute req replicasetAttributeKey of
        Some (ReplicaSetObj rs) \<Rightarrow> (WriteResponse resp 200 (Some (Entity (ReplicaSetObj rs))), w)
      | _ \<Rightarrow> (WriteError resp 500 (missing_attribute ''replicaset''), w))"

definition ReplicasetHandler_Update :: "'w Storage \<Rightarrow> 'w handler" where
  "ReplicasetHandler_Update S req resp w =
     (case req_Attribute req replicasetAttributeKey of
        Some (ReplicaSetObj existing) \<Rightarrow>
          (case req_ReadEntity req (ReplicaSetObj zero_ReplicaSet) of
             Inl err \<Rightarrow> (WriteError resp 400 err, w)
           | Inr obj \<Rightarrow>
               (let rs = as_ReplicaSet obj
                in if RS_Name existing \<noteq> RS_Name rs
                   then (WriteError resp 400 (Errorf None ''replicaset name in URL does not match the replicaset in the request body'' None), w)
                   else (case ReplicaSet_Update S rs w of
                           (Some err, w1) \<Rightarrow> (WriteError resp 500 err, w1)
                         | (None, w1) \<Rightarrow> (WriteResponse resp 200 (Some (Entity (ReplicaSetObj rs))), w1))))
      | _ \<Rightarrow> (WriteError resp 500 (missing_attribute ''replicaset''), w))"

definition ReplicasetHandler_Delete :: "'w Storage \<Rightarrow> 'w handler" where
  "ReplicasetHandler_Delete S req resp w =
     (case req_Attribute req replicasetAttributeKey of
        Some (ReplicaSetObj rs) \<Rightarrow>
          (case ReplicaSet_Delete S (RS_Name rs) w of
             (Some err, w1) \<Rightarrow> (WriteError resp 500 err, w1)
           | (None, w1) \<Rightarrow> (WriteResponse resp 204 None, w1))
      | _ \<Rightarrow> (WriteError resp 500 (missing_attribute ''replicaset''), w))"

text \<open>The slice \<open>List\<close> returns is nil when there is no replica set.\<close>

definition ReplicasetHandler_List :: "'w Storage \<Rightarrow> 'w handler" where
  "ReplicasetHandler_List S req resp w =
     (case ReplicaSet_List S w of
        (Inl err, w1) \<Rightarrow> (WriteError resp 500 err, w1)
      | (Inr rss, w1) \<Rightarrow>
          (WriteResponse resp 200 (Some (Entities (if rss = [] then None else Some (map ReplicaSetObj rss)))), w1))"

definition RegisterReplicasetRoutes :: "'w Storage \<Rightarrow> 'w route list" where
  "RegisterReplicasetRoutes S =
     [(''POST'', ''/replicasets'', ReplicasetHandler_Create S),
      (''GET'', ''/replicasets'', ReplicasetHandler_List S),
      (''GET'', ''/replicasets/{name}'', LoadReplicasetIntoRequest S ReplicasetHandler_Get),
      (''PUT'', ''/replicasets/{name}'', LoadReplicasetIntoRequest S (ReplicasetHandler_Update S)),
      (''DELETE'', ''/replicasets/{name}'', LoadReplicasetIntoRequest S (ReplicasetHandler_Delete S))]"

subsection \<open>The server\<close>

text \<open>Every registry of the server uses the one storage it was built with.\<close>

record 'w APIServer =
  srv_storage :: "'w Storage"

definition NewAPIServer :: "'w Storage \<Rightarrow> 'w APIServer" where
  "NewAPIServer storage = \<lparr>srv_storage = storage\<rparr>"

definition healthz :: "'w handler" where
  "healthz req resp w = (WriteResponse resp 200 None, w)"

definition registerRoutes :: "validator \<Rightarrow> 'w APIServer \<Rightarrow> 'w route list" where
  "registerRoutes V srv =
     map (\<lambda>(m, p, h). (m, ''/api/v1'' @ p, h))
       ((''GET'', ''/healthz'', healthz) #
        RegisterPodRoutes V (srv_storage srv) @ RegisterNodeRoutes V (srv_storage srv) @
        RegisterReplicasetRoutes (srv_storage srv))"

text \<open>\<open>serve\<close> is \<open>http.ListenAndServe\<close> on an address and a container with the routes.\<close>

definition APIServer_Start ::
  "validator \<Rightarrow> (string \<Rightarrow> 'w route list \<Rightarrow> 'w \<Rightarrow> error option \<times> 'w) \<Rightarrow> 'w APIServer \<Rightarrow> string \<Rightarrow> 'w \<Rightarrow> error option \<times> 'w" where
  "APIServer_Start V serve srv address w = serve address (registerRoutes V srv) w"

lemmas pod_handler_defs = LoadPodIntoRequest_def PodHandler_CreatePod_def PodHandler_ListPods_def
  PodHandler_GetPod_def PodHandler_UpdatePod_def PodHandler_DeletePod_def PodHandler_ListUnassignedPods_def
lemmas node_handler_defs = LoadNodeIntoRequest_def NodeHandler_CreateNode_def NodeHandler_ListNodes_def
  NodeHandler_GetNode_def NodeHandler_UpdateNode_def NodeHandler_DeleteNode_def
lemmas rs_handler_defs = LoadReplicasetIntoRequest_def ReplicasetHandler_Create_def ReplicasetHandler_List_def
  ReplicasetHandler_Get_def ReplicasetHandler_Update_def ReplicasetHandler_Delete_def
lemmas write_defs = WriteResponse_def WriteError_def SetAttribute_def

end
