(* ===== verification/Handler_Properties.thy ===== *)
theory Handler_Properties
  imports Handlers Registry_Properties
begin

text \<open>
  Properties of the HTTP handlers: how often they answer, and what the routes of the pods do to
  the store, with the status the client sees on every branch.
\<close>

subsection \<open>One answer per request\<close>

definition answers_once :: "'w handler \<Rightarrow> bool" where
  "answers_once h \<longleftrightarrow> (\<forall>req resp w. \<exists>c. fst (h req resp w) = resp @ [c])"

lemma answers_onceI: "(\<And>req resp w. \<exists>c. fst (h req resp w) = resp @ [c]) \<Longrightarrow> answers_once h"
  by (simp add: answers_once_def)

lemma filters_answer_once:
  assumes "answers_once next"
  shows "answers_once (LoadPodIntoRequest S next)" "answers_once (LoadNodeIntoRequest S next)"
    "answers_once (LoadReplicasetIntoRequest S next)"
  using assms
  by (auto simp: answers_once_def LoadPodIntoRequest_def LoadNodeIntoRequest_def LoadReplicasetIntoRequest_def
      write_defs split: prod.split sum.split)

lemma pod_handlers_answer_once:
  "answers_once (PodHandler_ListPods S)" "answers_once PodHandler_GetPod" "answers_once (PodHandler_UpdatePod V S)"
  "answers_once (PodHandler_DeletePod S)" "answers_once (PodHandler_ListUnassignedPods S)"
  by (rule answers_onceI; simp add: pod_handler_defs write_defs Let_def split: prod.split sum.split option.split Object.split)+

lemma node_handlers_answer_once:
  "answers_once (NodeHandler_CreateNode V S)" "answers_once (NodeHandler_ListNodes S)" "answers_once NodeHandler_GetNode"
  "answers_once (NodeHandler_UpdateNode V S)" "answers_once (NodeHandler_DeleteNode S)"
  by (rule answers_onceI; simp add: node_handler_defs write_defs Let_def split: prod.split sum.split option.split Object.split)+

lemma rs_handlers_answer_once:
  "answers_once (ReplicasetHandler_Create S)" "answers_once (ReplicasetHandler_List S)" "answers_once ReplicasetHandler_Get"
  "answers_once (ReplicasetHandler_Update S)" "answers_once (ReplicasetHandler_Delete S)"
  by (rule answers_onceI; simp add: rs_handler_defs write_defs Let_def split: prod.split sum.split option.split Object.split)+

lemma healthz_answers_once: "answers_once healthz"
  by (simp add: answers_once_def healthz_def write_defs)

lemmas handlers_answer_once = pod_handlers_answer_once node_handlers_answer_once rs_handlers_answer_once
  healthz_answers_once filters_answer_once

lemma CreatePod_answers:
  "(\<exists>c. fst (PodHandler_CreatePod V S req resp w) = resp @ [c]) \<or>
   (\<exists>err pod. errors_Is err ErrPodAlreadyExists \<and>
      fst (PodHandler_CreatePod V S req resp w) = resp @ [(409, ErrorBody err), (201, Entity (PodObj pod))])"
  by (simp add: PodHandler_CreatePod_def write_defs split: sum.split prod.split option.split)

lemma routes_answer_once:
  "(m, p, h) \<in> set (registerRoutes V srv) \<Longrightarrow>
     answers_once h \<or> (m = ''POST'' \<and> p = ''/api/v1/pods'' \<and> h = PodHandler_CreatePod V (srv_storage srv))"
  by (auto simp: registerRoutes_def RegisterPodRoutes_def RegisterNodeRoutes_def RegisterReplicasetRoutes_def
      intro: handlers_answer_once)

text \<open>C17: every handler the server registers makes exactly one call on the response, on every branch and
  whatever the store answers, except the creation of a pod whose name is taken: it makes two, the
  error with status 409 and then the pod with status 201.\<close>

theorem one_response_per_request:
  assumes "(m, p, h) \<in> set (registerRoutes V (NewAPIServer S))" "h req [] w = (resp, w')"
  shows "length resp = 1 \<or>
    (m = ''POST'' \<and> p = ''/api/v1/pods'' \<and>
      (\<exists>err pod. errors_Is err ErrPodAlreadyExists \<and> resp = [(409, ErrorBody err), (201, Entity (PodObj pod))]))"
  using routes_answer_once [OF assms(1)]
proof
  assume "answers_once h"
  then obtain c where "fst (h req [] w) = [] @ [c]" unfolding answers_once_def by blast
  then show ?thesis using assms(2) by simp
next
  assume "m = ''POST'' \<and> p = ''/api/v1/pods'' \<and> h = PodHandler_CreatePod V (srv_storage (NewAPIServer S))"
  then show ?thesis
    using CreatePod_answers [of V S req "[]" w] assms(2) by (auto simp: NewAPIServer_def)
qed

theorem one_response_per_request_witness:
  "fst (healthz \<lparr>req_name = '''', req_nodeName = '''', req_ReadEntity = Inr, req_Attribute = Map.empty\<rparr> [] (mem_empty []))
     = [(200, NoBody)] \<and>
   length (fst (healthz \<lparr>req_name = '''', req_nodeName = '''', req_ReadEntity = Inr, req_Attribute = Map.empty\<rparr> [] (mem_empty []))) = 1"
proof -
  let ?r = "\<lparr>req_name = '''', req_nodeName = '''', req_ReadEntity = Inr, req_Attribute = Map.empty\<rparr>"
  have "(''GET'', ''/api/v1/healthz'', healthz) \<in> set (registerRoutes tag_validator (NewAPIServer mem_storage))"
    by (simp add: registerRoutes_def)
  moreover have h: "healthz ?r [] (mem_empty []) = ([(200, NoBody)], mem_empty [])"
    by (simp add: healthz_def write_defs)
  ultimately show ?thesis
    using one_response_per_request [of "''GET''" "''/api/v1/healthz''" healthz tag_validator mem_storage ?r "mem_empty []"]
    by simp
qed

subsection \<open>The pods\<close>

text \<open>A request with a body that \<open>ReadEntity\<close> reads as the pod.\<close>

definition posts :: "request \<Rightarrow> Object \<Rightarrow> bool" where
  "posts req obj \<longleftrightarrow> req_ReadEntity req (zero_like obj) = Inr obj"

text \<open>C11: creating a pod over HTTP. With etcd up, the client sees 409 when the name is taken, 400 when
  the pod is invalid and 201 otherwise; in the last case the store has gained exactly the pod, with
  the status \<open>Pending\<close> when it had none, and in the others the store is unchanged. On a conflict the
  handler does not stop: it writes the error with status 409 and then the pod of the request with
  status 201.\<close>

theorem POST_pods:
  assumes "etcd_kv cl kvs up" "struct_validator V" "up w" "posts req (PodObj pod)" "storable (PodObj pod)"
    and "PodHandler_CreatePod V (NewEtcdStorage cl) req [] w = (resp, w')"
  shows "up w' \<and> sent_status resp =
      (if pods (kvs w) (Pod_Name pod) \<noteq> None then 409 else if \<not> struct_tags (PodObj pod) then 400 else 201) \<and>
    (if sent_status resp = 201
     then pods (kvs w') = (pods (kvs w))(Pod_Name pod \<mapsto> with_status pod) \<and> nodes (kvs w') = nodes (kvs w) \<and>
       replicasets (kvs w') = replicasets (kvs w)
     else kvs w' = kvs w) \<and>
    (sent_status resp = 409 \<longrightarrow>
       resp = [(409, ErrorBody (wrap_text ErrPodAlreadyExists (Pod_Name pod))), (201, Entity (PodObj pod))])"
proof -
  note reg = etcd_registry [OF assms(1,2)]
  have r: "req_ReadEntity req (PodObj zero_Pod) = Inr (PodObj pod)"
    using assms(4) by (simp add: posts_def)
  show ?thesis
  proof (rule registry.CreatePod_total [OF reg assms(3,5)], goal_cases)
    case (1 w1)
    then show ?thesis using assms(6) r by (auto simp: PodHandler_CreatePod_def write_defs sent_status_def)
  next
    case (2 w1 e)
    then show ?thesis using assms(6) r by (auto simp: PodHandler_CreatePod_def write_defs sent_status_def)
  next
    case (3 w1)
    have "pods (kvs w1) = (pods (kvs w))(Pod_Name pod \<mapsto> with_status pod)" "nodes (kvs w1) = nodes (kvs w)"
      "replicasets (kvs w1) = replicasets (kvs w)"
      using views_stored_Pod [OF 3(4) storable_with_status [OF assms(5)]] by simp_all
    then show ?thesis using 3 assms(6) r by (auto simp: PodHandler_CreatePod_def write_defs sent_status_def)
  qed
qed

text \<open>Reading a pod over HTTP. With etcd up, \<open>GET /pods/{name}\<close> answers 200 with the stored pod, or 404
  when there is none, and changes nothing.\<close>

lemma GET_pod:
  assumes "etcd_kv cl kvs up" "struct_validator V" "up w" "store_inv (kvs w)"
  shows "\<exists>w'. LoadPodIntoRequest (NewEtcdStorage cl) PodHandler_GetPod req [] w =
    ([case pods (kvs w) (req_name req) of
        Some pod \<Rightarrow> (200, Entity (PodObj pod))
      | None \<Rightarrow> (404, ErrorBody (wrap_text ErrPodNotFound (req_name req)))], w') \<and> kvs w' = kvs w"
proof -
  note reg = etcd_registry [OF assms(1,2)]
  obtain w1 where g: "GetPod (NewEtcdStorage cl) (req_name req) w =
      ((case pods (kvs w) (req_name req) of Some p \<Rightarrow> Inr p
        | None \<Rightarrow> Inl (wrap_text ErrPodNotFound (req_name req))), w1)"
    using registry.GetPod_up [OF reg assms(3) store_inv_kept [OF assms(4)]] by blast
  note f = registry.GetPod_frame [OF reg g]
  show ?thesis
    using g f by (simp add: LoadPodIntoRequest_def PodHandler_GetPod_def write_defs split: option.split)
qed

lemma loaded:
  assumes "etcd_kv cl kvs up" "struct_validator V" "up w" "store_inv (kvs w)"
  obtains w1 where "up w1" "kvs w1 = kvs w" "\<And>next. LoadPodIntoRequest (NewEtcdStorage cl) next req [] w =
    (case pods (kvs w) (req_name req) of
       None \<Rightarrow> ([(404, ErrorBody (wrap_text ErrPodNotFound (req_name req)))], w1)
     | Some pod \<Rightarrow> next (SetAttribute podAttributeKey (PodObj pod) req) [] w1)"
    "\<And>pod. pods (kvs w) (req_name req) = Some pod \<Longrightarrow> Pod_Name pod = req_name req"
proof -
  note reg = etcd_registry [OF assms(1,2)]
  obtain w1 where g: "GetPod (NewEtcdStorage cl) (req_name req) w =
      ((case pods (kvs w) (req_name req) of Some p \<Rightarrow> Inr p
        | None \<Rightarrow> Inl (wrap_text ErrPodNotFound (req_name req))), w1)" "up w1"
    using registry.GetPod_up [OF reg assms(3) store_inv_kept [OF assms(4)]] by blast
  show thesis
  proof (rule that [OF g(2) registry.GetPod_frame [OF reg g(1)]])
    show "LoadPodIntoRequest (NewEtcdStorage cl) next req [] w =
      (case pods (kvs w) (req_name req) of
         None \<Rightarrow> ([(404, ErrorBody (wrap_text ErrPodNotFound (req_name req)))], w1)
       | Some pod \<Rightarrow> next (SetAttribute podAttributeKey (PodObj pod) req) [] w1)" for "next"
      using g(1) by (simp add: LoadPodIntoRequest_def WriteError_def split: option.split)
    show "Pod_Name pod = req_name req" if "pods (kvs w) (req_name req) = Some pod" for pod
      using pods_kept(2) [of "kvs w" "req_name req" pod] that assms(4) by simp
  qed
qed

lemma PUT_pod_effect:
  assumes "etcd_kv cl kvs up" "struct_validator V" "up w" "store_inv (kvs w)"
    and "posts req (PodObj pod)" "storable (PodObj pod)"
    and "LoadPodIntoRequest (NewEtcdStorage cl) (PodHandler_UpdatePod V (NewEtcdStorage cl)) req [] w = (resp, w')"
  shows "up w' \<and> sent_status resp =
      (if pods (kvs w) (req_name req) = None then 404
       else if Pod_Name pod \<noteq> req_name req \<or> \<not> struct_tags (PodObj pod) then 400 else 200) \<and>
    (if sent_status resp = 200 then pods (kvs w') = (pods (kvs w))(req_name req \<mapsto> pod) else kvs w' = kvs w)"
proof -
  note reg = etcd_registry [OF assms(1,2)]
  have r: "req_ReadEntity req (PodObj zero_Pod) = Inr (PodObj pod)"
    using assms(5) by (simp add: posts_def)
  obtain w1 where w1: "up w1" "kvs w1 = kvs w" and L: "\<And>next. LoadPodIntoRequest (NewEtcdStorage cl) next req [] w =
      (case pods (kvs w) (req_name req) of
         None \<Rightarrow> ([(404, ErrorBody (wrap_text ErrPodNotFound (req_name req)))], w1)
       | Some pod \<Rightarrow> next (SetAttribute podAttributeKey (PodObj pod) req) [] w1)"
    and name: "\<And>pod. pods (kvs w) (req_name req) = Some pod \<Longrightarrow> Pod_Name pod = req_name req"
    using loaded [OF assms(1,2), OF assms(3,4), of req] by blast
  show ?thesis
  proof (cases "pods (kvs w) (req_name req)")
    case None
    then show ?thesis using assms(7) w1 unfolding L by (auto simp: sent_status_def)
  next
    case (Some old)
    note nm = name [OF Some]
    show ?thesis
    proof (cases "Pod_Name pod = req_name req \<and> struct_tags (PodObj pod)")
      case True
      obtain w2 where u: "UpdatePod V (NewEtcdStorage cl) pod w1 = (None, w2)" and up2: "up w2"
        using registry.UpdatePod_up [OF reg w1(1) assms(6)] True by blast
      have "pods (kvs w2) = (pods (kvs w))(Pod_Name pod \<mapsto> pod)"
        using views_stored_Pod(1) [OF registry.UpdatePod_ok(2) [OF reg u] assms(6)] w1(2) by simp
      then show ?thesis
        using assms(7) Some True nm u r up2 unfolding L
        by (auto simp: PodHandler_UpdatePod_def write_defs sent_status_def)
    next
      case False
      obtain e w2 where u: "UpdatePod V (NewEtcdStorage cl) pod w1 = (e, w2)" by (metis prod.collapse)
      have "\<not> struct_tags (PodObj pod) \<Longrightarrow> (\<exists>x. e = Some (wrap_cause ErrPodInvalid '''' x)) \<and> w2 = w1"
        using u struct_validator.Pod_Validate_None [OF assms(2), of pod]
        by (auto simp: UpdatePod_def split: option.splits)
      then show ?thesis
        using assms(7) Some False nm u r w1 unfolding L
        by (auto simp: PodHandler_UpdatePod_def write_defs sent_status_def split: if_splits)
    qed
  qed
qed


text \<open>C18: deleting a pod over HTTP. With etcd up, \<open>DELETE /pods/{name}\<close> answers 404 when the pod does not exist
  and leaves the store as it was; otherwise it answers 204 and the pod, and nothing else, is gone.\<close>

theorem DELETE_pod:
  assumes "etcd_kv cl kvs up" "struct_validator V" "up w" "store_inv (kvs w)"
    and "LoadPodIntoRequest (NewEtcdStorage cl) (PodHandler_DeletePod (NewEtcdStorage cl)) req [] w = (resp, w')"
  shows "if pods (kvs w) (req_name req) = None then sent_status resp = 404 \<and> kvs w' = kvs w
    else resp = [(204, NoBody)] \<and> pods (kvs w') = (pods (kvs w))(req_name req := None) \<and>
      nodes (kvs w') = nodes (kvs w) \<and> replicasets (kvs w') = replicasets (kvs w)"
proof -
  note reg = etcd_registry [OF assms(1,2)]
  obtain w1 where w1: "up w1" "kvs w1 = kvs w" and L: "\<And>next. LoadPodIntoRequest (NewEtcdStorage cl) next req [] w =
      (case pods (kvs w) (req_name req) of
         None \<Rightarrow> ([(404, ErrorBody (wrap_text ErrPodNotFound (req_name req)))], w1)
       | Some pod \<Rightarrow> next (SetAttribute podAttributeKey (PodObj pod) req) [] w1)"
    and name: "\<And>pod. pods (kvs w) (req_name req) = Some pod \<Longrightarrow> Pod_Name pod = req_name req"
    using loaded [OF assms(1,2), OF assms(3,4), of req] by blast
  show ?thesis
  proof (cases "pods (kvs w) (req_name req)")
    case None
    then show ?thesis using assms(5) w1(2) unfolding L by (auto simp: sent_status_def)
  next
    case (Some pod)
    obtain w2 where d: "DeletePod (NewEtcdStorage cl) (req_name req) w1 = (None, w2)"
      using registry.DeletePod_up [OF reg w1(1)] by blast
    have "kvs w2 = (kvs w)(PodRegistry_generateKey (req_name req) := None)"
      using registry.DeletePod_ok [OF reg d] w1(2) by simp
    then show ?thesis
      using assms(5) Some name [OF Some] d unfolding L
      by (auto simp: PodHandler_DeletePod_def write_defs views_del_Pod)
  qed
qed

text \<open>C19: the list a kubelet polls. With etcd up, \<open>GET /pods?nodeName=n\<close> for a non-empty \<open>n\<close> answers 200 with
  exactly the stored pods assigned to \<open>n\<close>, each once, in the order of their names.\<close>

theorem GET_pods_of_node:
  assumes "etcd_kv cl kvs up" "struct_validator V" "up w" "store_inv (kvs w)" "req_nodeName req \<noteq> ''''"
  shows "\<exists>ps w'. PodHandler_ListPods (NewEtcdStorage cl) req [] w = ([(200, Entities (Some (map PodObj ps)))], w') \<and>
    sorted_wrt (<) (map Pod_Name ps) \<and>
    (\<forall>p. p \<in> set ps \<longleftrightarrow> pods (kvs w) (Pod_Name p) = Some p \<and> Pod_NodeName p = req_nodeName req) \<and> kvs w' = kvs w"
proof -
  note reg = etcd_registry [OF assms(1,2)]
  obtain ps w1 where l: "ListPods (NewEtcdStorage cl) w = (Inr ps, w1)" "lists_pods (kvs w) ps" "kvs w1 = kvs w"
    using registry.ListPods_up [OF reg assms(3) store_inv_kept [OF assms(4)]] by blast
  let ?ps = "filter (\<lambda>p. Pod_NodeName p = req_nodeName req) ps"
  have "sorted_wrt (<) (map Pod_Name ?ps)"
    using l(2) by (auto simp: lists_pods_def sorted_wrt_map intro: sorted_wrt_filter)
  moreover have "\<forall>p. p \<in> set ?ps \<longleftrightarrow> pods (kvs w) (Pod_Name p) = Some p \<and> Pod_NodeName p = req_nodeName req"
    using l(2) by (auto simp: lists_pods_def)
  ultimately show ?thesis
    using l(1,3) assms(5) by (intro exI [of _ ?ps] exI [of _ w1]) (simp add: PodHandler_ListPods_def write_defs)
qed

subsection \<open>Witnesses\<close>

definition demo_req :: "string \<Rightarrow> Object \<Rightarrow> request" where
  "demo_req name obj = \<lparr>req_name = name, req_nodeName = ''node-1'', req_ReadEntity = (\<lambda>_. Inr obj), req_Attribute = Map.empty\<rparr>"

lemma demo_posts: "posts (demo_req name obj) obj"
  by (simp add: posts_def demo_req_def)

lemma demo_req_simps [simp]: "req_name (demo_req name obj) = name" "req_nodeName (demo_req name obj) = ''node-1''"
  by (simp_all add: demo_req_def)

theorem POST_pods_witness:
  "sent_status (fst (PodHandler_CreatePod tag_validator mem_storage (demo_req '''' (PodObj demo_pod)) [] (mem_empty []))) = 201 \<and>
   map fst (fst (PodHandler_CreatePod tag_validator mem_storage (demo_req '''' (PodObj demo_pod)) [] demo_world)) = [409, 201]"
proof -
  obtain resp w' where r: "PodHandler_CreatePod tag_validator mem_storage (demo_req '''' (PodObj demo_pod)) [] (mem_empty []) = (resp, w')"
    by (metis prod.collapse)
  obtain resp2 w2 where r2: "PodHandler_CreatePod tag_validator mem_storage (demo_req '''' (PodObj demo_pod)) [] demo_world = (resp2, w2)"
    by (metis prod.collapse)
  have "sent_status resp = 201"
    using POST_pods [OF mem_laws, OF empty_up demo_posts demo_storable(1) r] demo_tags(1) by simp
  moreover have "map fst resp2 = [409, 201]"
    using POST_pods [OF mem_laws, OF demo_created(2) demo_posts demo_storable(1) r2] by (auto simp: demo_world_views(1))
  ultimately show ?thesis using r r2 by simp
qed

lemma GET_pod_instance:
  "fst (LoadPodIntoRequest mem_storage PodHandler_GetPod (demo_req ''web'' (PodObj zero_Pod)) [] demo_world)
     = [(200, Entity (PodObj (with_status demo_pod)))]"
  using GET_pod [OF mem_laws, OF demo_created(2) demo_world_views(3), of "demo_req ''web'' (PodObj zero_Pod)"]
  by (auto simp: demo_world_views(1))


theorem DELETE_pod_witness:
  "\<exists>w'. LoadPodIntoRequest mem_storage (PodHandler_DeletePod mem_storage) (demo_req ''web'' (PodObj zero_Pod)) [] demo_world
     = ([(204, NoBody)], w') \<and> pods (mem_contents w') ''web'' = None"
proof -
  obtain resp w' where r: "LoadPodIntoRequest mem_storage (PodHandler_DeletePod mem_storage)
     (demo_req ''web'' (PodObj zero_Pod)) [] demo_world = (resp, w')"
    by (metis prod.collapse)
  show ?thesis
    using DELETE_pod [OF mem_laws, OF demo_created(2) demo_world_views(3) r] r by (simp add: demo_world_views(1))
qed

theorem GET_pods_of_node_witness:
  "\<exists>w'. PodHandler_ListPods mem_storage (demo_req '''' (PodObj zero_Pod)) [] demo_world
     = ([(200, Entities (Some []))], w')"
proof -
  have "req_nodeName (demo_req '''' (PodObj zero_Pod)) \<noteq> ''''" by simp
  from GET_pods_of_node [OF mem_laws, OF demo_created(2) demo_world_views(3) this]
  obtain ps w' where l: "PodHandler_ListPods mem_storage (demo_req '''' (PodObj zero_Pod)) [] demo_world =
      ([(200, Entities (Some (map PodObj ps)))], w')"
    "\<forall>p. p \<in> set ps \<longleftrightarrow> pods (mem_contents demo_world) (Pod_Name p) = Some p \<and>
       Pod_NodeName p = req_nodeName (demo_req '''' (PodObj zero_Pod))"
    by blast
  have "p \<notin> set ps" for p
    using l(2) [rule_format, of p] by (auto simp: demo_world_views(1) demo_pod_def zero_defs split: if_splits)
  then have "ps = []" by (cases ps) auto
  then show ?thesis using l(1) by simp
qed

end
