(* ===== verification/Kubelet_API.thy ===== *)
theory Kubelet_API
  imports Handler_Properties Kubelet
begin

text \<open>
  The kubelet against the API server: registration and status updates over HTTP. What net/http and
  go-restful do between the two is a hypothesis: a POST to the nodes' URL, or a PUT to the URL of a pod,
  runs the handler on a request whose body \<open>ReadEntity\<close> decodes as JSON and whose path parameter is the
  name, and the client sees the status the handler sent.
\<close>

definition post_request :: "bytes \<Rightarrow> request" where
  "post_request data = \<lparr>req_name = '''', req_nodeName = '''', req_ReadEntity = Decode data, req_Attribute = Map.empty\<rparr>"

definition delivers :: "'w http_client \<Rightarrow> Kubelet \<Rightarrow> 'w handler \<Rightarrow> bool" where
  "delivers H k h \<longleftrightarrow> (\<forall>data w. http_Post H (''http://'' @ k_apiServerURL k @ ''/api/v1/nodes'') data w =
     (case h (post_request data) [] w of (resp, w') \<Rightarrow> (Inr (sent_status resp, []), w')))"

abbreviation kubelet_node :: "Kubelet \<Rightarrow> Node" where
  "kubelet_node k \<equiv> zero_Node\<lparr>Node_ObjectMeta := zero_ObjectMeta\<lparr>Meta_Name := k_nodeName k\<rparr>, Node_Status := NodeReady\<rparr>"

lemma kubelet_node_ok:
  assumes "plain_element (k_nodeName k)" "valid_utf8 (k_nodeName k)"
  shows "storable (NodeObj (kubelet_node k))" "struct_tags (NodeObj (kubelet_node k))"
proof -
  have "valid_utf8 NodeReady" "valid_utf8 []" by code_simp+
  moreover have "valid_time zero_Time" by (simp add: valid_time_def zero_Time_def days_in_def)
  ultimately show "storable (NodeObj (kubelet_node k))" "struct_tags (NodeObj (kubelet_node k))"
    using assms by (simp_all add: zero_defs meta_ok_def meta_tags_def plain_element_def)
qed

lemma kubelet_registers:
  assumes "etcd_kv cl kvs up" "struct_validator V" "up w" "store_inv (kvs w)"
    and "delivers H k (NodeHandler_CreateNode V (NewEtcdStorage cl))"
    and "plain_element (k_nodeName k)" "valid_utf8 (k_nodeName k)"
  obtains w' where "up w'"
    "if nodes (kvs w) (k_nodeName k) = None
     then Kubelet_Start H k w = (None, w') \<and> nodes (kvs w') = (nodes (kvs w))(k_nodeName k \<mapsto> kubelet_node k) \<and> store_inv (kvs w')
     else (\<exists>err. Kubelet_Start H k w = (Some err, w')) \<and> kvs w' = kvs w"
proof -
  note reg = etcd_registry [OF assms(1,2)] and ok = kubelet_node_ok [OF assms(6,7)]
  let ?node = "kubelet_node k"
  have name: "Node_Name ?node = k_nodeName k" by simp
  obtain data where data: "Encode (NodeObj ?node) = Inr data" using Encode_storable [OF ok(1)] by blast
  have read: "Decode data (NodeObj zero_Node) = Inr (NodeObj ?node)"
    using Decode_Encode [OF ok(1) data] by simp
  obtain w' where c: "CreateNode V (NewEtcdStorage cl) ?node w =
      ((if nodes (kvs w) (k_nodeName k) = None then None else Some (wrap_text ErrNodeAlreadyExists (k_nodeName k))), w')" "up w'"
    using registry.CreateNode_up [OF reg assms(3) _ ok store_inv_kept [OF assms(4)]] assms(6) by auto
  have post: "http_Post H (''http://'' @ k_apiServerURL k @ ''/api/v1/nodes'') data w =
      (Inr (if nodes (kvs w) (k_nodeName k) = None then 201 else 409, []), w')"
    using assms(5) c(1) read
    by (simp add: delivers_def post_request_def NodeHandler_CreateNode_def write_defs sent_status_def)
  show thesis
  proof (cases "nodes (kvs w) (k_nodeName k) = None")
    case True
    then have st: "stored (object_key (NodeObj ?node)) (NodeObj ?node) (kvs w) (kvs w')"
      using registry.CreateNode_ok(2) [OF reg, of ?node w w'] c(1) by simp
    have "Kubelet_Start H k w = (None, w')"
      using post data True by (simp add: Kubelet_Start_def registerNode_def Let_def StatusCreated_def)
    moreover have "nodes (kvs w') = (nodes (kvs w))(k_nodeName k \<mapsto> ?node)"
      using views_stored_Node(2) [OF st ok(1)] assms(6) by simp
    moreover have "store_inv (kvs w')"
      using store_inv_stored [OF assms(4) st ok(1)] assms(6) by simp
    ultimately show thesis using True c(2) by (intro that) simp_all
  next
    case False
    then have "kvs w' = kvs w"
      using registry.CreateNode_err [OF reg, of ?node w _ w'] c(1) by auto
    moreover have "\<exists>err. Kubelet_Start H k w = (Some err, w')"
      using post data False by (simp add: Kubelet_Start_def registerNode_def Let_def StatusCreated_def)
    ultimately show thesis using False c(2) by (intro that) auto
  qed
qed

text \<open>C30: a kubelet registers once. While etcd is up, the first \<open>Start\<close> on a cluster without the node succeeds
  and stores the node as \<open>Ready\<close>; every later \<open>Start\<close> under the same name fails, because the node exists,
  and leaves the store as it was: a kubelet that was restarted cannot start again.\<close>

theorem kubelet_registers_once:
  assumes "etcd_kv cl kvs up" "struct_validator V" "up w" "store_inv (kvs w)"
    and "delivers H k (NodeHandler_CreateNode V (NewEtcdStorage cl))"
    and "plain_element (k_nodeName k)" "valid_utf8 (k_nodeName k)" "nodes (kvs w) (k_nodeName k) = None"
  shows "\<exists>w1 w2 err node. Kubelet_Start H k w = (None, w1) \<and>
    nodes (kvs w1) = (nodes (kvs w))(k_nodeName k \<mapsto> node) \<and> Node_Status node = NodeReady \<and>
    Kubelet_Start H k w1 = (Some err, w2) \<and> kvs w2 = kvs w1"
proof -
  obtain w1 where w1: "up w1" "Kubelet_Start H k w = (None, w1)" "store_inv (kvs w1)"
      "nodes (kvs w1) = (nodes (kvs w))(k_nodeName k \<mapsto> kubelet_node k)"
    by (rule kubelet_registers [OF assms(1,2), OF assms(3-7)]) (use assms(8) in auto)
  obtain err w2 where "Kubelet_Start H k w1 = (Some err, w2)" "kvs w2 = kvs w1"
    by (rule kubelet_registers [OF assms(1,2), OF w1(1,3) assms(5-7)]) (use w1(4) in auto)
  then show ?thesis
    using w1 by (intro exI [of _ w1] exI [of _ w2] exI [of _ err] exI [of _ "kubelet_node k"]) simp
qed

subsection \<open>Status updates\<close>

definition put_request :: "string \<Rightarrow> bytes \<Rightarrow> request" where
  "put_request name data = \<lparr>req_name = name, req_nodeName = '''', req_ReadEntity = Decode data, req_Attribute = Map.empty\<rparr>"

definition delivers_put :: "'w http_client \<Rightarrow> Kubelet \<Rightarrow> string \<Rightarrow> 'w handler \<Rightarrow> bool" where
  "delivers_put H k name h \<longleftrightarrow>
     (let url = ''http://'' @ k_apiServerURL k @ ''/api/v1/pods/'' @ name
      in http_NewRequest H url = None \<and>
         (\<forall>data w. http_Put H url data w =
            (case h (put_request name data) [] w of (resp, w') \<Rightarrow> (Inr (sent_status resp, []), w'))))"

text \<open>C7: a status update replaces the whole pod. While etcd is up, the kubelet's report of a valid pod that the
  store has succeeds, and the store then holds the kubelet's copy, whatever it held before: a change made
  to the pod since the kubelet read it is undone. The report of a pod that was deleted fails and
  changes nothing.\<close>

theorem status_update_replaces_pod:
  assumes "etcd_kv cl kvs up" "struct_validator V" "up w" "store_inv (kvs w)"
    and "delivers_put H k (Pod_Name pod) (LoadPodIntoRequest (NewEtcdStorage cl) (PodHandler_UpdatePod V (NewEtcdStorage cl)))"
    and "storable (PodObj pod)" "struct_tags (PodObj pod)"
  shows "\<exists>r w'. updatePodStatus H k pod w = (r, w') \<and> up w' \<and>
    (if pods (kvs w) (Pod_Name pod) = None then r \<noteq> None \<and> kvs w' = kvs w
     else r = None \<and> pods (kvs w') = (pods (kvs w))(Pod_Name pod \<mapsto> pod))"
proof -
  let ?h = "LoadPodIntoRequest (NewEtcdStorage cl) (PodHandler_UpdatePod V (NewEtcdStorage cl))"
  obtain data where data: "Encode (PodObj pod) = Inr data" using Encode_storable [OF assms(6)] by blast
  obtain resp w' where h: "?h (put_request (Pod_Name pod) data) [] w = (resp, w')" by fastforce
  have "posts (put_request (Pod_Name pod) data) (PodObj pod)"
    using Decode_Encode [OF assms(6) data] by (simp add: posts_def put_request_def)
  note P = PUT_pod_effect [OF assms(1,2), OF assms(3,4) this assms(6) h]
  have "updatePodStatus H k pod w =
      (if sent_status resp \<noteq> StatusOK
       then Some (Errorf None (''failed to update pod status, status code: '' @ show_int (sent_status resp)) None) else None, w')"
    using assms(5) data h by (simp add: updatePodStatus_def delivers_put_def Let_def)
  then show ?thesis
    using P assms(7) by (auto simp: put_request_def StatusOK_def split: if_splits)
qed

subsection \<open>Witnesses\<close>

definition loopback :: "'w handler \<Rightarrow> 'w http_client" where
  "loopback h =
     \<lparr>http_Post = (\<lambda>url data w. case h (post_request data) [] w of (resp, w') \<Rightarrow> (Inr (sent_status resp, []), w')),
      http_Get = (\<lambda>url w. (Inl (External ''not served''), w)), http_NewRequest = (\<lambda>url. None),
      http_Put = (\<lambda>url data w. (Inl (External ''not served''), w))\<rparr>"

theorem kubelet_registers_once_witness:
  "\<exists>w1 w2 err. Kubelet_Start (loopback (NodeHandler_CreateNode tag_validator mem_storage))
       \<lparr>k_nodeName = ''node-1'', k_apiServerURL = ''localhost:8080'', k_pods = Map.empty\<rparr> demo_world = (None, w1) \<and>
     Kubelet_Start (loopback (NodeHandler_CreateNode tag_validator mem_storage))
       \<lparr>k_nodeName = ''node-1'', k_apiServerURL = ''localhost:8080'', k_pods = Map.empty\<rparr> w1 = (Some err, w2)"
proof -
  let ?k = "\<lparr>k_nodeName = ''node-1'', k_apiServerURL = ''localhost:8080'', k_pods = Map.empty\<rparr>"
  let ?H = "loopback (NodeHandler_CreateNode tag_validator mem_storage)"
  have "delivers ?H ?k (NodeHandler_CreateNode tag_validator mem_storage)"
    by (simp add: delivers_def loopback_def)
  moreover have "plain_element (k_nodeName ?k)" by (simp add: plain_element_def)
  moreover have "valid_utf8 (k_nodeName ?k)" by code_simp
  moreover have "nodes (mem_contents demo_world) (k_nodeName ?k) = None" by (simp add: demo_world_views)
  ultimately show ?thesis
    using kubelet_registers_once [OF mem_laws, OF demo_created(2) demo_world_views(3)] by blast
qed

definition put_loopback :: "'w handler \<Rightarrow> 'w http_client" where
  "put_loopback h =
     \<lparr>http_Post = (\<lambda>url data w. (Inl (External ''not served''), w)),
      http_Get = (\<lambda>url w. (Inl (External ''not served''), w)), http_NewRequest = (\<lambda>url. None),
      http_Put = (\<lambda>url data w. case h (put_request ''web'' data) [] w of (resp, w') \<Rightarrow> (Inr (sent_status resp, []), w'))\<rparr>"

theorem status_update_replaces_pod_witness:
  "\<exists>w'. updatePodStatus (put_loopback (LoadPodIntoRequest mem_storage (PodHandler_UpdatePod tag_validator mem_storage)))
     \<lparr>k_nodeName = ''node-1'', k_apiServerURL = ''localhost:8080'', k_pods = Map.empty\<rparr> demo_pod demo_world = (None, w') \<and>
     pods (mem_contents w') ''web'' = Some demo_pod"
proof -
  let ?k = "\<lparr>k_nodeName = ''node-1'', k_apiServerURL = ''localhost:8080'', k_pods = Map.empty\<rparr>"
  let ?h = "LoadPodIntoRequest mem_storage (PodHandler_UpdatePod tag_validator mem_storage)"
  have n: "Pod_Name demo_pod = ''web''" by (simp add: demo_pod_def)
  have "delivers_put (put_loopback ?h) ?k (Pod_Name demo_pod) ?h"
    unfolding n by (simp add: delivers_put_def put_loopback_def)
  from status_update_replaces_pod [OF mem_laws, OF demo_created(2) demo_world_views(3) this demo_storable(1) demo_tags(1)]
  show ?thesis by (auto simp: n demo_world_views(1) split: if_splits)
qed

end
