(* ===== verification/Commands.thy ===== *)
theory Commands
  imports Controller Kubelet Handlers
begin

text \<open>
  The four programs under \<open>cmd/\<close>, the embedded etcd of \<open>pkg/storage/etcd.go\<close> that the API server starts, and the
  helper of \<open>pkg/storage/helper.go\<close> that runs a function on an embedded etcd.
  The host is what these functions acquire and release: the temporary directories, the running etcd
  servers, each known by its configuration, and the open clients. What the operating system, etcd and
  the network decide is a record \<open>outcomes\<close>; the theorems hold for all of them. A program is its
  \<open>run\<close> function behind \<open>main\<close>, which makes an exit status of the error; cobra, which reads the command line,
  is a parameter. A signal that ends the scheduler or the controller is taken between two passes of its
  loop.
\<close>

subsection \<open>The host\<close>

record etcd_Config =
  cfg_Dir :: string
  cfg_ListenPeerUrls :: "string list"
  cfg_ListenClientUrls :: "string list"

record host =
  h_dirs :: "string list"
  h_servers :: "etcd_Config list"
  h_clients :: nat

text \<open>\<open>o_listen_peer\<close> and \<open>o_listen_client\<close> are the two calls of \<open>net.Listen\<close>: an error, or the port and what closing the
  listener returns; \<open>o_ready\<close> tells whether the server was ready within ten seconds; \<open>o_serve\<close> is the case
  of the last \<open>select\<close>: \<open>Inl\<close> what \<open>ListenAndServe\<close> returned, \<open>Inr\<close> a signal.\<close>

record outcomes =
  o_mkdir :: "error + string"
  o_abs :: "string \<Rightarrow> error + string"
  o_listen_peer :: "error + int \<times> error option"
  o_listen_client :: "error + int \<times> error option"
  o_start :: "error option"
  o_ready :: bool
  o_client :: "error option"
  o_serve :: "error + unit"

subsection \<open>The embedded etcd\<close>

definition createTempDir :: "outcomes \<Rightarrow> host \<Rightarrow> (error + string) \<times> host" where
  "createTempDir e h =
     (case o_mkdir e of
        Inl err \<Rightarrow> (Inl (Errorf (Some err) ''failed to create temp directory'' None), h)
      | Inr tempDir \<Rightarrow> (o_abs e tempDir, h\<lparr>h_dirs := tempDir # h_dirs h\<rparr>))"

definition PickAvailableRandomPort :: "error + int \<times> error option \<Rightarrow> error + int" where
  "PickAvailableRandomPort listen =
     (case listen of
        Inl err \<Rightarrow> Inl err
      | Inr (port, None) \<Rightarrow> Inr port
      | Inr (port, Some err) \<Rightarrow> Inl err)"

text \<open>A port of 0 asks for any free one.\<close>

definition choose_port :: "int \<Rightarrow> error + int \<times> error option \<Rightarrow> error + int" where
  "choose_port port listen = (if port = 0 then PickAvailableRandomPort listen else Inr port)"

definition local_url :: "int \<Rightarrow> string" where
  "local_url port = ''http://127.0.0.1:'' @ show_int port"

definition StartEmbeddedEtcdWithPort ::
  "outcomes \<Rightarrow> int \<Rightarrow> int \<Rightarrow> host \<Rightarrow> (error + etcd_Config \<times> int) \<times> host" where
  "StartEmbeddedEtcdWithPort e peerPort clientPort h =
     (case createTempDir e h of
        (Inl err, h1) \<Rightarrow> (Inl err, h1)
      | (Inr dir, h1) \<Rightarrow>
          (case choose_port peerPort (o_listen_peer e) of
             Inl err \<Rightarrow> (Inl err, h1)
           | Inr peer \<Rightarrow>
               (case choose_port clientPort (o_listen_client e) of
                  Inl err \<Rightarrow> (Inl err, h1)
                | Inr client \<Rightarrow>
                    (let cfg = \<lparr>cfg_Dir = dir, cfg_ListenPeerUrls = [local_url peer],
                                cfg_ListenClientUrls = [local_url client]\<rparr>
                     in case o_start e of
                          Some err \<Rightarrow> (Inl err, h1)
                        | None \<Rightarrow>
                            (let h2 = h1\<lparr>h_servers := cfg # h_servers h1\<rparr>
                             in if o_ready e then (Inr (cfg, client), h2)
                                else (Inl (Errorf None ''server took too long to start'' None),
                                      h2\<lparr>h_servers := remove1 cfg (h_servers h2)\<rparr>))))))"

definition StartEmbeddedEtcd :: "outcomes \<Rightarrow> host \<Rightarrow> (error + etcd_Config \<times> int) \<times> host" where
  "StartEmbeddedEtcd e h = StartEmbeddedEtcdWithPort e 0 0 h"

definition StopEmbeddedEtcd :: "etcd_Config \<Rightarrow> host \<Rightarrow> host" where
  "StopEmbeddedEtcd cfg h =
     h\<lparr>h_servers := remove1 cfg (h_servers h), h_dirs := remove1 (cfg_Dir cfg) (h_dirs h)\<rparr>"

subsection \<open>The API server\<close>

definition close_client :: "host \<Rightarrow> host" where
  "close_client h = h\<lparr>h_clients := h_clients h - 1\<rparr>"

definition runAPIServer :: "outcomes \<Rightarrow> int \<Rightarrow> int \<Rightarrow> host \<Rightarrow> error option \<times> host" where
  "runAPIServer e etcdPeerPort etcdClientPort h =
     (case StartEmbeddedEtcdWithPort e etcdPeerPort etcdClientPort h of
        (Inl err, h1) \<Rightarrow> (Some (Errorf None ''failed to start etcd'' (Some err)), h1)
      | (Inr (etcdServer, port), h1) \<Rightarrow>
          (case o_client e of
             Some err \<Rightarrow> (Some (Errorf None ''failed to create etcd client'' (Some err)), h1)
           | None \<Rightarrow>
               (let h2 = h1\<lparr>h_clients := h_clients h1 + 1\<rparr>
                in case o_serve e of
                     Inl err \<Rightarrow> (Some err, close_client (StopEmbeddedEtcd etcdServer h2))
                   | Inr _ \<Rightarrow> (None, close_client (StopEmbeddedEtcd etcdServer h2)))))"

definition main_exit :: "error option \<Rightarrow> int" where
  "main_exit err = (if err = None then 0 else 1)"

subsection \<open>The scheduler and the controller\<close>

text \<open>\<open>mk\<close> is \<open>clientv3.New\<close> and \<open>cls\<close> the \<open>Close\<close> of the client; \<open>evs\<close> are the cases of the loop's \<open>select\<close> up to the signal.
  \<open>time.NewTicker\<close> panics on an interval that is not positive; a panic of a goroutine ends the process with
  status 2, without the deferred calls.\<close>

definition etcd_endpoint :: "int \<Rightarrow> string" where
  "etcd_endpoint port = ''localhost:'' @ show_int port"

definition runScheduler ::
  "(string \<Rightarrow> 'w \<Rightarrow> (error + 'w etcd_client) \<times> 'w) \<Rightarrow> ('w \<Rightarrow> 'w) \<Rightarrow> validator \<Rightarrow> int \<Rightarrow> int \<Rightarrow> loop_event list \<Rightarrow> rng \<Rightarrow> 'w
   \<Rightarrow> (int \<times> 'w) option" where
  "runScheduler mk cls V etcdPort schedulingRate evs s w =
     (case mk (etcd_endpoint etcdPort) w of
        (Inl err, w1) \<Rightarrow> Some (main_exit (Some (Errorf None ''failed to create etcd client'' (Some err))), w1)
      | (Inr cli, w1) \<Rightarrow>
          if schedulingRate \<le> 0 then Some (2, w1)
          else map_option (\<lambda>(s', w2). (main_exit None, cls w2)) (Scheduler_Start V (NewEtcdStorage cli) evs s w1))"

text \<open>\<open>log.Fatalf\<close> in the controller's goroutine ends the process with status 1, without the deferred calls.\<close>

definition runController ::
  "(string \<Rightarrow> 'w \<Rightarrow> (error + 'w etcd_client) \<times> 'w) \<Rightarrow> ('w \<Rightarrow> 'w) \<Rightarrow> validator \<Rightarrow> int \<Rightarrow> loop_event list \<Rightarrow> rng \<Rightarrow> 'w
   \<Rightarrow> (int \<times> 'w) option" where
  "runController mk cls V etcdPort evs s w =
     (case mk (etcd_endpoint etcdPort) w of
        (Inl err, w1) \<Rightarrow> Some (main_exit (Some (Errorf None ''failed to create etcd client'' (Some err))), w1)
      | (Inr cli, w1) \<Rightarrow>
          map_option (\<lambda>((r, s'), w2). case r of Exited \<Rightarrow> (1, w2) | Returned \<Rightarrow> (main_exit None, cls w2))
            (Controller_Start V (NewEtcdStorage cli) evs s w1))"

subsection \<open>The kubelet\<close>

text \<open>\<open>None\<close> is the \<open>select {}\<close> in which a kubelet that has started stays.\<close>

definition runKubelet ::
  "'w http_client \<Rightarrow> string \<Rightarrow> string \<Rightarrow> error option \<Rightarrow> 'w \<Rightarrow> (error \<times> 'w) option" where
  "runKubelet H nodeName apiServerURL dockerErr w =
     (case NewKubelet nodeName apiServerURL dockerErr of
        Inl err \<Rightarrow> Some (Errorf None ''failed to create kubelet'' (Some err), w)
      | Inr k \<Rightarrow>
          (case Kubelet_Start H k w of
             (Some err, w1) \<Rightarrow> Some (Errorf None ''failed to start kubelet'' (Some err), w1)
           | (None, w1) \<Rightarrow> None))"

subsection \<open>The command lines\<close>

text \<open>\<open>execute\<close> is what \<open>rootCmd.Execute\<close> of cobra makes of the arguments and the default values of the flags: an
  error, nothing more to do (a help text was asked for), or the flags the command runs with.\<close>

datatype 'f command_line = ParseError error | HelpShown | RunWith 'f

definition command_main ::
  "('f \<Rightarrow> 'f command_line) \<Rightarrow> 'f \<Rightarrow> ('f \<Rightarrow> 'w \<Rightarrow> (int \<times> 'w) option) \<Rightarrow> 'w \<Rightarrow> (int \<times> 'w) option" where
  "command_main execute defaults run w =
     (case execute defaults of
        ParseError err \<Rightarrow> Some (main_exit (Some err), w)
      | HelpShown \<Rightarrow> Some (main_exit None, w)
      | RunWith flags \<Rightarrow> run flags w)"

record apiserver_flags =
  address :: string
  etcdPeerPort :: int
  etcdClientPort :: int

definition apiserver_main ::
  "(apiserver_flags \<Rightarrow> apiserver_flags command_line) \<Rightarrow> outcomes \<Rightarrow> host \<Rightarrow> (int \<times> host) option" where
  "apiserver_main execute e h =
     command_main execute \<lparr>address = '':8080'', etcdPeerPort = 0, etcdClientPort = 2379\<rparr>
       (\<lambda>f h. case runAPIServer e (etcdPeerPort f) (etcdClientPort f) h of (r, h') \<Rightarrow> Some (main_exit r, h')) h"

record scheduler_flags =
  sched_etcdPort :: int
  schedulingRate :: int

definition scheduler_main ::
  "(scheduler_flags \<Rightarrow> scheduler_flags command_line) \<Rightarrow> (string \<Rightarrow> 'w \<Rightarrow> (error + 'w etcd_client) \<times> 'w) \<Rightarrow> ('w \<Rightarrow> 'w) \<Rightarrow>
   validator \<Rightarrow> loop_event list \<Rightarrow> rng \<Rightarrow> 'w \<Rightarrow> (int \<times> 'w) option" where
  "scheduler_main execute mk cls V evs s w =
     command_main execute \<lparr>sched_etcdPort = 2379, schedulingRate = 10 * 1000000000\<rparr>
       (\<lambda>f. runScheduler mk cls V (sched_etcdPort f) (schedulingRate f) evs s) w"

record controller_flags =
  ctl_apiServerURL :: string
  ctl_etcdPort :: int

definition controller_main ::
  "(controller_flags \<Rightarrow> controller_flags command_line) \<Rightarrow> (string \<Rightarrow> 'w \<Rightarrow> (error + 'w etcd_client) \<times> 'w) \<Rightarrow> ('w \<Rightarrow> 'w) \<Rightarrow>
   validator \<Rightarrow> loop_event list \<Rightarrow> rng \<Rightarrow> 'w \<Rightarrow> (int \<times> 'w) option" where
  "controller_main execute mk cls V evs s w =
     command_main execute \<lparr>ctl_apiServerURL = ''localhost:8080'', ctl_etcdPort = 2379\<rparr>
       (\<lambda>f. runController mk cls V (ctl_etcdPort f) evs s) w"

record kubelet_flags =
  flag_nodeName :: string
  flag_apiServerURL :: string

definition kubelet_main ::
  "(kubelet_flags \<Rightarrow> kubelet_flags command_line) \<Rightarrow> 'w http_client \<Rightarrow> error option \<Rightarrow> 'w \<Rightarrow> (int \<times> 'w) option" where
  "kubelet_main execute H dockerErr w =
     command_main execute \<lparr>flag_nodeName = '''', flag_apiServerURL = ''localhost:8080''\<rparr>
       (\<lambda>f w. map_option (\<lambda>(err, w'). (main_exit (Some err), w'))
          (runKubelet H (flag_nodeName f) (flag_apiServerURL f) dockerErr w)) w"

subsection \<open>Running on an embedded etcd\<close>

text \<open>\<open>t.Fatalf\<close> ends the test but, other than \<open>log.Fatalf\<close>, runs the deferred calls. \<open>test\<close> is the function that is
  called and \<open>closeErr\<close> what closing the client returns; the result tells whether \<open>t.Fatalf\<close> was not called here.\<close>

definition TestWithEmbeddedEtcd :: "outcomes \<Rightarrow> (host \<Rightarrow> host) \<Rightarrow> error option \<Rightarrow> host \<Rightarrow> bool \<times> host" where
  "TestWithEmbeddedEtcd e test closeErr h =
     (case StartEmbeddedEtcd e h of
        (Inl err, h1) \<Rightarrow> (False, h1)
      | (Inr (etcdServer, port), h1) \<Rightarrow>
          (case o_client e of
             Some err \<Rightarrow> (False, StopEmbeddedEtcd etcdServer h1)
           | None \<Rightarrow>
               (let h2 = close_client (test (h1\<lparr>h_clients := h_clients h1 + 1\<rparr>))
                in (closeErr = None, StopEmbeddedEtcd etcdServer h2))))"

subsection \<open>What the API server leaves behind\<close>

lemmas embedded_defs = StartEmbeddedEtcdWithPort_def createTempDir_def

lemma StartEmbeddedEtcd_result:
  assumes "StartEmbeddedEtcdWithPort e pp cp h = (r, h')" "o_mkdir e = Inr d" "o_abs e d = Inr d"
  shows "case r of
      Inl err \<Rightarrow> h' = h\<lparr>h_dirs := d # h_dirs h\<rparr>
    | Inr (cfg, port) \<Rightarrow> h' = h\<lparr>h_dirs := d # h_dirs h, h_servers := cfg # h_servers h\<rparr> \<and> cfg_Dir cfg = d \<and>
        cfg_ListenClientUrls cfg = [local_url port] \<and> (cp \<noteq> 0 \<longrightarrow> port = cp)"
  using assms by (auto simp: embedded_defs choose_port_def Let_def split: sum.splits option.splits if_splits)

lemma StartEmbeddedEtcd_no_dir:
  "o_mkdir e = Inl err \<Longrightarrow> \<exists>err'. StartEmbeddedEtcdWithPort e pp cp h = (Inl err', h)"
  by (simp add: embedded_defs)

lemma StopEmbeddedEtcd_undoes:
  "StopEmbeddedEtcd cfg (h\<lparr>h_dirs := cfg_Dir cfg # h_dirs h, h_servers := cfg # h_servers h, h_clients := n\<rparr>) =
     h\<lparr>h_clients := n\<rparr>"
  by (simp add: StopEmbeddedEtcd_def)

text \<open>C21: the API server gives back what it acquired when it ends by itself or by a signal: the etcd it
  started is stopped, its data directory removed and the client closed, whatever ends the service. A
  start that fails after the directory was made leaves the directory, and a failure to create the client
  leaves both the directory and the running etcd. The etcd listens on the port asked for.\<close>

theorem apiserver_releases:
  assumes "\<forall>d. o_mkdir e = Inr d \<longrightarrow> o_abs e d = Inr d"
    and "runAPIServer e pp cp h = (r, h')"
  shows "case o_mkdir e of
      Inl err \<Rightarrow> h' = h \<and> main_exit r = 1
    | Inr d \<Rightarrow>
        (case fst (StartEmbeddedEtcdWithPort e pp cp h) of
           Inl err \<Rightarrow> h' = h\<lparr>h_dirs := d # h_dirs h\<rparr> \<and> main_exit r = 1
         | Inr (cfg, port) \<Rightarrow> (cp \<noteq> 0 \<longrightarrow> port = cp) \<and> cfg_ListenClientUrls cfg = [local_url port] \<and>
             (if o_client e = None then h' = h \<and> (main_exit r = 0 \<longleftrightarrow> o_serve e = Inr ())
              else h' = h\<lparr>h_dirs := d # h_dirs h, h_servers := cfg # h_servers h\<rparr> \<and> main_exit r = 1))"
proof (cases "o_mkdir e")
  case (Inl err)
  then show ?thesis
    using StartEmbeddedEtcd_no_dir [OF Inl, of pp cp h] assms(2) by (auto simp: runAPIServer_def main_exit_def)
next
  case (Inr d)
  obtain r1 h1 where 1: "StartEmbeddedEtcdWithPort e pp cp h = (r1, h1)" by fastforce
  note res = StartEmbeddedEtcd_result [OF 1 Inr]
  show ?thesis
    using res assms Inr 1 StopEmbeddedEtcd_undoes
    by (auto simp: runAPIServer_def main_exit_def close_client_def Let_def split: sum.splits option.splits prod.splits)
qed

text \<open>Other than the API server, the helper stops its etcd also when the client cannot be created.\<close>

lemma TestWithEmbeddedEtcd_releases:
  assumes "o_mkdir e = Inr d" "o_abs e d = Inr d" "fst (StartEmbeddedEtcd e h) = Inr (cfg, port)" "\<And>h. test h = h"
  shows "snd (TestWithEmbeddedEtcd e test closeErr h) = h"
proof -
  obtain h1 where 1: "StartEmbeddedEtcd e h = (Inr (cfg, port), h1)" using assms(3) by (cases "StartEmbeddedEtcd e h") simp
  have "h1 = h\<lparr>h_dirs := d # h_dirs h, h_servers := cfg # h_servers h\<rparr>" "cfg_Dir cfg = d"
    using StartEmbeddedEtcd_result [OF 1 [unfolded StartEmbeddedEtcd_def] assms(1,2)] by simp_all
  then show ?thesis
    using 1 assms(4) by (auto simp: TestWithEmbeddedEtcd_def StopEmbeddedEtcd_def close_client_def Let_def split: option.split)
qed

text \<open>A host where the service runs until a signal, and one where the client cannot be created.\<close>

definition quiet_host :: outcomes where
  "quiet_host = \<lparr>o_mkdir = Inr ''/tmp/gokube-test-1'', o_abs = Inr, o_listen_peer = Inr (40001, None),
     o_listen_client = Inr (40002, None), o_start = None, o_ready = True, o_client = None, o_serve = Inr ()\<rparr>"

definition empty_host :: host where
  "empty_host = \<lparr>h_dirs = [], h_servers = [], h_clients = 0\<rparr>"

theorem apiserver_releases_witness:
  "snd (runAPIServer quiet_host 0 2379 empty_host) = empty_host \<and>
   h_dirs (snd (runAPIServer (quiet_host\<lparr>o_client := Some (External ''refused'')\<rparr>) 0 2379 empty_host)) = [''/tmp/gokube-test-1'']"
proof -
  have ok: "fst (StartEmbeddedEtcdWithPort e 0 2379 empty_host) = Inr (c, 2379)"
    if "e = quiet_host \<or> e = quiet_host\<lparr>o_client := Some (External ''refused'')\<rparr>"
      "c = \<lparr>cfg_Dir = ''/tmp/gokube-test-1'', cfg_ListenPeerUrls = [local_url 40001], cfg_ListenClientUrls = [local_url 2379]\<rparr>"
    for e c
    using that by (auto simp: embedded_defs choose_port_def PickAvailableRandomPort_def Let_def quiet_host_def)
  show ?thesis
    using apiserver_releases [of quiet_host 0 2379 empty_host]
      apiserver_releases [of "quiet_host\<lparr>o_client := Some (External ''refused'')\<rparr>" 0 2379 empty_host] ok
    by (auto simp: quiet_host_def prod_eq_iff) (simp add: empty_host_def)
qed

subsection \<open>Control loops when etcd fails\<close>

text \<open>The scheduler outlives every failure of its passes; the controller's process ends at the first tick at
  which the replica sets cannot be listed, with status 1 and its client open.\<close>

lemma runScheduler_survives:
  "mk (etcd_endpoint port) w = (Inr cli, w1) \<Longrightarrow> 0 < rate \<Longrightarrow> runScheduler mk cls V port rate evs s w = Some (r, w') \<Longrightarrow> r = 0"
  by (auto simp: runScheduler_def main_exit_def)

text \<open>The flag of the scheduling rate is not checked: a rate that is not positive crashes the program.\<close>

lemma scheduler_main_bad_rate:
  "execute \<lparr>sched_etcdPort = 2379, schedulingRate = 10 * 1000000000\<rparr> = RunWith f \<Longrightarrow> schedulingRate f \<le> 0 \<Longrightarrow>
   mk (etcd_endpoint (sched_etcdPort f)) w = (Inr cli, w1) \<Longrightarrow> scheduler_main execute mk cls V evs s w = Some (2, w1)"
  by (simp add: scheduler_main_def command_main_def runScheduler_def)

lemma runController_dies:
  "mk (etcd_endpoint port) w = (Inr cli, w1) \<Longrightarrow> ReplicaSet_List (NewEtcdStorage cli) w1 = (Inl err, w2) \<Longrightarrow>
   runController mk cls V port (Tick # evs) s w = Some (1, w2)"
  by (simp add: runController_def Controller_Run_def)

lemma runKubelet_blocks:
  "runKubelet H n url None w = None \<longleftrightarrow>
     fst (registerNode H \<lparr>k_nodeName = n, k_apiServerURL = url, k_pods = (\<lambda>_. None)\<rparr> w) = None"
  by (auto simp: runKubelet_def NewKubelet_def Kubelet_Start_def split: prod.splits option.splits)

end
