(* ===== verification/Retry.thy ===== *)
theory Retry
  imports Goerror
begin

text \<open>
  \<open>pkg/retry/retry.go\<close>. The operation and the select between the context and the timer act on a world
  \<open>'w\<close>: the select is given the duration of its timer and says which case fired. The product of a
  duration and the multiplier is a \<open>float64\<close> computation, kept as the function \<open>scale\<close> of the options.
  \<open>WithExponentialBackoff\<close> need not end, and neither need its operation, so \<open>None\<close> is a call that never
  returns; the durations of its timers are part of its result.
\<close>

datatype wait = CtxDone error | Timer

record Options =
  InitialDelay :: int
  MaxDelay :: int
  scale :: "int \<Rightarrow> int"

definition second :: int where "second = 1000000000"

definition DefaultOptions :: Options where
  "DefaultOptions = \<lparr>InitialDelay = 1 * second, MaxDelay = 30 * second, scale = (\<lambda>d. 2 * d)\<rparr>"

definition next_delay :: "Options \<Rightarrow> int \<Rightarrow> int" where
  "next_delay opts currentDelay =
     (let nextDelay = scale opts currentDelay
      in if nextDelay > MaxDelay opts then MaxDelay opts else nextDelay)"

partial_function (option) backoff_loop ::
  "Options \<Rightarrow> ('w \<Rightarrow> (error option \<times> 'w) option) \<Rightarrow> (int \<Rightarrow> 'w \<Rightarrow> wait \<times> 'w) \<Rightarrow> int \<Rightarrow> 'w \<Rightarrow>
   ((error option \<times> int list) \<times> 'w) option" where
  "backoff_loop opts operation sel currentDelay w =
     Option.bind (operation w) (\<lambda>(r, w1).
       case r of
         None \<Rightarrow> Some ((None, []), w1)
       | Some err \<Rightarrow>
           (case sel currentDelay w1 of
              (CtxDone e, w2) \<Rightarrow> Some ((Some e, [currentDelay]), w2)
            | (Timer, w2) \<Rightarrow>
                Option.bind (backoff_loop opts operation sel (next_delay opts currentDelay) w2)
                  (\<lambda>((r, ds), w'). Some ((r, currentDelay # ds), w'))))"

declare backoff_loop.simps [code]

definition WithExponentialBackoff ::
  "Options \<Rightarrow> ('w \<Rightarrow> (error option \<times> 'w) option) \<Rightarrow> (int \<Rightarrow> 'w \<Rightarrow> wait \<times> 'w) \<Rightarrow> 'w \<Rightarrow>
   ((error option \<times> int list) \<times> 'w) option" where
  "WithExponentialBackoff opts operation sel w = backoff_loop opts operation sel (InitialDelay opts) w"

text \<open>\<open>WithRetries\<close>: the attempts left, the last of which returns its error without waiting. With no
  attempt at all the loop body never runs and the result is \<open>nil\<close>.\<close>

fun retries_loop ::
  "nat \<Rightarrow> int \<Rightarrow> ('w \<Rightarrow> error option \<times> 'w) \<Rightarrow> (int \<Rightarrow> 'w \<Rightarrow> wait \<times> 'w) \<Rightarrow> 'w \<Rightarrow> error option \<times> 'w" where
  "retries_loop 0 delay operation sel w = (None, w)"
| "retries_loop (Suc n) delay operation sel w =
     (case operation w of
        (None, w1) \<Rightarrow> (None, w1)
      | (Some err, w1) \<Rightarrow>
          (if n = 0 then (Some err, w1)
           else (case sel delay w1 of
                   (CtxDone e, w2) \<Rightarrow> (Some e, w2)
                 | (Timer, w2) \<Rightarrow> retries_loop n delay operation sel w2)))"

definition WithRetries ::
  "int \<Rightarrow> int \<Rightarrow> ('w \<Rightarrow> error option \<times> 'w) \<Rightarrow> (int \<Rightarrow> 'w \<Rightarrow> wait \<times> 'w) \<Rightarrow> 'w \<Rightarrow> error option \<times> 'w" where
  "WithRetries attempts delay operation sel w = retries_loop (nat attempts) delay operation sel w"

subsection \<open>The delays of the backoff\<close>

definition delay_at :: "Options \<Rightarrow> nat \<Rightarrow> int" where
  "delay_at opts i = (next_delay opts ^^ i) (InitialDelay opts)"

definition delays_from :: "Options \<Rightarrow> int \<Rightarrow> int list \<Rightarrow> bool" where
  "delays_from opts d ds \<longleftrightarrow> (\<forall>i < length ds. ds ! i = (next_delay opts ^^ i) d)"

text \<open>Induction over a call that returns: the operation succeeds, the context is done, or the timer fires
  and the rest of the loop returns.\<close>

lemma backoff_loop_induct [consumes 1, case_names success cancelled retried]:
  assumes "backoff_loop opts operation sel d w = Some y"
    and success: "\<And>d w w1. operation w = Some (None, w1) \<Longrightarrow> P d w ((None, []), w1)"
    and cancelled: "\<And>d w err w1 e w2. operation w = Some (Some err, w1) \<Longrightarrow> sel d w1 = (CtxDone e, w2) \<Longrightarrow>
      P d w ((Some e, [d]), w2)"
    and retried: "\<And>d w err w1 w2 r ds w'. operation w = Some (Some err, w1) \<Longrightarrow> sel d w1 = (Timer, w2) \<Longrightarrow>
      P (next_delay opts d) w2 ((r, ds), w') \<Longrightarrow> P d w ((r, d # ds), w')"
  shows "P d w y"
proof (rule backoff_loop.raw_induct [where P = "\<lambda>o1 op1 sel1 d w y. o1 = opts \<longrightarrow> op1 = operation \<longrightarrow> sel1 = sel \<longrightarrow> P d w y",
      OF _ assms(1), rule_format])
  fix g o1 op1 sel1 d w y
  assume IH: "\<And>o1 op1 sel1 d w y. g o1 op1 sel1 d w = Some y \<Longrightarrow> o1 = opts \<Longrightarrow> op1 = operation \<Longrightarrow> sel1 = sel \<Longrightarrow> P d w y"
    and step: "Option.bind (op1 w) (\<lambda>(r, w1).
       case r of
         None \<Rightarrow> Some ((None, []), w1)
       | Some err \<Rightarrow>
           (case sel1 d w1 of
              (CtxDone e, w2) \<Rightarrow> Some ((Some e, [d]), w2)
            | (Timer, w2) \<Rightarrow>
                Option.bind (g o1 op1 sel1 (next_delay o1 d) w2)
                  (\<lambda>((r, ds), w'). Some ((r, d # ds), w')))) = Some y"
    and eqs: "o1 = opts" "op1 = operation" "sel1 = sel"
  obtain r w1 where op: "operation w = Some (r, w1)"
    using step eqs by (cases "operation w") auto
  show "P d w y"
  proof (cases r)
    case None
    then show ?thesis using success [of w w1 d] op step eqs by simp
  next
    case (Some err)
    obtain c w2 where c: "sel d w1 = (c, w2)" by (cases "sel d w1")
    show ?thesis
    proof (cases c)
      case (CtxDone e)
      then show ?thesis using cancelled [of w err w1 d e w2] op Some c step eqs by simp
    next
      case Timer
      obtain r' ds w' where z: "g opts operation sel (next_delay opts d) w2 = Some ((r', ds), w')" "y = ((r', d # ds), w')"
        using step op Some c Timer eqs by (auto simp: bind_eq_Some_conv)
      then have "P (next_delay opts d) w2 ((r', ds), w')" using IH by blast
      then show ?thesis using retried [of w err w1 d w2 r' ds w'] op Some c Timer z(2) by simp
    qed
  qed
qed simp_all

text \<open>What the operation and the select keep, the loops keep.\<close>

lemma retries_loop_keeps:
  assumes "P w" "\<And>w. P w \<Longrightarrow> P (snd (operation w))" "\<And>d w. P w \<Longrightarrow> P (snd (sel d w))"
  shows "P (snd (retries_loop n delay operation sel w))"
  using assms(1)
proof (induction n arbitrary: w)
  case (Suc n)
  obtain e w1 where op: "operation w = (e, w1)" by (cases "operation w")
  obtain c w2 where s: "sel delay w1 = (c, w2)" by (cases "sel delay w1")
  have "P w1" "P w2"
    using assms(2) [OF Suc.prems] assms(3) [of w1 delay] op s by simp_all
  then show ?case
    using Suc.IH [of w2] op s by (cases e; cases c) auto
qed simp

lemma backoff_loop_keeps:
  assumes "backoff_loop opts operation sel d w = Some y" "P w"
    and "\<And>w r w'. P w \<Longrightarrow> operation w = Some (r, w') \<Longrightarrow> P w'" "\<And>d w. P w \<Longrightarrow> P (snd (sel d w))"
  shows "P (snd y)"
  using assms(1,2)
proof (induction rule: backoff_loop_induct)
  case (cancelled d w err w1 e w2)
  then show ?case using assms(3) [OF cancelled(3,1)] assms(4) [of w1 d] by simp
next
  case (retried d w err w1 w2 r ds w')
  then show ?case using assms(3) [OF retried(4,1)] assms(4) [of w1 d] by simp
qed (auto dest: assms(3))

lemma backoff_loop_delays:
  "backoff_loop opts operation sel d w = Some y \<Longrightarrow> delays_from opts d (snd (fst y))"
proof (induction rule: backoff_loop_induct)
  case (retried d w err w1 w2 r ds w')
  show ?case
    unfolding delays_from_def fst_conv snd_conv
  proof (intro allI impI)
    fix i assume "i < length (d # ds)"
    then show "(d # ds) ! i = (next_delay opts ^^ i) d"
      using retried.IH by (cases i) (simp_all add: delays_from_def funpow_swap1)
  qed
qed (simp_all add: delays_from_def)

lemma next_delay_le: "next_delay opts d \<le> MaxDelay opts"
  by (simp add: next_delay_def Let_def)

lemma default_delay: "delay_at DefaultOptions i = min (2 ^ i * second) (30 * second)"
proof (induction i)
  case (Suc i)
  then have "delay_at DefaultOptions (Suc i) = next_delay DefaultOptions (min (2 ^ i * second) (30 * second))"
    by (simp add: delay_at_def)
  then show ?case
    by (auto simp: next_delay_def DefaultOptions_def Let_def second_def min_def)
qed (simp add: delay_at_def DefaultOptions_def second_def)

text \<open>C23: the delays between attempts grow as configured and are bounded: the timer of the \<open>i\<close>-th wait
  runs for \<open>InitialDelay\<close> scaled \<open>i\<close> times and cut at \<open>MaxDelay\<close>; after the first wait no delay exceeds
  \<open>MaxDelay\<close>, and with the default options the \<open>i\<close>-th delay is the smaller of \<open>2^i\<close> and 30 seconds.\<close>

theorem backoff_delays:
  assumes "WithExponentialBackoff opts operation sel w = Some ((r, ds), w')" "i < length ds"
  shows "ds ! i = delay_at opts i \<and> (0 < i \<longrightarrow> ds ! i \<le> MaxDelay opts) \<and>
    (opts = DefaultOptions \<longrightarrow> ds ! i = min (2 ^ i * second) (30 * second))"
proof -
  have d: "ds ! i = delay_at opts i"
    using backoff_loop_delays [OF assms(1) [unfolded WithExponentialBackoff_def]] assms(2)
    by (simp add: delays_from_def delay_at_def)
  moreover have "delay_at opts i \<le> MaxDelay opts" if "0 < i"
    using that next_delay_le by (cases i) (simp_all add: delay_at_def)
  ultimately show ?thesis
    using default_delay [of i] by auto
qed

text \<open>An operation that fails a fixed number of times: the world counts the failures left.\<close>

definition flaky :: "nat \<Rightarrow> (error option \<times> nat) option" where
  "flaky n = Some (if n = 0 then (None, 0) else (Some (External ''unavailable''), n - 1))"

definition timer_fires :: "int \<Rightarrow> nat \<Rightarrow> wait \<times> nat" where
  "timer_fires d n = (Timer, n)"

lemma flaky_run:
  "WithExponentialBackoff DefaultOptions flaky timer_fires 2 = Some ((None, [second, 2 * second]), 0)"
  unfolding WithExponentialBackoff_def
  by (simp add: backoff_loop.simps [of _ flaky] flaky_def timer_fires_def next_delay_def DefaultOptions_def second_def)

theorem backoff_delays_witness: "[second, 2 * second] ! 1 = delay_at DefaultOptions 1"
  using backoff_delays [OF flaky_run, of 1] by simp

lemma backoff_loop_returns:
  fixes m :: "'w \<Rightarrow> nat"
  assumes "\<And>w. operation w \<noteq> None"
    and "\<And>w e w1 d w2. operation w = Some (Some e, w1) \<Longrightarrow> sel d w1 = (Timer, w2) \<Longrightarrow> m w2 < m w"
  shows "\<exists>r ds w'. backoff_loop opts operation sel d w = Some ((r, ds), w') \<and>
    (case r of None \<Rightarrow> \<exists>w1. operation w1 = Some (None, w') | Some e \<Rightarrow> \<exists>d w1. sel d w1 = (CtxDone e, w'))"
proof (induction "m w" arbitrary: w d rule: less_induct)
  case less
  obtain e w1 where op: "operation w = Some (e, w1)" using assms(1) [of w] by auto
  show ?case
  proof (cases e)
    case None
    then show ?thesis using op by (subst backoff_loop.simps) auto
  next
    case (Some err)
    obtain c w2 where s: "sel d w1 = (c, w2)" by (cases "sel d w1")
    show ?thesis
    proof (cases c)
      case (CtxDone x)
      then show ?thesis using op s Some by (subst backoff_loop.simps) auto
    next
      case Timer
      then have "m w2 < m w" using assms(2) op s Some by blast
      then obtain r ds w' where "backoff_loop opts operation sel (next_delay opts d) w2 = Some ((r, ds), w')"
          "case r of None \<Rightarrow> \<exists>w1. operation w1 = Some (None, w') | Some e \<Rightarrow> \<exists>d w1. sel d w1 = (CtxDone e, w')"
        using less by blast
      then show ?thesis using op s Some Timer by (subst backoff_loop.simps) auto
    qed
  qed
qed

text \<open>C24: backing off ends. If the operation always returns and every failed attempt followed by its timer
  brings the world closer to one where the operation succeeds or the context is done (a measure
  decreases), the call returns, with \<open>nil\<close> right after the operation succeeded or with the error of the
  context.\<close>

theorem backoff_returns:
  fixes m :: "'w \<Rightarrow> nat"
  assumes "\<And>w. operation w \<noteq> None"
    and "\<And>w e w1 d w2. operation w = Some (Some e, w1) \<Longrightarrow> sel d w1 = (Timer, w2) \<Longrightarrow> m w2 < m w"
  shows "\<exists>r ds w'. WithExponentialBackoff opts operation sel w = Some ((r, ds), w') \<and>
    (case r of None \<Rightarrow> \<exists>w1. operation w1 = Some (None, w') | Some e \<Rightarrow> \<exists>d w1. sel d w1 = (CtxDone e, w'))"
  unfolding WithExponentialBackoff_def by (rule backoff_loop_returns [where m = m, OF assms])

theorem backoff_returns_witness:
  "\<exists>r ds w'. WithExponentialBackoff DefaultOptions flaky timer_fires 7 = Some ((r, ds), w') \<and> r = None"
proof -
  have "flaky w \<noteq> None" for w by (simp add: flaky_def)
  moreover have "w2 < w" if "flaky w = Some (Some e, w1)" "timer_fires d w1 = (Timer, w2)" for w e w1 d w2
    using that by (auto simp: flaky_def timer_fires_def split: if_splits)
  ultimately show ?thesis
    using backoff_returns [of flaky timer_fires "\<lambda>n. n" DefaultOptions 7]
    by (fastforce simp: timer_fires_def split: option.splits)
qed

lemma retries_loop_result:
  "retries_loop n delay operation sel w = (r, w') \<Longrightarrow> 0 < n \<Longrightarrow>
     (case r of None \<Rightarrow> \<exists>w1. operation w1 = (None, w')
      | Some e \<Rightarrow> (\<exists>w1. operation w1 = (Some e, w')) \<or> (\<exists>w1. sel delay w1 = (CtxDone e, w')))"
proof (induction n arbitrary: w)
  case (Suc n)
  then show ?case
    by (auto split: prod.splits option.splits if_splits wait.splits)
qed simp

lemma retries_loop_calls:
  fixes calls :: "'w \<Rightarrow> nat"
  assumes "\<And>w. calls (snd (operation w)) \<le> Suc (calls w)" "\<And>d w. calls (snd (sel d w)) = calls w"
  shows "calls (snd (retries_loop n delay operation sel w)) \<le> calls w + n"
proof (induction n arbitrary: w)
  case (Suc n)
  obtain e w1 where op: "operation w = (e, w1)" by (cases "operation w")
  obtain c w2 where s: "sel delay w1 = (c, w2)" by (cases "sel delay w1")
  have "calls w1 \<le> Suc (calls w)" "calls w2 = calls w1"
    using assms(1) [of w] assms(2) [of delay w1] op s by simp_all
  then show ?case
    using Suc.IH [of w2] op s by (cases e; cases c) auto
qed simp

text \<open>C25: \<open>WithRetries\<close> with at least one attempt is honest and bounded: it returns \<open>nil\<close> only right after the
  operation succeeded, an error is the operation's last or the context's, and the operation was
  called at most \<open>attempts\<close> times (for any count of its calls).\<close>

theorem WithRetries_honest:
  fixes calls :: "'w \<Rightarrow> nat"
  assumes "0 < attempts" "WithRetries attempts delay operation sel w = (r, w')"
    and "\<And>w. calls (snd (operation w)) \<le> Suc (calls w)" "\<And>d w. calls (snd (sel d w)) = calls w"
  shows "(case r of None \<Rightarrow> \<exists>w1. operation w1 = (None, w')
      | Some e \<Rightarrow> (\<exists>w1. operation w1 = (Some e, w')) \<or> (\<exists>w1. sel delay w1 = (CtxDone e, w'))) \<and>
    int (calls w') \<le> int (calls w) + attempts"
proof -
  have l: "retries_loop (nat attempts) delay operation sel w = (r, w')" "0 < nat attempts"
    using assms(1,2) by (simp_all add: WithRetries_def)
  have "calls w' \<le> calls w + nat attempts"
    using retries_loop_calls [where calls = calls and n = "nat attempts" and delay = delay and operation = operation
        and sel = sel and w = w] assms(3,4) l(1) by simp
  then have "int (calls w') \<le> int (calls w) + attempts" using assms(1) by simp
  then show ?thesis using retries_loop_result [OF l] by blast
qed

text \<open>An operation that always fails, on a world that counts its calls.\<close>

definition failing :: "nat \<Rightarrow> error option \<times> nat" where
  "failing n = (Some (External ''channel full''), Suc n)"

lemma failing_run: "WithRetries 3 10 failing timer_fires 0 = (Some (External ''channel full''), 3)"
  by (simp add: WithRetries_def failing_def timer_fires_def eval_nat_numeral)

theorem WithRetries_honest_witness:
  "(\<exists>w1. failing w1 = (Some (External ''channel full''), 3)) \<and> int (3::nat) \<le> int (0::nat) + 3"
proof -
  have "(3::int) > 0" "\<And>n. snd (failing n) \<le> Suc n" "\<And>d n. snd (timer_fires d n) = n"
    by (simp_all add: failing_def timer_fires_def)
  note WithRetries_honest [where calls = "\<lambda>n. n", OF this(1) failing_run this(2,3)]
  then show ?thesis by (simp add: timer_fires_def)
qed

end
