(* ===== verification/Watch.thy ===== *)
theory Watch
  imports Storage
begin

text \<open>
  The watch half of \<open>pkg/storage/etcd_storage.go\<close>: the conversion of etcd's events and the goroutine
  that forwards them. The goroutine's selects are resolved by a script: which response it receives
  next, and for each event whether it is sent or the context is done. An exhausted script is a
  goroutine that is still waiting.
\<close>

datatype mvcc_type = PUT | DELETE | OtherType

record etcd_event =
  ev_Type :: mvcc_type
  ev_Kv :: kv
  ev_PrevKv :: "kv option"

type_synonym EventType = string

definition EventAdd :: EventType where "EventAdd = ''ADD''"
definition EventUpdate :: EventType where "EventUpdate = ''UPDATE''"
definition EventDelete :: EventType where "EventDelete = ''DELETE''"

lemmas EventType_defs = EventAdd_def EventUpdate_def EventDelete_def

text \<open>A nil byte slice and an empty one are the same list of bytes.\<close>

record WatchEvent =
  we_Type :: EventType
  we_Key :: key
  we_Value :: bytes
  we_OldValue :: bytes

definition convertEventType :: "etcd_event \<Rightarrow> EventType" where
  "convertEventType event =
     (case ev_Type event of
        PUT \<Rightarrow> (if ev_PrevKv event = None then EventAdd else EventUpdate)
      | DELETE \<Rightarrow> EventDelete
      | OtherType \<Rightarrow> '''')"

definition convertToWatchEvent :: "etcd_event \<Rightarrow> WatchEvent" where
  "convertToWatchEvent event =
     \<lparr>we_Type = convertEventType event, we_Key = kv_Key (ev_Kv event), we_Value = kv_Value (ev_Kv event),
      we_OldValue = (case ev_PrevKv event of None \<Rightarrow> [] | Some p \<Rightarrow> kv_Value p)\<rparr>"

datatype send_choice = Send | CtxIsDone

fun processWatchResponse :: "etcd_event list \<Rightarrow> send_choice list \<Rightarrow> WatchEvent list \<times> send_choice list option" where
  "processWatchResponse [] cs = ([], Some cs)"
| "processWatchResponse (event # events) [] = ([], None)"
| "processWatchResponse (event # events) (Send # cs) =
     (case processWatchResponse events cs of (ws, r) \<Rightarrow> (convertToWatchEvent event # ws, r))"
| "processWatchResponse (event # events) (CtxIsDone # cs) = ([], Some cs)"

datatype watch_input = WatchCtxDone | WatcherClosed | WatchResponse bool "etcd_event list"

text \<open>The events sent, and whether the goroutine returned and closed the channel.\<close>

fun handleWatchEvents :: "watch_input list \<Rightarrow> send_choice list \<Rightarrow> WatchEvent list \<times> bool" where
  "handleWatchEvents [] cs = ([], False)"
| "handleWatchEvents (WatchCtxDone # ins) cs = ([], True)"
| "handleWatchEvents (WatcherClosed # ins) cs = ([], True)"
| "handleWatchEvents (WatchResponse canceled events # ins) cs =
     (if canceled then ([], True)
      else (case processWatchResponse events cs of
              (ws, None) \<Rightarrow> (ws, False)
            | (ws, Some cs') \<Rightarrow> (case handleWatchEvents ins cs' of (ws', b) \<Rightarrow> (ws @ ws', b))))"

text \<open>\<open>Watch\<close>: \<open>watch\<close> is the client's \<open>Watch\<close> with the options for a prefix and for previous values. The channel of
  the result is the list of what the goroutine sends on it.\<close>

definition EtcdStorage_Watch ::
  "(key \<Rightarrow> watch_input list) \<Rightarrow> key \<Rightarrow> send_choice list \<Rightarrow> error option \<times> WatchEvent list \<times> bool" where
  "EtcdStorage_Watch watch p cs = (None, handleWatchEvents (watch p) cs)"

subsection \<open>What the events say\<close>

text \<open>etcd's watch with previous values: an event describes one change of the store.\<close>

definition describes :: "bytes contents \<Rightarrow> etcd_event \<Rightarrow> bytes contents \<Rightarrow> bool" where
  "describes m ev m' \<longleftrightarrow>
     (let k = kv_Key (ev_Kv ev)
      in map_option kv_Value (ev_PrevKv ev) = m k \<and>
         (case ev_Type ev of
            PUT \<Rightarrow> m' = m(k \<mapsto> kv_Value (ev_Kv ev))
          | DELETE \<Rightarrow> m' = m(k := None)
          | OtherType \<Rightarrow> False))"

fun history :: "bytes contents \<Rightarrow> etcd_event list \<Rightarrow> bytes contents \<Rightarrow> bool" where
  "history m [] m' \<longleftrightarrow> m' = m"
| "history m (ev # evs) m' \<longleftrightarrow> (\<exists>m1. describes m ev m1 \<and> history m1 evs m')"

text \<open>What a consumer of the channel does to its own copy.\<close>

definition apply_event :: "WatchEvent \<Rightarrow> bytes contents \<Rightarrow> bytes contents" where
  "apply_event we m = (if we_Type we = EventDelete then m(we_Key we := None) else m(we_Key we \<mapsto> we_Value we))"

definition truthful :: "bytes contents \<Rightarrow> WatchEvent \<Rightarrow> bool" where
  "truthful m we \<longleftrightarrow>
     (we_Type we = EventAdd \<and> m (we_Key we) = None \<or>
      we_Type we = EventUpdate \<and> m (we_Key we) = Some (we_OldValue we) \<or>
      we_Type we = EventDelete \<and> (case m (we_Key we) of None \<Rightarrow> we_OldValue we = [] | Some v \<Rightarrow> we_OldValue we = v))"

fun truthful_run :: "bytes contents \<Rightarrow> WatchEvent list \<Rightarrow> bool" where
  "truthful_run m [] \<longleftrightarrow> True"
| "truthful_run m (we # wes) \<longleftrightarrow> truthful m we \<and> truthful_run (apply_event we m) wes"

lemma convert_describes:
  assumes "describes m ev m'"
  shows "apply_event (convertToWatchEvent ev) m = m'" "truthful m (convertToWatchEvent ev)"
  using assms
  by (auto simp: describes_def Let_def apply_event_def truthful_def convertToWatchEvent_def convertEventType_def
      EventType_defs split: mvcc_type.splits option.splits)

lemma history_append:
  "history m (evs @ evs') m' \<longleftrightarrow> (\<exists>m1. history m evs m1 \<and> history m1 evs' m')"
  by (induction evs arbitrary: m) auto

lemma convert_history:
  assumes "history m evs m'"
  shows "fold apply_event (map convertToWatchEvent evs) m = m'" "truthful_run m (map convertToWatchEvent evs)"
proof -
  have "fold apply_event (map convertToWatchEvent evs) m = m' \<and> truthful_run m (map convertToWatchEvent evs)"
    using assms
  proof (induction evs arbitrary: m)
    case (Cons ev evs)
    then obtain m1 where "describes m ev m1" "history m1 evs m'" by auto
    then show ?case using Cons.IH convert_describes by simp
  qed simp
  then show "fold apply_event (map convertToWatchEvent evs) m = m'" "truthful_run m (map convertToWatchEvent evs)" by auto
qed

definition demo_events :: "etcd_event list" where
  "demo_events =
     [\<lparr>ev_Type = PUT, ev_Kv = \<lparr>kv_Key = ''/pods/a'', kv_Value = ''1'', kv_CreateRevision = 2, kv_ModRevision = 2\<rparr>, ev_PrevKv = None\<rparr>,
      \<lparr>ev_Type = DELETE, ev_Kv = \<lparr>kv_Key = ''/pods/a'', kv_Value = '''', kv_CreateRevision = 0, kv_ModRevision = 3\<rparr>,
       ev_PrevKv = Some \<lparr>kv_Key = ''/pods/a'', kv_Value = ''1'', kv_CreateRevision = 2, kv_ModRevision = 2\<rparr>\<rparr>]"

subsection \<open>What the goroutine sends\<close>

text \<open>The events received before the goroutine returns.\<close>

fun received :: "watch_input list \<Rightarrow> etcd_event list" where
  "received (WatchResponse canceled events # ins) = (if canceled then [] else events @ received ins)"
| "received _ = []"

lemma process_subseq: "subseq (fst (processWatchResponse events cs)) (map convertToWatchEvent events)"
  by (induction events cs rule: processWatchResponse.induct) (auto split: prod.splits)

lemma process_sends:
  "CtxIsDone \<notin> set cs \<Longrightarrow> processWatchResponse events cs =
     (map convertToWatchEvent (take (length cs) events),
      if length events \<le> length cs then Some (drop (length events) cs) else None)"
proof (induction events cs rule: processWatchResponse.induct)
  case (3 event events cs)
  then show ?case by simp
qed simp_all

lemma handle_subseq: "subseq (fst (handleWatchEvents ins cs)) (map convertToWatchEvent (received ins))"
proof (induction ins arbitrary: cs)
  case (Cons i ins)
  show ?case
  proof (cases i)
    case (WatchResponse canceled events)
    obtain ws r where p: "processWatchResponse events cs = (ws, r)" by (cases "processWatchResponse events cs")
    then have s: "subseq ws (map convertToWatchEvent events)" using process_subseq [of events cs] by simp
    show ?thesis
    proof (cases r)
      case None
      then show ?thesis using WatchResponse p by (simp add: list_emb_prefix [OF s])
    next
      case (Some cs')
      then show ?thesis
        using WatchResponse p list_emb_append_mono [OF s Cons.IH [of cs']] by (auto split: prod.split)
    qed
  qed simp_all
qed simp

lemma handle_sends:
  "CtxIsDone \<notin> set cs \<Longrightarrow>
     fst (handleWatchEvents ins cs) = map convertToWatchEvent (take (length cs) (received ins))"
proof (induction ins arbitrary: cs)
  case (Cons i ins)
  show ?case
  proof (cases i)
    case (WatchResponse canceled events)
    show ?thesis
    proof (cases "\<not> canceled \<and> length events \<le> length cs")
      case True
      then have "fst (handleWatchEvents ins (drop (length events) cs)) =
          map convertToWatchEvent (take (length cs - length events) (received ins))"
        using Cons.IH [of "drop (length events) cs"] Cons.prems by (auto dest: in_set_dropD)
      then show ?thesis
        using True WatchResponse process_sends [OF Cons.prems, of events] by (auto split: prod.split)
    next
      case False
      then show ?thesis
        using WatchResponse process_sends [OF Cons.prems, of events] by auto
    qed
  qed auto
qed simp

text \<open>C15: a consumer that applies the events of \<open>Watch\<close> in order to a copy of the store follows the store. For
  changes that lead from one content to another, as etcd delivers them, and a context that is not done,
  the copy is at every moment the content after the first changes, as many as the consumer has taken,
  from which the rest leads to the last; and each event is labelled truthfully: \<open>ADD\<close> only for a key that
  was absent, \<open>UPDATE\<close> and \<open>DELETE\<close> with the value that was there.\<close>

theorem watch_replays_store:
  assumes "history m (received (watch p)) m'" "CtxIsDone \<notin> set cs"
    and "EtcdStorage_Watch watch p cs = (err, sent, closed)"
  shows "err = None \<and> truthful_run m sent \<and>
    history m (take (length cs) (received (watch p))) (fold apply_event sent m) \<and>
    history (fold apply_event sent m) (drop (length cs) (received (watch p))) m'"
proof -
  have s: "err = None" "sent = map convertToWatchEvent (take (length cs) (received (watch p)))"
    using assms(3) handle_sends [OF assms(2), of "watch p"] by (auto simp: EtcdStorage_Watch_def)
  obtain m1 where h: "history m (take (length cs) (received (watch p))) m1" "history m1 (drop (length cs) (received (watch p))) m'"
    using assms(1) history_append [of m "take (length cs) (received (watch p))" "drop (length cs) (received (watch p))" m']
    by auto
  then show ?thesis using convert_history [OF h(1)] s by simp
qed

text \<open>C16: \<open>Watch\<close> neither reorders, duplicates nor invents events: what its channel carries is a subsequence of
  what etcd delivered before the watch ended, converted one by one; and as long as the context is not
  done it loses nothing: it has carried exactly the first events, as many as the receiver has taken.\<close>

theorem watch_forwards_in_order:
  assumes "EtcdStorage_Watch watch p cs = (err, sent, closed)"
  shows "subseq sent (map convertToWatchEvent (received (watch p))) \<and>
    (CtxIsDone \<notin> set cs \<longrightarrow> sent = map convertToWatchEvent (take (length cs) (received (watch p))))"
  using handle_subseq [of "watch p" cs] handle_sends [of cs "watch p"] assms by (auto simp: EtcdStorage_Watch_def)

subsection \<open>Witnesses\<close>

definition demo_watcher :: "key \<Rightarrow> watch_input list" where
  "demo_watcher p = [WatchResponse False demo_events, WatcherClosed]"

lemma demo_watcher:
  "received (demo_watcher ''/pods/'') = demo_events" "history Map.empty demo_events Map.empty" "length demo_events = 2"
  "EtcdStorage_Watch demo_watcher ''/pods/'' [Send] = (None, [convertToWatchEvent (hd demo_events)], False)"
  by (simp_all add: demo_watcher_def EtcdStorage_Watch_def)
    (auto simp: demo_events_def describes_def intro!: exI [of _ "[''/pods/a'' \<mapsto> ''1'']"])

theorem watch_replays_store_witness:
  "history Map.empty (take 1 demo_events) (apply_event (convertToWatchEvent (hd demo_events)) Map.empty)"
  using watch_replays_store [of Map.empty demo_watcher "''/pods/''" Map.empty "[Send]", OF _ _ demo_watcher(4)]
  by (simp add: demo_watcher)

theorem watch_forwards_in_order_witness:
  "[convertToWatchEvent (hd demo_events)] = map convertToWatchEvent (take 1 demo_events)"
  using watch_forwards_in_order [OF demo_watcher(4)] by (simp add: demo_watcher)

end
