(* ===== verification/Listwatch.thy ===== *)
theory Listwatch
  imports Retry Watch
begin

text \<open>
  \<open>pkg/listwatch\<close>: listing and watching a prefix of etcd with reconnection. The etcd client, the clock and
  the scheduler of goroutines are outside the repository: a record of services on a world \<open>'w\<close>. A
  select asks the services which case fires; a channel is the list of the events sent on it. The
  main goroutine is a sequence of calls; \<open>None\<close> is a call that never returns, and a panic is a flag of
  the state, after which the rest of the run is meaningless. A call on the logger panics when the logger
  is nil. A histogram is the number of its observations; the durations are the clock's. The goroutine of \<open>Watch\<close> that converts etcd's responses
  is \<open>watch_goroutine\<close>; the one that reports a lost connection is \<open>monitor_goroutine\<close>, which runs
  concurrently: it may read \<open>ctx.Err()\<close> in one state and send in a later one.
\<close>

subsection \<open>Events\<close>

definition Added :: EventType where "Added = ''ADDED''"
definition Modified :: EventType where "Modified = ''MODIFIED''"
definition Deleted :: EventType where "Deleted = ''DELETED''"
definition ErrorEvent :: EventType where "ErrorEvent = ''ERROR''"

lemmas lw_type_defs = Added_def Modified_def Deleted_def ErrorEvent_def

record Event =
  Event_Type :: EventType
  Event_Key :: key
  Event_Value :: bytes
  Event_Prefix :: string

definition validate :: "Event \<Rightarrow> error option" where
  "validate e =
     (if Event_Type e = '''' then Some (Errorf None ''event type cannot be empty'' None)
      else if Event_Key e = '''' \<and> Event_Type e \<noteq> ErrorEvent
        then Some (Errorf None ''event key cannot be empty for non-error events'' None)
      else if Event_Prefix e = '''' then Some (Errorf None ''event prefix cannot be empty'' None)
      else None)"

text \<open>The literal \<open>Event{Type: Error, Value: ...}\<close>.\<close>

definition error_event :: "bytes \<Rightarrow> Event" where
  "error_event msg = \<lparr>Event_Type = ErrorEvent, Event_Key = [], Event_Value = msg, Event_Prefix = []\<rparr>"

subsection \<open>State\<close>

record LW_Options =
  DialTimeout :: int
  RetryOpts :: Options
  EventChannelBuffer :: int

definition LW_DefaultOptions :: LW_Options where
  "LW_DefaultOptions = \<lparr>DialTimeout = 5 * second, RetryOpts = DefaultOptions, EventChannelBuffer = 100\<rparr>"

definition defaultErrorRetryAttempts :: int where "defaultErrorRetryAttempts = 3"

definition defaultErrorRetryDelay :: int where "defaultErrorRetryDelay = 10 * 1000000"

record metrics =
  watchFailures :: nat
  listLatency :: nat
  watchLatency :: nat
  eventProcessed :: nat
  retryCount :: nat
  eventsByType :: "string \<Rightarrow> nat"
  connectionState :: int
  watchSessionDuration :: nat
  errorsByType :: "string \<Rightarrow> nat"

definition zero_metrics :: metrics where
  "zero_metrics = \<lparr>watchFailures = 0, listLatency = 0, watchLatency = 0, eventProcessed = 0, retryCount = 0,
     eventsByType = (\<lambda>_. 0), connectionState = 0, watchSessionDuration = 0, errorsByType = (\<lambda>_. 0)\<rparr>"

text \<open>The interface value: what the methods print is not modelled.\<close>

datatype Logger = NilLogger | SomeLogger

record 'c ListWatch =
  endpoints :: "string list"
  etcdCli :: "'c option"
  watchPrefix :: string
  lw_opts :: LW_Options
  lw_metrics :: metrics
  logger :: Logger

datatype try_choice = TrySend | TryDone error | TryDefault
datatype blocking_choice = Sent | SendDone error
datatype recv_choice = RecvDone error | RecvClosed | RecvEvent Event

record ('c, 'w) lw_services =
  clientv3_New :: "string list \<Rightarrow> int \<Rightarrow> 'w \<Rightarrow> (error + 'c) \<times> 'w"
  cli_Get :: "'c \<Rightarrow> key \<Rightarrow> 'w \<Rightarrow> (error + int \<times> kv list) \<times> 'w"
  cli_Watch :: "'c \<Rightarrow> key \<Rightarrow> int \<Rightarrow> 'w \<Rightarrow> 'w"
  cli_Close :: "'c \<Rightarrow> 'w \<Rightarrow> 'w"
  select_try :: "'w \<Rightarrow> try_choice \<times> 'w"
  select_send :: "'w \<Rightarrow> blocking_choice \<times> 'w"
  select_recv :: "'w \<Rightarrow> recv_choice \<times> 'w"
  select_timer :: "int \<Rightarrow> 'w \<Rightarrow> wait \<times> 'w"
  time_Sleep :: "int \<Rightarrow> 'w \<Rightarrow> 'w"
  ctx_Err :: "'w \<Rightarrow> error option"
  error_text :: "error \<Rightarrow> bytes"

record ('c, 'w) lw_state =
  s_lw :: "'c ListWatch"
  s_ch :: "Event list"
  s_chClosed :: bool
  s_doneClosed :: bool
  s_panicked :: bool
  s_world :: 'w

definition set_cli :: "'c option \<Rightarrow> ('c, 'w) lw_state \<Rightarrow> ('c, 'w) lw_state" where
  "set_cli c st = st\<lparr>s_lw := (s_lw st)\<lparr>etcdCli := c\<rparr>\<rparr>"

definition on_metrics :: "(metrics \<Rightarrow> metrics) \<Rightarrow> ('c, 'w) lw_state \<Rightarrow> ('c, 'w) lw_state" where
  "on_metrics f st = st\<lparr>s_lw := (s_lw st)\<lparr>lw_metrics := f (lw_metrics (s_lw st))\<rparr>\<rparr>"

definition set_world :: "'w \<Rightarrow> ('c, 'w) lw_state \<Rightarrow> ('c, 'w) lw_state" where
  "set_world w st = st\<lparr>s_world := w\<rparr>"

definition inc :: "string \<Rightarrow> (string \<Rightarrow> nat) \<Rightarrow> string \<Rightarrow> nat" where
  "inc l f = f(l := f l + 1)"

text \<open>A call of \<open>lw.logger.Error\<close> or \<open>lw.logger.Info\<close>.\<close>

definition log_call :: "('c, 'w) lw_state \<Rightarrow> ('c, 'w) lw_state" where
  "log_call st = (case logger (s_lw st) of NilLogger \<Rightarrow> st\<lparr>s_panicked := True\<rparr> | SomeLogger \<Rightarrow> st)"

text \<open>A send on the channel panics when the channel is closed.\<close>

definition put_event :: "Event \<Rightarrow> ('c, 'w) lw_state \<Rightarrow> ('c, 'w) lw_state" where
  "put_event e st = (if s_chClosed st then st\<lparr>s_panicked := True\<rparr> else st\<lparr>s_ch := s_ch st @ [e]\<rparr>)"

subsection \<open>Sending\<close>

definition timer :: "('c, 'w) lw_services \<Rightarrow> int \<Rightarrow> ('c, 'w) lw_state \<Rightarrow> wait \<times> ('c, 'w) lw_state" where
  "timer S d st = (case select_timer S d (s_world st) of (c, w) \<Rightarrow> (c, set_world w st))"

definition try_error_event ::
  "('c, 'w) lw_services \<Rightarrow> bytes \<Rightarrow> ('c, 'w) lw_state \<Rightarrow> error option \<times> ('c, 'w) lw_state" where
  "try_error_event S errMsg st =
     (case select_try S (s_world st) of
        (TrySend, w) \<Rightarrow> (None, put_event (error_event errMsg) (set_world w st))
      | (TryDone e, w) \<Rightarrow> (Some e, set_world w st)
      | (TryDefault, w) \<Rightarrow> (Some (Errorf None ''channel full'' None), set_world w st))"

definition tryToSendErrorEvent ::
  "('c, 'w) lw_services \<Rightarrow> bytes \<Rightarrow> ('c, 'w) lw_state \<Rightarrow> bool \<times> ('c, 'w) lw_state" where
  "tryToSendErrorEvent S errMsg st =
     (case WithRetries defaultErrorRetryAttempts defaultErrorRetryDelay (try_error_event S errMsg) (timer S) st of
        (err, st') \<Rightarrow> (err = None, st'))"

definition sendEvent ::
  "('c, 'w) lw_services \<Rightarrow> Event \<Rightarrow> ('c, 'w) lw_state \<Rightarrow> error option \<times> ('c, 'w) lw_state" where
  "sendEvent S event st =
     (case validate event of
        Some err \<Rightarrow> (Some (Errorf None ''invalid event'' (Some err)), log_call st)
      | None \<Rightarrow>
          (case select_send S (s_world st) of
             (Sent, w) \<Rightarrow>
               (None, on_metrics (\<lambda>m. m\<lparr>eventProcessed := eventProcessed m + 1\<rparr>) (put_event event (set_world w st)))
           | (SendDone e, w) \<Rightarrow> (Some e, set_world w st)))"

subsection \<open>The connection\<close>

definition closeEtcdClient :: "('c, 'w) lw_services \<Rightarrow> ('c, 'w) lw_state \<Rightarrow> ('c, 'w) lw_state" where
  "closeEtcdClient S st =
     (case etcdCli (s_lw st) of
        Some c \<Rightarrow> set_cli None (set_world (cli_Close S c (s_world st)) st)
      | None \<Rightarrow> st)"

definition ensureConnected ::
  "('c, 'w) lw_services \<Rightarrow> ('c, 'w) lw_state \<Rightarrow> error option \<times> ('c, 'w) lw_state" where
  "ensureConnected S st =
     (if etcdCli (s_lw st) \<noteq> None then (None, st)
      else (case clientv3_New S (endpoints (s_lw st)) (DialTimeout (lw_opts (s_lw st))) (s_world st) of
              (Inl err, w) \<Rightarrow>
                (let st1 = on_metrics (\<lambda>m. m\<lparr>connectionState := 0,
                             errorsByType := inc ''connection_failed'' (errorsByType m)\<rparr>) (log_call (set_world w st));
                     st2 = snd (tryToSendErrorEvent S (''failed to create etcd client: '' @ error_text S err) st1)
                 in (Some err, st2))
            | (Inr cli, w) \<Rightarrow>
                (None, on_metrics (\<lambda>m. m\<lparr>connectionState := 1\<rparr>) (set_cli (Some cli) (set_world w st)))))"

definition handleCleanup :: "('c, 'w) lw_services \<Rightarrow> ('c, 'w) lw_state \<Rightarrow> ('c, 'w) lw_state" where
  "handleCleanup S st =
     (let st1 = on_metrics (\<lambda>m. m\<lparr>connectionState := 0\<rparr>) (closeEtcdClient S st);
          st2 = (case ctx_Err S (s_world st1) of
                   Some e \<Rightarrow>
                     snd (tryToSendErrorEvent S (''context cancelled: '' @ error_text S e)
                       (on_metrics (\<lambda>m. m\<lparr>errorsByType := inc ''context_cancelled'' (errorsByType m)\<rparr>) st1))
                 | None \<Rightarrow> st1)
      in log_call (st2\<lparr>s_chClosed := True, s_doneClosed := True\<rparr>))"

text \<open>The metrics are one object for the process: \<open>m\<close> is the one \<open>newMetrics\<close> returns (theory \<open>Metrics\<close>).\<close>

definition NewListWatch ::
  "('c, 'w) lw_services \<Rightarrow> metrics \<Rightarrow> string list \<Rightarrow> string \<Rightarrow> LW_Options \<Rightarrow> Logger \<Rightarrow> 'w \<Rightarrow> (error + 'c ListWatch) \<times> 'w" where
  "NewListWatch S m eps p opts lg w =
     (if p = '''' then (Inl (Errorf None ''prefix cannot be empty'' None), w)
      else (case clientv3_New S eps (DialTimeout opts) w of
              (Inl err, w1) \<Rightarrow> (Inl (Errorf None ''failed to create etcd client'' (Some err)), w1)
            | (Inr cli, w1) \<Rightarrow>
                (Inr \<lparr>endpoints = eps, etcdCli = Some cli, watchPrefix = p, lw_opts = opts, lw_metrics = m, logger = lg\<rparr>, w1)))"

subsection \<open>Listing\<close>

definition list_event :: "string \<Rightarrow> kv \<Rightarrow> Event" where
  "list_event p r =
     \<lparr>Event_Type = (if kv_CreateRevision r \<noteq> kv_ModRevision r then Modified else Added),
      Event_Key = kv_Key r, Event_Value = kv_Value r, Event_Prefix = p\<rparr>"

text \<open>A call on a nil client panics.\<close>

definition LW_List ::
  "('c, 'w) lw_services \<Rightarrow> ('c, 'w) lw_state \<Rightarrow> (error + Event list) \<times> ('c, 'w) lw_state" where
  "LW_List S st =
     (case etcdCli (s_lw st) of
        None \<Rightarrow> (Inr [], st\<lparr>s_panicked := True\<rparr>)
      | Some cli \<Rightarrow>
          (case cli_Get S cli (watchPrefix (s_lw st)) (s_world st) of
             (Inl err, w) \<Rightarrow> (Inl (Errorf None ''failed to list keys'' (Some err)), set_world w st)
           | (Inr (r, kvs), w) \<Rightarrow> (Inr (map (list_event (watchPrefix (s_lw st))) kvs), set_world w st)))"

fun send_existing ::
  "('c, 'w) lw_services \<Rightarrow> Event list \<Rightarrow> ('c, 'w) lw_state \<Rightarrow> error option \<times> ('c, 'w) lw_state" where
  "send_existing S [] st = (None, st)"
| "send_existing S (event # events) st =
     (case sendEvent S event st of
        (Some err, st1) \<Rightarrow> (Some err, st1)
      | (None, st1) \<Rightarrow> send_existing S events st1)"

definition listAndSendExisting ::
  "('c, 'w) lw_services \<Rightarrow> ('c, 'w) lw_state \<Rightarrow> error option \<times> ('c, 'w) lw_state" where
  "listAndSendExisting S st =
     (case LW_List S st of
        (r, st0) \<Rightarrow>
          (let st1 = on_metrics (\<lambda>m. m\<lparr>listLatency := listLatency m + 1\<rparr>) st0
           in case r of
                Inl err \<Rightarrow>
                  (let st2 = snd (tryToSendErrorEvent S (''failed to list items: '' @ error_text S err) (log_call st1));
                       st3 = closeEtcdClient S st2
                   in (Some err, on_metrics (\<lambda>m. m\<lparr>retryCount := retryCount m + 1\<rparr>) st3))
              | Inr existing \<Rightarrow> send_existing S existing st1))"

subsection \<open>Watching\<close>

definition watch_event :: "string \<Rightarrow> etcd_event \<Rightarrow> Event" where
  "watch_event p ev =
     \<lparr>Event_Type =
        (case ev_Type ev of
           PUT \<Rightarrow> (if kv_CreateRevision (ev_Kv ev) = kv_ModRevision (ev_Kv ev) then Added else Modified)
         | DELETE \<Rightarrow> Deleted
         | OtherType \<Rightarrow> ''''),
      Event_Key = kv_Key (ev_Kv ev), Event_Value = kv_Value (ev_Kv ev), Event_Prefix = p\<rparr>"

text \<open>The goroutine of \<open>Watch\<close>: the events it sends on its channel for the responses etcd delivers, and
  the metrics it leaves; it returns at the first response with an error.\<close>

fun watch_goroutine ::
  "(error \<Rightarrow> bytes) \<Rightarrow> string \<Rightarrow> (error option \<times> etcd_event list) list \<Rightarrow> metrics \<Rightarrow> Event list \<times> metrics" where
  "watch_goroutine text p [] m = ([], m)"
| "watch_goroutine text p ((Some err, evs) # resps) m =
     ([error_event (text err)], m\<lparr>errorsByType := inc ''watch_error'' (errorsByType m)\<rparr>)"
| "watch_goroutine text p ((None, evs) # resps) m =
     (let es = map (watch_event p) evs;
          m1 = m\<lparr>eventsByType := fold (\<lambda>e. inc (Event_Type e)) es (eventsByType m)\<rparr>
      in case watch_goroutine text p resps m1 of (rest, m2) \<Rightarrow> (es @ rest, m2))"

text \<open>\<open>Watch\<close> itself: the revision from which it asks etcd for changes. The deferred observation of the session's
  duration is made when \<open>Watch\<close> returns.\<close>

definition observe_session :: "('c, 'w) lw_state \<Rightarrow> ('c, 'w) lw_state" where
  "observe_session st = on_metrics (\<lambda>m. m\<lparr>watchSessionDuration := watchSessionDuration m + 1\<rparr>) st"

definition LW_Watch :: "('c, 'w) lw_services \<Rightarrow> ('c, 'w) lw_state \<Rightarrow> (error + int) \<times> ('c, 'w) lw_state" where
  "LW_Watch S st =
     (case etcdCli (s_lw st) of
        None \<Rightarrow> (Inr 0, st\<lparr>s_panicked := True\<rparr>)
      | Some cli \<Rightarrow>
          (case cli_Get S cli (watchPrefix (s_lw st)) (s_world st) of
             (Inl err, w) \<Rightarrow>
               (Inl (Errorf None ''failed to get current revision'' (Some err)),
                observe_session
                  (on_metrics (\<lambda>m. m\<lparr>errorsByType := inc ''get_revision_failed'' (errorsByType m)\<rparr>) (set_world w st)))
           | (Inr (r, kvs), w) \<Rightarrow>
               (Inr (r + 1), observe_session (set_world (cli_Watch S cli (watchPrefix (s_lw st)) (r + 1) w) st))))"

text \<open>The function \<open>Watch\<close> returns to stop watching: it closes the client and keeps the pointer.\<close>

definition watch_cancel :: "('c, 'w) lw_services \<Rightarrow> ('c, 'w) lw_state \<Rightarrow> ('c, 'w) lw_state" where
  "watch_cancel S st =
     (case etcdCli (s_lw st) of
        Some c \<Rightarrow> set_world (cli_Close S c (s_world st)) st
      | None \<Rightarrow> st)"

definition channel_closed :: error where
  "channel_closed = Errorf None ''watch channel closed'' None"

fun close_attempts ::
  "('c, 'w) lw_services \<Rightarrow> nat \<Rightarrow> ('c, 'w) lw_state \<Rightarrow> error option \<times> ('c, 'w) lw_state" where
  "close_attempts S 0 st = (Some channel_closed, closeEtcdClient S st)"
| "close_attempts S (Suc n) st =
     (case select_try S (s_world st) of
        (TrySend, w) \<Rightarrow>
          (Some channel_closed,
           closeEtcdClient S (put_event (error_event ''watch channel closed unexpectedly'') (set_world w st)))
      | (TryDone e, w) \<Rightarrow> (Some e, set_world w st)
      | (TryDefault, w) \<Rightarrow> close_attempts S n (set_world (time_Sleep S (10 * 1000000) w) st))"

definition handleWatchChannelClose ::
  "('c, 'w) lw_services \<Rightarrow> ('c, 'w) lw_state \<Rightarrow> error option \<times> ('c, 'w) lw_state" where
  "handleWatchChannelClose S st = close_attempts S 3 (log_call st)"

partial_function (option) watch_loop ::
  "('c, 'w) lw_services \<Rightarrow> ('c, 'w) lw_state \<Rightarrow> (error option \<times> ('c, 'w) lw_state) option" where
  "watch_loop S st =
     (case select_recv S (s_world st) of
        (RecvDone e, w) \<Rightarrow>
          Some (Some e, snd (tryToSendErrorEvent S ''watch stopped: context cancelled'' (set_world w st)))
      | (RecvClosed, w) \<Rightarrow> Some (handleWatchChannelClose S (set_world w st))
      | (RecvEvent event, w) \<Rightarrow>
          (case sendEvent S event (set_world w st) of
             (Some err, st1) \<Rightarrow> Some (Some err, st1)
           | (None, st1) \<Rightarrow> watch_loop S st1))"

declare watch_loop.simps [code]

definition watchAndForwardEvents ::
  "('c, 'w) lw_services \<Rightarrow> ('c, 'w) lw_state \<Rightarrow> (error option \<times> ('c, 'w) lw_state) option" where
  "watchAndForwardEvents S st =
     (case LW_Watch S st of
        (Inl err, st1) \<Rightarrow>
          Some (Some err,
            closeEtcdClient S (snd (tryToSendErrorEvent S (''failed to start watch: '' @ error_text S err) (log_call st1))))
      | (Inr r, st1) \<Rightarrow>
          Option.bind (watch_loop S st1) (\<lambda>(r, st2). Some (r, watch_cancel S st2)))"

text \<open>The goroutine that waits for the end of the watch; \<open>seen\<close> is what \<open>ctx.Err()\<close> was when it asked.\<close>

definition monitor_goroutine ::
  "('c, 'w) lw_services \<Rightarrow> error option \<Rightarrow> ('c, 'w) lw_state \<Rightarrow> ('c, 'w) lw_state" where
  "monitor_goroutine S seen st =
     (if seen = None then snd (tryToSendErrorEvent S ''etcd connection lost'' st) else st)"

subsection \<open>The loop\<close>

definition list_watch_attempt ::
  "('c, 'w) lw_services \<Rightarrow> ('c, 'w) lw_state \<Rightarrow> (error option \<times> ('c, 'w) lw_state) option" where
  "list_watch_attempt S st =
     (case ensureConnected S st of
        (Some err, st1) \<Rightarrow> Some (Some err, st1)
      | (None, st1) \<Rightarrow>
          (case listAndSendExisting S st1 of
             (Some err, st2) \<Rightarrow> Some (Some err, st2)
           | (None, st2) \<Rightarrow> watchAndForwardEvents S st2))"

partial_function (option) list_watch_loop ::
  "('c, 'w) lw_services \<Rightarrow> ('c, 'w) lw_state \<Rightarrow> ('c, 'w) lw_state option" where
  "list_watch_loop S st =
     (if ctx_Err S (s_world st) \<noteq> None then Some st
      else Option.bind (WithExponentialBackoff (RetryOpts (lw_opts (s_lw st))) (list_watch_attempt S) (timer S) st)
             (\<lambda>((err, ds), st1).
                list_watch_loop S
                  (if err \<noteq> None \<and> err \<noteq> Some (Sentinel ContextCanceled) then log_call st1 else st1)))"

declare list_watch_loop.simps [code]

definition runListWatchLoop ::
  "('c, 'w) lw_services \<Rightarrow> ('c, 'w) lw_state \<Rightarrow> ('c, 'w) lw_state option" where
  "runListWatchLoop S st = map_option (handleCleanup S) (list_watch_loop S st)"

text \<open>\<open>ListAndWatch\<close> makes the channels and starts the goroutine; the value is the state when the goroutine
  has ended, which is what its cancel function waits for.\<close>

definition ListAndWatch :: "('c, 'w) lw_services \<Rightarrow> 'c ListWatch \<Rightarrow> 'w \<Rightarrow> ('c, 'w) lw_state option" where
  "ListAndWatch S lw w =
     runListWatchLoop S \<lparr>s_lw = lw, s_ch = [], s_chClosed = False, s_doneClosed = False, s_panicked = False, s_world = w\<rparr>"

end
