(* ===== verification/Listwatch_Properties.thy ===== *)
theory Listwatch_Properties
  imports Listwatch
begin

text \<open>The metrics that are registered and never updated.\<close>

definition idle_metrics :: "metrics \<Rightarrow> nat \<times> nat" where
  "idle_metrics m = (watchFailures m, watchLatency m)"

lemma idle_metrics_simps [simp]:
  "idle_metrics (m\<lparr>listLatency := n\<rparr>) = idle_metrics m" "idle_metrics (m\<lparr>eventProcessed := n\<rparr>) = idle_metrics m"
  "idle_metrics (m\<lparr>retryCount := n\<rparr>) = idle_metrics m" "idle_metrics (m\<lparr>connectionState := c\<rparr>) = idle_metrics m"
  "idle_metrics (m\<lparr>watchSessionDuration := n\<rparr>) = idle_metrics m" "idle_metrics (m\<lparr>errorsByType := f\<rparr>) = idle_metrics m"
  by (simp_all add: idle_metrics_def)

text \<open>
  Properties of the list and watch loop: what it puts on its channel and counts, how it ends, and
  where events are lost.
\<close>

subsection \<open>What a piece of the loop emits\<close>

abbreviation valid_event :: "Event \<Rightarrow> bool" where
  "valid_event e \<equiv> validate e = None"

lemma error_event_invalid [simp]: "validate (error_event msg) = Some (Errorf None ''event prefix cannot be empty'' None)"
  by (simp add: validate_def error_event_def ErrorEvent_def)

definition emits :: "('c, 'w) lw_state \<Rightarrow> Event list \<Rightarrow> ('c, 'w) lw_state \<Rightarrow> bool" where
  "emits st es st' \<longleftrightarrow> s_ch st' = s_ch st @ es \<and>
     (\<forall>e\<in>set es. valid_event e \<or> (\<exists>msg. e = error_event msg)) \<and>
     eventProcessed (lw_metrics (s_lw st')) = eventProcessed (lw_metrics (s_lw st)) + length (filter valid_event es) \<and>
     idle_metrics (lw_metrics (s_lw st')) = idle_metrics (lw_metrics (s_lw st)) \<and>
     s_chClosed st' = s_chClosed st \<and> s_panicked st' = s_panicked st \<and>
     watchPrefix (s_lw st') = watchPrefix (s_lw st) \<and> logger (s_lw st') = logger (s_lw st)"

text \<open>A state the loop may be in after it started in \<open>st0\<close> with an open channel and a logger.\<close>

definition after :: "('c, 'w) lw_state \<Rightarrow> ('c, 'w) lw_state \<Rightarrow> bool" where
  "after st0 st \<longleftrightarrow> \<not> s_chClosed st0 \<and> logger (s_lw st0) = SomeLogger \<and> (\<exists>es. emits st0 es st)"

named_theorems emit_rules

lemma after_refl: "\<not> s_chClosed st \<Longrightarrow> logger (s_lw st) = SomeLogger \<Longrightarrow> after st st"
  by (auto simp: after_def emits_def)

lemma after_trans:
  assumes "after st0 st1" "emits st1 es st2"
  shows "after st0 st2"
proof -
  obtain es0 where 0: "\<not> s_chClosed st0" "logger (s_lw st0) = SomeLogger" "emits st0 es0 st1"
    using assms(1) by (auto simp: after_def)
  then have "emits st0 (es0 @ es) st2" using assms(2) by (auto simp: emits_def)
  then show ?thesis using 0 by (auto simp: after_def)
qed

lemma after_open: "after st0 st \<Longrightarrow> \<not> s_chClosed st"
  by (auto simp: after_def emits_def)

lemma after_log_call [emit_rules]: "after st0 st \<Longrightarrow> after st0 (log_call st)"
  by (auto simp: after_def emits_def log_call_def)

lemma log_call_simps [simp]:
  "s_world (log_call st) = s_world st" "s_lw (log_call st) = s_lw st" "s_ch (log_call st) = s_ch st"
  "s_chClosed (log_call st) = s_chClosed st" "s_doneClosed (log_call st) = s_doneClosed st"
  "s_panicked (log_call st) \<longleftrightarrow> s_panicked st \<or> logger (s_lw st) = NilLogger"
  by (simp_all add: log_call_def split: Logger.split)

lemma set_simps [simp]:
  "s_world (set_world w st) = w" "s_lw (set_world w st) = s_lw st" "s_ch (set_world w st) = s_ch st"
  "s_chClosed (set_world w st) = s_chClosed st" "s_panicked (set_world w st) = s_panicked st"
  "etcdCli (s_lw (set_cli c st)) = c" "s_ch (set_cli c st) = s_ch st" "s_world (set_cli c st) = s_world st"
  "s_chClosed (set_cli c st) = s_chClosed st" "s_panicked (set_cli c st) = s_panicked st"
  "lw_metrics (s_lw (set_cli c st)) = lw_metrics (s_lw st)" "watchPrefix (s_lw (set_cli c st)) = watchPrefix (s_lw st)"
  "lw_metrics (s_lw (on_metrics f st)) = f (lw_metrics (s_lw st))" "etcdCli (s_lw (on_metrics f st)) = etcdCli (s_lw st)"
  "s_ch (on_metrics f st) = s_ch st" "s_world (on_metrics f st) = s_world st"
  "s_chClosed (on_metrics f st) = s_chClosed st" "s_panicked (on_metrics f st) = s_panicked st"
  "watchPrefix (s_lw (on_metrics f st)) = watchPrefix (s_lw st)"
  "logger (s_lw (set_cli c st)) = logger (s_lw st)" "logger (s_lw (on_metrics f st)) = logger (s_lw st)"
  by (simp_all add: set_world_def set_cli_def on_metrics_def)

lemma put_event_simps [simp]:
  "s_lw (put_event e st) = s_lw st" "s_chClosed (put_event e st) = s_chClosed st" "s_world (put_event e st) = s_world st"
  "\<not> s_chClosed st \<Longrightarrow> s_ch (put_event e st) = s_ch st @ [e]"
  "\<not> s_chClosed st \<Longrightarrow> s_panicked (put_event e st) = s_panicked st"
  by (simp_all add: put_event_def)

lemma after_set_world [emit_rules]: "after st0 st \<Longrightarrow> after st0 (set_world w st)"
  by (erule after_trans [where es = "[]"]) (simp add: emits_def)

lemma after_set_cli [emit_rules]: "after st0 st \<Longrightarrow> after st0 (set_cli c st)"
  by (erule after_trans [where es = "[]"]) (simp add: emits_def)

lemma after_on_metrics [emit_rules]:
  "after st0 st \<Longrightarrow> (\<And>m. (eventProcessed (f m), idle_metrics (f m)) = (eventProcessed m, idle_metrics m)) \<Longrightarrow>
     after st0 (on_metrics f st)"
  by (erule after_trans [where es = "[]"]) (simp add: emits_def)

lemma after_observe_session [emit_rules]: "after st0 st \<Longrightarrow> after st0 (observe_session st)"
  unfolding observe_session_def by (erule after_on_metrics) simp

lemma observe_session_simps [simp]:
  "s_world (observe_session st) = s_world st" "s_ch (observe_session st) = s_ch st"
  "etcdCli (s_lw (observe_session st)) = etcdCli (s_lw st)"
  by (simp_all add: observe_session_def)

lemma after_error_event [emit_rules]: "after st0 st \<Longrightarrow> after st0 (put_event (error_event msg) st)"
  by (frule after_open, erule after_trans [where es = "[error_event msg]"]) (auto simp: emits_def)

lemma after_valid_event [emit_rules]:
  "after st0 st \<Longrightarrow> valid_event e \<Longrightarrow>
     after st0 (on_metrics (\<lambda>m. m\<lparr>eventProcessed := Suc (eventProcessed m)\<rparr>) (put_event e st))"
  by (frule after_open, erule after_trans [where es = "[e]"]) (simp add: emits_def)

subsection \<open>The operations\<close>

lemma after_tryToSendErrorEvent [emit_rules]: "after st0 st \<Longrightarrow> after st0 (snd (tryToSendErrorEvent S msg st))"
  unfolding tryToSendErrorEvent_def WithRetries_def
  by (simp add: case_prod_beta, rule retries_loop_keeps [where P = "after st0"])
    (auto simp: try_error_event_def timer_def split: prod.split try_choice.split intro: emit_rules)

lemma after_sendEvent: "after st0 st \<Longrightarrow> after st0 (snd (sendEvent S e st))"
  by (auto simp: sendEvent_def split: option.split prod.split blocking_choice.split intro: emit_rules)

lemma after_closeEtcdClient [emit_rules]: "after st0 st \<Longrightarrow> after st0 (closeEtcdClient S st)"
  by (auto simp: closeEtcdClient_def split: option.split intro: emit_rules)

lemma after_ensureConnected: "after st0 st \<Longrightarrow> after st0 (snd (ensureConnected S st))"
  by (auto simp: ensureConnected_def Let_def split: prod.split sum.split intro!: emit_rules)

lemma ensureConnected_cli: "ensureConnected S st = (None, st') \<Longrightarrow> etcdCli (s_lw st') \<noteq> None"
  by (auto simp: ensureConnected_def Let_def split: if_splits prod.splits sum.splits)

lemma sendEvent_cli: "etcdCli (s_lw (snd (sendEvent S e st))) = etcdCli (s_lw st)"
  by (simp add: sendEvent_def split: option.split prod.split blocking_choice.split)

lemma after_send_existing: "after st0 st \<Longrightarrow> after st0 (snd (send_existing S es st))"
proof (induction es arbitrary: st)
  case (Cons e es)
  obtain r st1 where s: "sendEvent S e st = (r, st1)" by (cases "sendEvent S e st")
  then have "after st0 st1" using after_sendEvent [OF Cons.prems, of S e] by simp
  then show ?case using s Cons.IH [of st1] by (cases r) auto
qed simp

lemma send_existing_cli: "etcdCli (s_lw (snd (send_existing S es st))) = etcdCli (s_lw st)"
proof (induction es arbitrary: st)
  case (Cons e es)
  obtain r st1 where "sendEvent S e st = (r, st1)" by (cases "sendEvent S e st")
  then show ?case using Cons.IH [of st1] sendEvent_cli [of S e st] by (cases r) auto
qed simp

lemma sendEvent_prefix: "watchPrefix (s_lw (snd (sendEvent S e st))) = watchPrefix (s_lw st)"
  by (simp add: sendEvent_def split: option.split prod.split blocking_choice.split)

lemma send_existing_prefix: "watchPrefix (s_lw (snd (send_existing S es st))) = watchPrefix (s_lw st)"
proof (induction es arbitrary: st)
  case (Cons e es)
  obtain r st1 where "sendEvent S e st = (r, st1)" by (cases "sendEvent S e st")
  then show ?case using Cons.IH [of st1] sendEvent_prefix [of S e st] by (cases r) auto
qed simp

lemma after_listAndSendExisting:
  "after st0 st \<Longrightarrow> etcdCli (s_lw st) \<noteq> None \<Longrightarrow> after st0 (snd (listAndSendExisting S st))"
  by (auto simp: listAndSendExisting_def LW_List_def Let_def split: prod.split sum.split option.split)
    (simp_all add: emit_rules after_send_existing)

lemma listAndSendExisting_sent:
  assumes "listAndSendExisting S st = (None, st')" "etcdCli (s_lw st) = Some cli"
  obtains n items w1 st0 where "cli_Get S cli (watchPrefix (s_lw st)) (s_world st) = (Inr (n, items), w1)"
    "send_existing S (map (list_event (watchPrefix (s_lw st))) items) st0 = (None, st')"
    "s_ch st0 = s_ch st" "s_chClosed st0 = s_chClosed st" "etcdCli (s_lw st0) = Some cli"
    "watchPrefix (s_lw st0) = watchPrefix (s_lw st)"
proof -
  obtain v w1 where g: "cli_Get S cli (watchPrefix (s_lw st)) (s_world st) = (v, w1)" by fastforce
  then obtain n items where v: "v = Inr (n, items)"
    using assms by (cases v) (auto simp: listAndSendExisting_def LW_List_def Let_def)
  show thesis
    using assms g unfolding v
    by (intro that [of n items w1 "on_metrics (\<lambda>m. m\<lparr>listLatency := Suc (listLatency m)\<rparr>) (set_world w1 st)"])
      (simp_all add: listAndSendExisting_def LW_List_def Let_def)
qed

lemma listAndSendExisting_cli:
  assumes "etcdCli (s_lw st) \<noteq> None" "listAndSendExisting S st = (None, st')"
  shows "etcdCli (s_lw st') \<noteq> None"
proof -
  obtain cli where "etcdCli (s_lw st) = Some cli" using assms(1) by blast
  with assms(2) obtain items st0 where
    "send_existing S (map (list_event (watchPrefix (s_lw st))) items) st0 = (None, st')" "etcdCli (s_lw st0) = Some cli"
    by (rule listAndSendExisting_sent)
  then show ?thesis using send_existing_cli [of S "map (list_event (watchPrefix (s_lw st))) items" st0] by simp
qed

lemma after_close_attempts: "after st0 st \<Longrightarrow> after st0 (snd (close_attempts S n st))"
  by (induction n arbitrary: st) (auto split: prod.split try_choice.split intro: emit_rules)

text \<open>The loops, by induction over calls that return.\<close>

lemma watch_loop_keeps:
  assumes "watch_loop S st = Some (r, st')" "after st0 st"
  shows "after st0 st'"
proof -
  have "S1 = S \<longrightarrow> after st0 st \<longrightarrow> after st0 (snd y)" if "watch_loop S1 st = Some y" for S1 st y
    using that
  proof (rule watch_loop.raw_induct [rotated])
    fix g S1 st y
    assume IH: "\<And>S1 st y. g S1 st = Some y \<Longrightarrow> S1 = S \<longrightarrow> after st0 st \<longrightarrow> after st0 (snd y)"
      and step: "(case select_recv S1 (s_world st) of
        (RecvDone e, w) \<Rightarrow>
          Some (Some e, snd (tryToSendErrorEvent S1 ''watch stopped: context cancelled'' (set_world w st)))
      | (RecvClosed, w) \<Rightarrow> Some (handleWatchChannelClose S1 (set_world w st))
      | (RecvEvent event, w) \<Rightarrow>
          (case sendEvent S1 event (set_world w st) of
             (Some err, st1) \<Rightarrow> Some (Some err, st1)
           | (None, st1) \<Rightarrow> g S1 st1)) = Some y"
    show "S1 = S \<longrightarrow> after st0 st \<longrightarrow> after st0 (snd y)"
    proof (intro impI)
      assume "S1 = S" and st: "after st0 st"
      obtain c w where c: "select_recv S1 (s_world st) = (c, w)" by (cases "select_recv S1 (s_world st)")
      have w: "after st0 (set_world w st)" using st by (rule after_set_world)
      show "after st0 (snd y)"
      proof (cases c)
        case (RecvDone e)
        then have "y = (Some e, snd (tryToSendErrorEvent S1 ''watch stopped: context cancelled'' (set_world w st)))"
          using step c by simp
        then show ?thesis using after_tryToSendErrorEvent [OF w] by simp
      next
        case RecvClosed
        then have "y = handleWatchChannelClose S1 (set_world w st)" using step c by simp
        then show ?thesis using after_close_attempts [OF after_log_call [OF w]] by (simp add: handleWatchChannelClose_def)
      next
        case (RecvEvent event)
        obtain e st1 where s: "sendEvent S1 event (set_world w st) = (e, st1)"
          by (cases "sendEvent S1 event (set_world w st)")
        then have "after st0 st1" using after_sendEvent [OF w, of S1 event] by simp
        then show ?thesis using step c RecvEvent s IH [of S1 st1 y] \<open>S1 = S\<close> by (cases e) auto
      qed
    qed
  qed
  from this [OF assms(1)] show ?thesis using assms(2) by simp
qed

lemma after_watchAndForwardEvents:
  assumes "watchAndForwardEvents S st = Some (r, st')" "after st0 st" "etcdCli (s_lw st) \<noteq> None"
  shows "after st0 st'"
proof -
  obtain v st1 where v: "LW_Watch S st = (v, st1)" by (cases "LW_Watch S st")
  have st1: "after st0 st1"
    using v assms(2,3) by (auto simp: LW_Watch_def split: option.splits prod.splits sum.splits intro!: emit_rules)
  show ?thesis
  proof (cases v)
    case (Inl err)
    then show ?thesis using assms(1) v st1 by (auto simp: watchAndForwardEvents_def intro: emit_rules)
  next
    case (Inr n)
    then obtain st2 where "watch_loop S st1 = Some (r, st2)" "st' = watch_cancel S st2"
      using assms(1) v by (auto simp: watchAndForwardEvents_def bind_eq_Some_conv)
    then show ?thesis
      using watch_loop_keeps [OF _ st1] by (auto simp: watch_cancel_def split: option.split intro: emit_rules)
  qed
qed

lemma after_list_watch_attempt:
  assumes "list_watch_attempt S st = Some (r, st')" "after st0 st"
  shows "after st0 st'"
proof -
  obtain e1 st1 where 1: "ensureConnected S st = (e1, st1)" by (cases "ensureConnected S st")
  have a1: "after st0 st1" using after_ensureConnected [OF assms(2), of S] 1 by simp
  show ?thesis
  proof (cases e1)
    case (Some err)
    then show ?thesis using assms(1) 1 a1 by (simp add: list_watch_attempt_def)
  next
    case None
    then have c1: "etcdCli (s_lw st1) \<noteq> None" using 1 ensureConnected_cli by blast
    obtain e2 st2 where 2: "listAndSendExisting S st1 = (e2, st2)" by (cases "listAndSendExisting S st1")
    have a2: "after st0 st2" using after_listAndSendExisting [OF a1 c1, of S] 2 by simp
    show ?thesis
    proof (cases e2)
      case (Some err)
      then show ?thesis using assms(1) 1 2 None a2 by (simp add: list_watch_attempt_def)
    next
      case None2: None
      then have "etcdCli (s_lw st2) \<noteq> None" using 2 listAndSendExisting_cli [OF c1] by blast
      then show ?thesis
        using assms(1) 1 2 None None2 after_watchAndForwardEvents [OF _ a2] by (simp add: list_watch_attempt_def)
    qed
  qed
qed

lemma list_watch_loop_keeps:
  assumes "list_watch_loop S st = Some st'" "after st0 st"
  shows "after st0 st' \<and> ctx_Err S (s_world st') \<noteq> None"
proof -
  have "after st0 st \<longrightarrow> after st0 y \<and> ctx_Err S1 (s_world y) \<noteq> None"
    if "list_watch_loop S1 st = Some y" for S1 :: "('a, 'b) lw_services" and st y
    using that
  proof (rule list_watch_loop.raw_induct [rotated])
    fix g and S1 :: "('a, 'b) lw_services" and st y
    assume IH: "\<And>S1 st y. g S1 st = Some y \<Longrightarrow> after st0 st \<longrightarrow> after st0 y \<and> ctx_Err S1 (s_world y) \<noteq> None"
      and step: "(if ctx_Err S1 (s_world st) \<noteq> None then Some st
        else Option.bind (WithExponentialBackoff (RetryOpts (lw_opts (s_lw st))) (list_watch_attempt S1) (timer S1) st)
          (\<lambda>((err, ds), st1). g S1
             (if err \<noteq> None \<and> err \<noteq> Some (Sentinel ContextCanceled) then log_call st1 else st1))) = Some y"
    show "after st0 st \<longrightarrow> after st0 y \<and> ctx_Err S1 (s_world y) \<noteq> None"
    proof
      assume st: "after st0 st"
      show "after st0 y \<and> ctx_Err S1 (s_world y) \<noteq> None"
      proof (cases "ctx_Err S1 (s_world st) = None")
        case True
        then obtain r st1 where b: "WithExponentialBackoff (RetryOpts (lw_opts (s_lw st))) (list_watch_attempt S1) (timer S1) st = Some (r, st1)"
          and g: "g S1 (if fst r \<noteq> None \<and> fst r \<noteq> Some (Sentinel ContextCanceled) then log_call st1 else st1) = Some y"
          using step by (auto simp: bind_eq_Some_conv)
        have "after st0 (snd (r, st1))"
          by (rule backoff_loop_keeps [where P = "after st0", OF b [unfolded WithExponentialBackoff_def] st])
            (auto simp: timer_def split: prod.split intro: after_list_watch_attempt emit_rules)
        then have "after st0 (if fst r \<noteq> None \<and> fst r \<noteq> Some (Sentinel ContextCanceled) then log_call st1 else st1)"
          by (simp add: after_log_call)
        then show ?thesis using IH [OF g] by blast
      next
        case False
        then show ?thesis using step st by simp
      qed
    qed
  qed
  from this [OF assms(1)] assms(2) show ?thesis by simp
qed

subsection \<open>Properties\<close>

lemma after_handleCleanup:
  assumes "after st0 st"
  obtains st2 where "after st0 st2" "handleCleanup S st = log_call (st2\<lparr>s_chClosed := True, s_doneClosed := True\<rparr>)"
    "etcdCli (s_lw st2) = None" "connectionState (lw_metrics (s_lw st2)) = 0"
proof -
  let ?st1 = "on_metrics (\<lambda>m. m\<lparr>connectionState := 0\<rparr>) (closeEtcdClient S st)"
  let ?Q = "\<lambda>st. after st0 st \<and> etcdCli (s_lw st) = None \<and> connectionState (lw_metrics (s_lw st)) = 0"
  have Q1: "?Q ?st1"
    using assms by (auto simp: closeEtcdClient_def split: option.split intro!: emit_rules)
  have Q: "?Q (snd (tryToSendErrorEvent S msg st))" if "?Q st" for msg st
    unfolding tryToSendErrorEvent_def WithRetries_def case_prod_beta snd_conv
    by (rule retries_loop_keeps [where P = ?Q, OF that])
      (auto simp: try_error_event_def timer_def split: prod.split try_choice.split intro: emit_rules)
  show thesis
  proof (cases "ctx_Err S (s_world ?st1)")
    case None
    then show thesis using Q1 by (intro that [of ?st1]) (simp_all add: handleCleanup_def Let_def)
  next
    case (Some e)
    let ?st2 = "on_metrics (\<lambda>m. m\<lparr>errorsByType := inc ''context_cancelled'' (errorsByType m)\<rparr>) ?st1"
    have "?Q ?st2" using Q1 by (auto intro!: emit_rules)
    from Q [OF this] show thesis using Some
      by (intro that [of "snd (tryToSendErrorEvent S (''context cancelled: '' @ error_text S e) ?st2)"])
        (simp_all add: handleCleanup_def Let_def)
  qed
qed

text \<open>C9: what a consumer of \<open>ListAndWatch\<close> can rely on when the goroutine has ended: both channels are
  closed, the client is released and the gauge shows it; the goroutine never sent on a closed channel or
  used a nil client; every event it sent is well formed or one of its own error reports; and the counter
  of processed events has grown by exactly the number of well-formed events, while the counter of watch
  failures and the histogram of the watch latency have not moved. The \<open>ListWatch\<close> has a logger.\<close>

theorem ListAndWatch_invariant:
  assumes "ListAndWatch S lw w = Some st" "logger lw = SomeLogger"
  shows "s_chClosed st \<and> s_doneClosed st \<and> \<not> s_panicked st \<and> etcdCli (s_lw st) = None \<and>
    connectionState (lw_metrics (s_lw st)) = 0 \<and>
    (\<forall>e\<in>set (s_ch st). valid_event e \<or> (\<exists>msg. e = error_event msg)) \<and>
    eventProcessed (lw_metrics (s_lw st)) = eventProcessed (lw_metrics lw) + length (filter valid_event (s_ch st)) \<and>
    watchFailures (lw_metrics (s_lw st)) = watchFailures (lw_metrics lw) \<and>
    watchLatency (lw_metrics (s_lw st)) = watchLatency (lw_metrics lw)"
proof -
  let ?st0 = "\<lparr>s_lw = lw, s_ch = [], s_chClosed = False, s_doneClosed = False, s_panicked = False, s_world = w\<rparr>"
  obtain st1 where l: "list_watch_loop S ?st0 = Some st1" and st: "st = handleCleanup S st1"
    using assms(1) by (auto simp: ListAndWatch_def runListWatchLoop_def)
  have "after ?st0 st1"
    using list_watch_loop_keeps [OF l after_refl [of ?st0]] assms(2) by simp
  then obtain st2 where "after ?st0 st2" "st = log_call (st2\<lparr>s_chClosed := True, s_doneClosed := True\<rparr>)"
    "etcdCli (s_lw st2) = None" "connectionState (lw_metrics (s_lw st2)) = 0"
    unfolding st by (rule after_handleCleanup)
  then show ?thesis by (auto simp: after_def emits_def idle_metrics_def)
qed

lemma send_existing_ch:
  "send_existing S es st = (None, st') \<Longrightarrow> \<not> s_chClosed st \<Longrightarrow> s_ch st' = s_ch st @ es"
proof (induction es arbitrary: st)
  case (Cons e es)
  then obtain st1 where s: "sendEvent S e st = (None, st1)" "send_existing S es st1 = (None, st')"
    by (auto split: prod.splits option.splits)
  moreover have "s_ch st1 = s_ch st @ [e]" "\<not> s_chClosed st1"
    using s(1) Cons.prems(2) by (auto simp: sendEvent_def split: option.splits prod.splits blocking_choice.splits)
  ultimately show ?case using Cons.IH [of st1] by simp
qed simp




lemma fold_inc: "fold (\<lambda>e. inc (f e)) es g t = g t + length (filter (\<lambda>e. f e = t) es)"
  by (induction es arbitrary: g) (auto simp: inc_def)

text \<open>While etcd reports no error, the goroutine of \<open>Watch\<close> turns every change into one well-formed event, in
  order: a put of a new key into \<open>Added\<close>, another put into \<open>Modified\<close>, a deletion into \<open>Deleted\<close>, with the key
  and the value of the change and the watched prefix; and it counts the events of each type.\<close>

lemma watch_goroutine_converts:
  assumes "list_all (\<lambda>(err, evs). err = None \<and> list_all (\<lambda>ev. ev_Type ev \<noteq> OtherType \<and> kv_Key (ev_Kv ev) \<noteq> []) evs) resps"
    and "p \<noteq> ''''"
  shows "fst (watch_goroutine text p resps m) = map (watch_event p) (concat (map snd resps)) \<and>
    list_all valid_event (fst (watch_goroutine text p resps m)) \<and>
    (\<forall>t. eventsByType (snd (watch_goroutine text p resps m)) t =
       eventsByType m t + length (filter (\<lambda>e. Event_Type e = t) (fst (watch_goroutine text p resps m))))"
  using assms(1)
proof (induction resps arbitrary: m)
  case (Cons r resps)
  obtain evs where r: "r = (None, evs)" "list_all (\<lambda>ev. ev_Type ev \<noteq> OtherType \<and> kv_Key (ev_Kv ev) \<noteq> []) evs"
    using Cons.prems by (cases r) auto
  have "valid_event (watch_event p ev)" if "ev \<in> set evs" for ev
    using that r(2) assms(2)
    by (auto simp: list_all_iff validate_def watch_event_def lw_type_defs split: mvcc_type.split)
  moreover obtain rest m2 where g: "watch_goroutine text p resps
      (m\<lparr>eventsByType := fold (\<lambda>e. inc (Event_Type e)) (map (watch_event p) evs) (eventsByType m)\<rparr>) = (rest, m2)"
    by (metis prod.collapse)
  ultimately show ?case
    using Cons.IH [of "m\<lparr>eventsByType := fold (\<lambda>e. inc (Event_Type e)) (map (watch_event p) evs) (eventsByType m)\<rparr>"]
      Cons.prems r(1) by (auto simp: fold_inc list_all_iff)
qed simp

subsection \<open>Witnesses\<close>

text \<open>Services on a clock: the first listing sees revision 5 and the next one revision 7; a watch delivers
  one event and then finds the context done.\<close>

definition demo_kv :: "int \<Rightarrow> kv" where
  "demo_kv r = \<lparr>kv_Key = ''/app/a'', kv_Value = ''1'', kv_CreateRevision = 5, kv_ModRevision = r\<rparr>"

definition demo_services :: "(nat, nat) lw_services" where
  "demo_services =
     \<lparr>clientv3_New = (\<lambda>eps d w. (Inr 0, w)),
      cli_Get = (\<lambda>c p w. (Inr (if w = 0 then 5 else 7, [demo_kv 5]), w + 1)),
      cli_Watch = (\<lambda>c p r w. w), cli_Close = (\<lambda>c w. w),
      select_try = (\<lambda>w. (TrySend, w)), select_send = (\<lambda>w. (Sent, w)),
      select_recv = (\<lambda>w. if w < 3
        then (RecvEvent (watch_event ''/app/'' \<lparr>ev_Type = PUT, ev_Kv = demo_kv 8, ev_PrevKv = None\<rparr>), w + 1)
        else (RecvDone (Sentinel ContextCanceled), w + 1)),
      select_timer = (\<lambda>d w. (CtxDone (Sentinel ContextCanceled), w)), time_Sleep = (\<lambda>d w. w),
      ctx_Err = (\<lambda>w. if w > 3 then Some (Sentinel ContextCanceled) else None), error_text = (\<lambda>e. ''error'')\<rparr>"

definition demo_lw :: "nat ListWatch" where
  "demo_lw = \<lparr>endpoints = [], etcdCli = None, watchPrefix = ''/app/'', lw_opts = LW_DefaultOptions, lw_metrics = zero_metrics,
     logger = SomeLogger\<rparr>"

lemma demo_listwatch:
  "case ListAndWatch demo_services demo_lw 0 of None \<Rightarrow> False
   | Some st \<Rightarrow> map Event_Type (s_ch st) = [Added, Modified, ErrorEvent, ErrorEvent]"
  by code_simp

theorem ListAndWatch_invariant_witness:
  "\<exists>st. ListAndWatch demo_services demo_lw 0 = Some st \<and> length (s_ch st) = 4 \<and> s_chClosed st \<and> etcdCli (s_lw st) = None"
proof -
  obtain st where st: "ListAndWatch demo_services demo_lw 0 = Some st"
    "map Event_Type (s_ch st) = [Added, Modified, ErrorEvent, ErrorEvent]"
    using demo_listwatch by (auto split: option.splits)
  have "length (map Event_Type (s_ch st)) = 4" unfolding st(2) by simp
  then have "length (s_ch st) = 4" by simp
  then show ?thesis using ListAndWatch_invariant [OF st(1)] st(1) by (simp add: demo_lw_def)
qed

definition demo_state :: "(nat, nat) lw_state" where
  "demo_state = \<lparr>s_lw = demo_lw\<lparr>etcdCli := Some 0\<rparr>, s_ch = [], s_chClosed = False, s_doneClosed = False,
     s_panicked = False, s_world = 0\<rparr>"

definition demo_listed :: "(nat, nat) lw_state" where
  "demo_listed = snd (listAndSendExisting demo_services demo_state)"

lemma demo_listed: "listAndSendExisting demo_services demo_state = (None, demo_listed)" "s_world demo_listed = 1"
proof -
  have "fst (listAndSendExisting demo_services demo_state) = None" by code_simp
  then show "listAndSendExisting demo_services demo_state = (None, demo_listed)"
    by (simp add: demo_listed_def prod_eq_iff)
  show "s_world demo_listed = 1" by code_simp
qed


text \<open>A watch whose first response is an error.\<close>

definition broken_services :: "(nat, nat) lw_services" where
  "broken_services = demo_services\<lparr>select_recv := (\<lambda>w. (RecvEvent (error_event ''error''), w))\<rparr>"



lemma watch_goroutine_converts_instance:
  "map Event_Type (fst (watch_goroutine (\<lambda>_. []) ''/app/''
     [(None, [\<lparr>ev_Type = PUT, ev_Kv = demo_kv 5, ev_PrevKv = None\<rparr>, \<lparr>ev_Type = DELETE, ev_Kv = demo_kv 6, ev_PrevKv = None\<rparr>])]
     zero_metrics)) = [Added, Deleted]"
  using watch_goroutine_converts [of "[(None, [\<lparr>ev_Type = PUT, ev_Kv = demo_kv 5, ev_PrevKv = None\<rparr>,
      \<lparr>ev_Type = DELETE, ev_Kv = demo_kv 6, ev_PrevKv = None\<rparr>])]" "''/app/''" "\<lambda>_. []" zero_metrics]
  by (simp add: demo_kv_def watch_event_def)

end
