(* ===== verification/Listwatch_Termination.thy ===== *)
theory Listwatch_Termination
  imports Listwatch_Properties
begin

text \<open>
  The list and watch loop ends when its context does: the loops of \<open>Listwatch\<close>, which may run for ever, return
  when only so many events and timers come before the context is done.
\<close>

text \<open>\<open>m\<close> bounds the events the watch delivers and the timers that fire before the context is done. No
  service raises it, an event or a timer lowers it, and a \<open>select\<close> takes the case of the context only
  when the context is done.\<close>

definition lw_bounded :: "('c, 'w) lw_services \<Rightarrow> ('w \<Rightarrow> nat) \<Rightarrow> bool" where
  "lw_bounded S m \<longleftrightarrow>
     (\<forall>eps d w. m (snd (clientv3_New S eps d w)) \<le> m w) \<and>
     (\<forall>c k w. m (snd (cli_Get S c k w)) \<le> m w) \<and>
     (\<forall>c k r w. m (cli_Watch S c k r w) \<le> m w) \<and> (\<forall>c w. m (cli_Close S c w) \<le> m w) \<and>
     (\<forall>w. m (snd (select_try S w)) \<le> m w) \<and> (\<forall>w. m (snd (select_send S w)) \<le> m w) \<and>
     (\<forall>d w. m (time_Sleep S d w) \<le> m w) \<and>
     (\<forall>w. m (snd (select_recv S w)) \<le> m w \<and> (\<forall>e w'. select_recv S w = (RecvEvent e, w') \<longrightarrow> m w' < m w)) \<and>
     (\<forall>d w. m (snd (select_timer S d w)) \<le> m w \<and> (\<forall>w'. select_timer S d w = (Timer, w') \<longrightarrow> m w' < m w) \<and>
        (\<forall>e w'. select_timer S d w = (CtxDone e, w') \<longrightarrow> ctx_Err S w' \<noteq> None))"

lemma bounded_services:
  assumes "lw_bounded S m"
  shows "clientv3_New S eps d w = (r1, w') \<Longrightarrow> m w' \<le> m w" "cli_Get S c k w = (r2, w') \<Longrightarrow> m w' \<le> m w"
    "m (cli_Watch S c k n w) \<le> m w" "m (cli_Close S c w) \<le> m w"
    "select_try S w = (r3, w') \<Longrightarrow> m w' \<le> m w" "select_send S w = (r4, w') \<Longrightarrow> m w' \<le> m w"
    "m (time_Sleep S d w) \<le> m w" "select_recv S w = (r5, w') \<Longrightarrow> m w' \<le> m w"
    "select_recv S w = (RecvEvent e, w') \<Longrightarrow> m w' < m w" "select_timer S d w = (r6, w') \<Longrightarrow> m w' \<le> m w"
    "select_timer S d w = (Timer, w') \<Longrightarrow> m w' < m w" "select_timer S d w = (CtxDone err, w') \<Longrightarrow> ctx_Err S w' \<noteq> None"
proof -
  note b = assms [unfolded lw_bounded_def]
  show "m (cli_Watch S c k n w) \<le> m w" "m (cli_Close S c w) \<le> m w" "m (time_Sleep S d w) \<le> m w"
    using b by blast+
  show "clientv3_New S eps d w = (r1, w') \<Longrightarrow> m w' \<le> m w"
    using b [THEN conjunct1, rule_format, of eps d w] by simp
  show "cli_Get S c k w = (r2, w') \<Longrightarrow> m w' \<le> m w"
    using b [THEN conjunct2, THEN conjunct1, rule_format, of c k w] by simp
  have "m (snd (select_try S w)) \<le> m w" "m (snd (select_send S w)) \<le> m w" "m (snd (select_recv S w)) \<le> m w"
    "m (snd (select_timer S d w)) \<le> m w" using b by blast+
  then show "select_try S w = (r3, w') \<Longrightarrow> m w' \<le> m w" "select_send S w = (r4, w') \<Longrightarrow> m w' \<le> m w"
    "select_recv S w = (r5, w') \<Longrightarrow> m w' \<le> m w" "select_timer S d w = (r6, w') \<Longrightarrow> m w' \<le> m w" by simp_all
  show "select_recv S w = (RecvEvent e, w') \<Longrightarrow> m w' < m w" "select_timer S d w = (Timer, w') \<Longrightarrow> m w' < m w"
    "select_timer S d w = (CtxDone err, w') \<Longrightarrow> ctx_Err S w' \<noteq> None" using b by blast+
qed

subsection \<open>No operation raises the bound\<close>

text \<open>Nor does any change the logger.\<close>

definition descends :: "('w \<Rightarrow> nat) \<Rightarrow> ('c, 'w) lw_state \<Rightarrow> ('c, 'w) lw_state \<Rightarrow> bool" where
  "descends m st st' \<longleftrightarrow> m (s_world st') \<le> m (s_world st) \<and> logger (s_lw st') = logger (s_lw st)"

lemma descends_refl [simp]: "descends m st st"
  by (simp add: descends_def)

lemma descends_trans: "descends m st1 st2 \<Longrightarrow> descends m st2 st3 \<Longrightarrow> descends m st1 st3"
  by (auto simp: descends_def)

lemma descends_simps [simp]:
  "descends m st0 (on_metrics f st) = descends m st0 st" "descends m st0 (log_call st) = descends m st0 st"
  "descends m st0 (set_cli c st) = descends m st0 st" "descends m st0 (put_event e st) = descends m st0 st"
  "descends m st0 (observe_session st) = descends m st0 st" "descends m (log_call st0) st = descends m st0 st"
  "descends m (on_metrics f st0) st = descends m st0 st"
  by (simp_all add: descends_def observe_session_def)

lemma descends_world: "m w \<le> m (s_world st) \<Longrightarrow> descends m st0 st \<Longrightarrow> descends m st0 (set_world w st)"
  by (auto simp: descends_def)

lemma bound_tryToSendErrorEvent:
  fixes st :: "('c, 'w) lw_state"
  assumes "lw_bounded S m" "descends m st0 st"
  shows "descends m st0 (snd (tryToSendErrorEvent S msg st))"
  unfolding tryToSendErrorEvent_def WithRetries_def case_prod_beta snd_conv
proof (rule retries_loop_keeps [where P = "descends m st0", OF assms(2)])
  fix st1 :: "('c, 'w) lw_state" assume *: "descends m st0 st1"
  obtain c w where c: "select_try S (s_world st1) = (c, w)" by (cases "select_try S (s_world st1)")
  then show "descends m st0 (snd (try_error_event S msg st1))"
    using descends_world [OF bounded_services(5) [OF assms(1) c] *] by (cases c) (simp_all add: try_error_event_def)
next
  fix d and st1 :: "('c, 'w) lw_state" assume *: "descends m st0 st1"
  obtain c w where c: "select_timer S d (s_world st1) = (c, w)" by (cases "select_timer S d (s_world st1)")
  then show "descends m st0 (snd (timer S d st1))"
    using descends_world [OF bounded_services(10) [OF assms(1) c] *] by (simp add: timer_def)
qed

lemma bound_sendEvent:
  assumes "lw_bounded S m" "sendEvent S e st = (r, st')"
  shows "descends m st st'"
proof -
  obtain c w where c: "select_send S (s_world st) = (c, w)" by (cases "select_send S (s_world st)")
  have "descends m st (set_world w st)" by (rule descends_world [OF bounded_services(6) [OF assms(1) c]]) simp
  then show ?thesis
    using assms(2) c by (auto simp: sendEvent_def split: option.splits blocking_choice.splits)
qed

lemma bound_closeEtcdClient:
  assumes "lw_bounded S m" "descends m st0 st"
  shows "descends m st0 (closeEtcdClient S st)"
  using descends_world [OF bounded_services(4) [OF assms(1)] assms(2)]
  by (simp add: closeEtcdClient_def assms(2) split: option.split)

lemma bound_ensureConnected:
  assumes "lw_bounded S m" "ensureConnected S st = (r, st')"
  shows "descends m st st'"
proof (cases "etcdCli (s_lw st)")
  case None
  obtain c w where c: "clientv3_New S (endpoints (s_lw st)) (DialTimeout (lw_opts (s_lw st))) (s_world st) = (c, w)"
    by fastforce
  have "descends m st (set_world w st)" by (rule descends_world [OF bounded_services(1) [OF assms(1) c]]) simp
  then show ?thesis
    using assms(2) None c
    by (cases c) (auto simp: ensureConnected_def Let_def intro!: bound_tryToSendErrorEvent [OF assms(1)])
qed (use assms(2) in \<open>simp add: ensureConnected_def\<close>)

lemma bound_send_existing:
  assumes "lw_bounded S m"
  shows "send_existing S es st = (r, st') \<Longrightarrow> descends m st st'"
proof (induction es arbitrary: st)
  case (Cons e es)
  obtain x st1 where s: "sendEvent S e st = (x, st1)" by (cases "sendEvent S e st")
  show ?case
    using Cons.prems Cons.IH [of st1] s bound_sendEvent [OF assms s] by (cases x) (auto intro: descends_trans)
qed simp

lemma bound_listAndSendExisting:
  assumes "lw_bounded S m" "listAndSendExisting S st = (r, st')"
  shows "descends m st st'"
proof -
  obtain v st0 where l: "LW_List S st = (v, st0)" by (cases "LW_List S st")
  let ?st1 = "on_metrics (\<lambda>m. m\<lparr>listLatency := Suc (listLatency m)\<rparr>) st0"
  have 1: "descends m st st0"
    using l bounded_services(2) [OF assms(1)]
    by (auto simp: LW_List_def descends_def split: option.splits prod.splits sum.splits)
  show ?thesis
  proof (cases v)
    case (Inl err)
    have "descends m st (closeEtcdClient S
        (snd (tryToSendErrorEvent S (''failed to list items: '' @ error_text S err) (log_call ?st1))))"
      by (intro bound_closeEtcdClient [OF assms(1)] bound_tryToSendErrorEvent [OF assms(1)]) (simp add: 1)
    then show ?thesis using assms(2) l Inl by (auto simp: listAndSendExisting_def Let_def)
  next
    case (Inr es)
    then have "send_existing S es ?st1 = (r, st')" using assms(2) l by (simp add: listAndSendExisting_def)
    then show ?thesis using bound_send_existing [OF assms(1)] 1 by (fastforce intro: descends_trans)
  qed
qed

lemma bound_close_attempts:
  assumes "lw_bounded S m"
  shows "close_attempts S n st = (r, st') \<Longrightarrow> r \<noteq> None \<and> descends m st st'"
proof (induction n arbitrary: st)
  case 0
  then show ?case using bound_closeEtcdClient [OF assms, of st st] by auto
next
  case (Suc n)
  obtain c w where c: "select_try S (s_world st) = (c, w)" by (cases "select_try S (s_world st)")
  have b: "descends m st (set_world w st)" by (rule descends_world [OF bounded_services(5) [OF assms c]]) simp
  show ?case
  proof (cases c)
    case TrySend
    let ?st = "put_event (error_event ''watch channel closed unexpectedly'') (set_world w st)"
    have "st' = closeEtcdClient S ?st" "r \<noteq> None" using Suc.prems c TrySend by auto
    then show ?thesis using bound_closeEtcdClient [OF assms, of st ?st] b by simp
  next
    case (TryDone e)
    then show ?thesis using Suc.prems c b by auto
  next
    case TryDefault
    let ?st = "set_world (time_Sleep S (10 * 1000000) w) st"
    have "close_attempts S n ?st = (r, st')" using Suc.prems c TryDefault by simp
    moreover have "descends m st ?st"
      using b bounded_services(7) [OF assms, of "10 * 1000000" w] by (auto simp: descends_def)
    ultimately show ?thesis using Suc.IH [of ?st] by (auto intro: descends_trans)
  qed
qed

subsection \<open>The loops return\<close>

lemma watch_loop_returns:
  assumes "lw_bounded S m"
  shows "\<exists>e st'. watch_loop S st = Some (Some e, st') \<and> descends m st st'"
proof (induction "m (s_world st)" arbitrary: st rule: less_induct)
  case less
  obtain c w where c: "select_recv S (s_world st) = (c, w)" by (cases "select_recv S (s_world st)")
  have b: "descends m st (set_world w st)" by (rule descends_world [OF bounded_services(8) [OF assms c]]) simp
  show ?case
  proof (cases c)
    case (RecvDone e)
    then show ?thesis
      using c bound_tryToSendErrorEvent [OF assms b] by (subst watch_loop.simps) simp
  next
    case RecvClosed
    obtain x st' where h: "close_attempts S 3 (log_call (set_world w st)) = (x, st')"
      by (cases "close_attempts S 3 (log_call (set_world w st))")
    then have "x \<noteq> None" "descends m st st'"
      using bound_close_attempts [OF assms h] b by (auto intro: descends_trans)
    then show ?thesis using c RecvClosed h by (subst watch_loop.simps) (auto simp: handleWatchChannelClose_def)
  next
    case (RecvEvent event)
    obtain x st1 where s: "sendEvent S event (set_world w st) = (x, st1)"
      by (cases "sendEvent S event (set_world w st)")
    have d: "descends m st st1" using descends_trans [OF b bound_sendEvent [OF assms s]] .
    have 1: "m (s_world st1) < m (s_world st)"
      using bound_sendEvent [OF assms s] bounded_services(9) [OF assms] c RecvEvent by (fastforce simp: descends_def)
    show ?thesis
      using c RecvEvent s d less [OF 1] by (subst watch_loop.simps) (cases x, auto intro: descends_trans)
  qed
qed

lemma watchAndForwardEvents_returns:
  assumes "lw_bounded S m"
  shows "\<exists>e st'. watchAndForwardEvents S st = Some (Some e, st') \<and> descends m st st'"
proof -
  obtain v st1 where l: "LW_Watch S st = (v, st1)" by (cases "LW_Watch S st")
  have 1: "descends m st st1"
    using l bounded_services(2,3) [OF assms]
    by (fastforce simp: LW_Watch_def descends_def observe_session_def split: option.splits prod.splits sum.splits
        intro: order.trans)
  show ?thesis
  proof (cases v)
    case (Inl err)
    then show ?thesis
      using l bound_closeEtcdClient [OF assms bound_tryToSendErrorEvent [OF assms, of st "log_call st1"]] 1
      by (simp add: watchAndForwardEvents_def)
  next
    case (Inr n)
    obtain e st2 where w: "watch_loop S st1 = Some (Some e, st2)" "descends m st1 st2"
      using watch_loop_returns [OF assms] by blast
    have "descends m st2 (watch_cancel S st2)"
      by (auto simp: watch_cancel_def descends_def bounded_services [OF assms] split: option.split)
    then show ?thesis
      using l Inr w 1 by (auto simp: watchAndForwardEvents_def intro: descends_trans)
  qed
qed

text \<open>An attempt always ends with an error.\<close>

lemma list_watch_attempt_returns:
  assumes "lw_bounded S m"
  shows "\<exists>e st'. list_watch_attempt S st = Some (Some e, st') \<and> descends m st st'"
proof -
  obtain x st1 where 1: "ensureConnected S st = (x, st1)" by (cases "ensureConnected S st")
  obtain y st2 where 2: "listAndSendExisting S st1 = (y, st2)" by (cases "listAndSendExisting S st1")
  note b = bound_ensureConnected [OF assms 1] bound_listAndSendExisting [OF assms 2]
  obtain e st3 where 3: "watchAndForwardEvents S st2 = Some (Some e, st3)" "descends m st2 st3"
    using watchAndForwardEvents_returns [OF assms] by blast
  show ?thesis
    using 1 2 3 b by (cases x; cases y) (auto simp: list_watch_attempt_def intro: descends_trans)
qed

text \<open>So the backoff of the loop ends with the context.\<close>

lemma list_watch_backoff:
  assumes "lw_bounded S m"
  shows "\<exists>e ds st'. WithExponentialBackoff opts (list_watch_attempt S) (timer S) st = Some ((Some e, ds), st') \<and>
    ctx_Err S (s_world st') \<noteq> None \<and> logger (s_lw st') = logger (s_lw st)"
proof -
  let ?sel = "timer S" and ?op = "list_watch_attempt S"
  have "\<exists>r ds st'. backoff_loop opts ?op ?sel (InitialDelay opts) st = Some ((r, ds), st') \<and>
      (case r of None \<Rightarrow> \<exists>st1. ?op st1 = Some (None, st') | Some e \<Rightarrow> \<exists>d st1. ?sel d st1 = (CtxDone e, st'))"
  proof (rule backoff_loop_returns [where m = "\<lambda>st. m (s_world st)"])
    show "?op st \<noteq> None" for st
      using list_watch_attempt_returns [OF assms, of st] by auto
    show "m (s_world st2) < m (s_world st)"
      if "?op st = Some (Some e, st1)" "?sel d st1 = (Timer, st2)" for st e st1 d st2
      using that list_watch_attempt_returns [OF assms, of st] bounded_services(11) [OF assms, of d "s_world st1"]
      by (auto simp: timer_def descends_def split: prod.splits)
  qed
  then obtain r ds st' where b: "backoff_loop opts ?op ?sel (InitialDelay opts) st = Some ((r, ds), st')"
    and c: "case r of None \<Rightarrow> \<exists>st1. ?op st1 = Some (None, st') | Some e \<Rightarrow> \<exists>d st1. ?sel d st1 = (CtxDone e, st')"
    by blast
  have "?op st1 \<noteq> Some (None, st')" for st1
    using list_watch_attempt_returns [OF assms, of st1] by auto
  then obtain e d st1 where e: "r = Some e" "?sel d st1 = (CtxDone e, st')"
    using c by (cases r) auto
  then have "ctx_Err S (s_world st') \<noteq> None"
    using bounded_services(12) [OF assms] by (fastforce simp: timer_def split: prod.splits)
  moreover have "logger (s_lw (snd ((r, ds), st'))) = logger (s_lw st)"
  proof (rule backoff_loop_keeps [OF b])
    show "logger (s_lw st2) = logger (s_lw st)"
      if "logger (s_lw st1) = logger (s_lw st)" "?op st1 = Some (x, st2)" for st1 x st2
      using that list_watch_attempt_returns [OF assms, of st1] by (auto simp: descends_def)
  qed (auto simp: timer_def split: prod.split)
  ultimately show ?thesis using b e(1) by (simp add: WithExponentialBackoff_def)
qed

lemma list_watch_loop_returns:
  assumes "lw_bounded S m"
  shows "\<exists>st'. list_watch_loop S st = Some st' \<and> logger (s_lw st') = logger (s_lw st)"
proof (cases "ctx_Err S (s_world st)")
  case None
  obtain e ds st' where b: "WithExponentialBackoff (RetryOpts (lw_opts (s_lw st))) (list_watch_attempt S) (timer S) st =
      Some ((Some e, ds), st')" and c: "ctx_Err S (s_world st') \<noteq> None" "logger (s_lw st') = logger (s_lw st)"
    using list_watch_backoff [OF assms] by blast
  have "list_watch_loop S st'' = Some st''" if "st'' = st' \<or> st'' = log_call st'" for st''
    using c(1) that by (subst list_watch_loop.simps) auto
  then show ?thesis
    using None b c(2) by (subst list_watch_loop.simps) auto
qed (subst list_watch_loop.simps, simp)

lemma handleCleanup_closed:
  "s_chClosed (handleCleanup S st) \<and> s_doneClosed (handleCleanup S st)"
  "etcdCli (s_lw (handleCleanup S st)) = None"
  "logger (s_lw st) = NilLogger \<Longrightarrow> s_panicked (handleCleanup S st)"
proof -
  let ?P = "\<lambda>st'. etcdCli (s_lw st') = None \<and> logger (s_lw st') = logger (s_lw st)"
  have c: "?P (closeEtcdClient S st)"
    by (simp add: closeEtcdClient_def split: option.split)
  have t: "?P (snd (tryToSendErrorEvent S msg st1))" if "?P st1" for st1 msg
    unfolding tryToSendErrorEvent_def WithRetries_def case_prod_beta snd_conv
    by (rule retries_loop_keeps [where P = ?P, OF that])
      (auto simp: try_error_event_def timer_def split: prod.split try_choice.split)
  show "s_chClosed (handleCleanup S st) \<and> s_doneClosed (handleCleanup S st)" "etcdCli (s_lw (handleCleanup S st)) = None"
    "logger (s_lw st) = NilLogger \<Longrightarrow> s_panicked (handleCleanup S st)"
    using c t by (simp_all add: handleCleanup_def Let_def split: option.split)
qed

lemma ListAndWatch_returns:
  assumes "lw_bounded S m"
  shows "\<exists>st. ListAndWatch S lw w = Some st \<and> s_chClosed st \<and> s_doneClosed st \<and> etcdCli (s_lw st) = None \<and>
    (s_panicked st \<longleftrightarrow> logger lw = NilLogger)"
proof -
  let ?st = "\<lparr>s_lw = lw, s_ch = [], s_chClosed = False, s_doneClosed = False, s_panicked = False, s_world = w\<rparr>"
  obtain st1 where l: "list_watch_loop S ?st = Some st1" "logger (s_lw st1) = logger lw"
    using list_watch_loop_returns [OF assms, of ?st] by auto
  have "\<not> s_panicked (handleCleanup S st1)" if s: "logger lw = SomeLogger"
  proof -
    have "after ?st st1" using list_watch_loop_keeps [OF l(1) after_refl] s by simp
    then obtain st2 where "after ?st st2" "handleCleanup S st1 = log_call (st2\<lparr>s_chClosed := True, s_doneClosed := True\<rparr>)"
      by (rule after_handleCleanup)
    then show ?thesis using s by (auto simp: after_def emits_def)
  qed
  then have "s_panicked (handleCleanup S st1) \<longleftrightarrow> logger lw = NilLogger"
    using handleCleanup_closed(3) [of st1 S] l(2) by (cases "logger lw") auto
  then show ?thesis
    using l(1) handleCleanup_closed(1,2) [of S st1] by (simp add: ListAndWatch_def runListWatchLoop_def)
qed

text \<open>C26: cancelling works, and a \<open>ListWatch\<close> needs a logger. When only so many events arrive and timers fire before
  the context is done, the goroutine of \<open>ListAndWatch\<close> ends, so its cancel function returns, with both
  channels closed and the client released. It panics exactly when the logger is nil, which the
  package comment calls optional.\<close>

theorem ListAndWatch_ends:
  assumes "lw_bounded S m"
  shows "\<exists>st. ListAndWatch S lw w = Some st \<and> s_chClosed st \<and> s_doneClosed st \<and> etcdCli (s_lw st) = None \<and>
    (s_panicked st \<longleftrightarrow> logger lw = NilLogger)"
  by (rule ListAndWatch_returns [OF assms])

text \<open>Services whose world counts the events and timers left until the context is done.\<close>

definition countdown_services :: "(nat, nat) lw_services" where
  "countdown_services = demo_services
     \<lparr>cli_Get := (\<lambda>c p w. (Inr (5, [demo_kv 5]), w)),
      select_recv := (\<lambda>w. if w = 0 then (RecvDone (Sentinel ContextCanceled), 0) else (RecvEvent (error_event ''error''), w - 1)),
      select_timer := (\<lambda>d w. if w = 0 then (CtxDone (Sentinel ContextCanceled), 0) else (Timer, w - 1)),
      ctx_Err := (\<lambda>w. if w = 0 then Some (Sentinel ContextCanceled) else None)\<rparr>"

lemma countdown_bounded: "lw_bounded countdown_services (\<lambda>w. w)"
  by (auto simp: lw_bounded_def countdown_services_def demo_services_def)

theorem ListAndWatch_ends_witness:
  "(\<exists>st. ListAndWatch countdown_services demo_lw 5 = Some st \<and> s_chClosed st \<and> \<not> s_panicked st) \<and>
   (\<exists>st. ListAndWatch countdown_services (demo_lw\<lparr>logger := NilLogger\<rparr>) 5 = Some st \<and> s_panicked st)"
  using ListAndWatch_ends [OF countdown_bounded, of demo_lw 5]
    ListAndWatch_ends [OF countdown_bounded, of "demo_lw\<lparr>logger := NilLogger\<rparr>" 5]
  by (auto simp: demo_lw_def)

end
