(* ===== verification/Listwatch_Examples.thy ===== *)
theory Listwatch_Examples
  imports Commands Listwatch_Termination Registry_Properties
begin

text \<open>
  The two example programs of \<open>pkg/listwatch\<close>: the goroutines that change etcd, what the programs print of
  the events, and how \<open>examples/basic\<close> ends. \<open>slp\<close> is \<open>time.Sleep\<close> on the world of the etcd client. The text written
  by the package \<open>log\<close> is not modelled; what \<open>fmt\<close> prints is a list of lines.
\<close>

definition example_prefix :: string where "example_prefix = ''/example/''"

subsection \<open>Printing events\<close>

definition basic_line :: "Event \<Rightarrow> string list" where
  "basic_line event =
     (if Event_Type event = Added then [''Added: '' @ Event_Key event @ '' = '' @ Event_Value event]
      else if Event_Type event = Modified then [''Modified: '' @ Event_Key event @ '' = '' @ Event_Value event]
      else if Event_Type event = Deleted then [''Deleted: '' @ Event_Key event]
      else if Event_Type event = ErrorEvent then [''Error: '' @ Event_Value event]
      else [])"

text \<open>What the watch sends for a change that etcd names is printed as one line.\<close>

lemma basic_line_watch_event:
  "length (basic_line (watch_event p ev)) = (if ev_Type ev = OtherType then 0 else 1)"
  by (cases "ev_Type ev") (simp_all add: basic_line_def watch_event_def lw_type_defs)

subsection \<open>The changes of examples/basic\<close>

definition basic_changes :: "'w etcd_client \<Rightarrow> (int \<Rightarrow> 'w \<Rightarrow> 'w) \<Rightarrow> 'w \<Rightarrow> string list \<times> 'w" where
  "basic_changes cl slp w =
     (let key1 = example_prefix @ ''app1''; key2 = example_prefix @ ''app2'';
          add1 = [''Adding key: '' @ key1]; mod1 = add1 @ [''Modifying key: '' @ key1];
          add2 = mod1 @ [''Adding key: '' @ key2]; del1 = add2 @ [''Deleting key: '' @ key1]
      in case etcd_Put cl key1 ''value1'' (slp (1 * second) w) of
           (Some err, w1) \<Rightarrow> (add1, w1)
         | (None, w1) \<Rightarrow>
             (case etcd_Put cl key1 ''value1-updated'' (slp (2 * second) w1) of
                (Some err, w2) \<Rightarrow> (mod1, w2)
              | (None, w2) \<Rightarrow>
                  (case etcd_Put cl key2 ''value2'' (slp (2 * second) w2) of
                     (Some err, w3) \<Rightarrow> (add2, w3)
                   | (None, w3) \<Rightarrow>
                       (case etcd_Delete cl key1 (slp (2 * second) w3) of
                          (Some err, w4) \<Rightarrow> (del1, w4)
                        | (None, w4) \<Rightarrow> (del1, w4)))))"

subsection \<open>The changes of examples/with\_metrics\<close>

definition simulate_key :: "string \<Rightarrow> int \<Rightarrow> key" where
  "simulate_key p i = p @ ''app'' @ show_int i"

text \<open>One turn of the loop: \<open>False\<close> when it returned because of an error.\<close>

definition simulate_round ::
  "'w etcd_client \<Rightarrow> (int \<Rightarrow> 'w \<Rightarrow> 'w) \<Rightarrow> string \<Rightarrow> int \<Rightarrow> 'w \<Rightarrow> bool \<times> 'w" where
  "simulate_round cl slp p i w =
     (case etcd_Put cl (simulate_key p i) (''value'' @ show_int i) w of
        (Some err, w1) \<Rightarrow> (False, w1)
      | (None, w1) \<Rightarrow>
          (case etcd_Put cl (simulate_key p i) (''value'' @ show_int i @ ''-updated'') (slp (2 * second) w1) of
             (Some err, w2) \<Rightarrow> (False, w2)
           | (None, w2) \<Rightarrow>
               (case etcd_Delete cl (simulate_key p i) (slp (2 * second) w2) of
                  (Some err, w3) \<Rightarrow> (False, w3)
                | (None, w3) \<Rightarrow> (True, slp (2 * second) w3))))"

partial_function (option) simulate_from ::
  "'w etcd_client \<Rightarrow> (int \<Rightarrow> 'w \<Rightarrow> 'w) \<Rightarrow> string \<Rightarrow> int \<Rightarrow> 'w \<Rightarrow> 'w option" where
  "simulate_from cl slp p i w =
     (case simulate_round cl slp p i w of
        (again, w1) \<Rightarrow> if again then simulate_from cl slp p (i + 1) w1 else Some w1)"

declare simulate_from.simps [code]

definition simulateDataChanges :: "'w etcd_client \<Rightarrow> (int \<Rightarrow> 'w \<Rightarrow> 'w) \<Rightarrow> string \<Rightarrow> 'w \<Rightarrow> 'w option" where
  "simulateDataChanges cl slp p w = simulate_from cl slp p 0 w"

definition with_metrics_options :: LW_Options where
  "with_metrics_options =
     \<lparr>DialTimeout = 5 * second,
      RetryOpts = \<lparr>InitialDelay = 1 * second, MaxDelay = 30 * second, scale = (\<lambda>d. 2 * d)\<rparr>,
      EventChannelBuffer = 0\<rparr>"

subsection \<open>The program examples/basic\<close>

text \<open>\<open>log.Fatalf\<close> ends the process with status 1 without the deferred calls, a panic of a goroutine with
  status 2. The goroutine of the ListWatch closes the channel of the events before it calls the logger
  for the last time: \<open>main_first\<close> tells whether \<open>main\<close> has ended by then. The result is the exit status and
  the host; the program ends when the events end.\<close>

definition basic_main ::
  "outcomes \<Rightarrow> ('c, 'w) lw_services \<Rightarrow> metrics \<Rightarrow> bool \<Rightarrow> host \<Rightarrow> 'w \<Rightarrow> (int \<times> host) option" where
  "basic_main e S m main_first h w =
     (case StartEmbeddedEtcd e h of
        (Inl err, h1) \<Rightarrow> Some (1, h1)
      | (Inr (etcdServer, port), h1) \<Rightarrow>
          (case o_client e of
             Some err \<Rightarrow> Some (1, h1)
           | None \<Rightarrow>
               (let h2 = h1\<lparr>h_clients := h_clients h1 + 1\<rparr>
                in case NewListWatch S m [local_url port] example_prefix LW_DefaultOptions NilLogger w of
                     (Inl err, w1) \<Rightarrow> Some (1, h2)
                   | (Inr lw, w1) \<Rightarrow>
                       map_option (\<lambda>st.
                         if s_panicked st \<and> \<not> main_first then (2, h2)
                         else (0, StopEmbeddedEtcd etcdServer (close_client h2))) (ListAndWatch S lw w1))))"

subsection \<open>What the changes leave in etcd\<close>

text \<open>Sleeping changes nothing in etcd, which stays up.\<close>

definition sleep_keeps :: "('w \<Rightarrow> bytes contents) \<Rightarrow> ('w \<Rightarrow> bool) \<Rightarrow> (int \<Rightarrow> 'w \<Rightarrow> 'w) \<Rightarrow> bool" where
  "sleep_keeps kvs up slp \<longleftrightarrow> (\<forall>d w. kvs (slp d w) = kvs w \<and> (up w \<longrightarrow> up (slp d w)))"

context etcd_kv
begin

lemma put_after_sleep:
  assumes "sleep_keeps kvs up slp" "up w" "k \<noteq> []"
  shows "\<exists>w'. etcd_Put cl k v (slp d w) = (None, w') \<and> up w' \<and> kvs w' = (kvs w)(k \<mapsto> v)"
proof -
  have s: "kvs (slp d w) = kvs w" "up (slp d w)" using assms by (auto simp: sleep_keeps_def)
  obtain w' where "etcd_Put cl k v (slp d w) = (None, w')" "up w'" using put_up [OF s(2) assms(3)] by blast
  then show ?thesis using put_ok s(1) by metis
qed

lemma delete_after_sleep:
  assumes "sleep_keeps kvs up slp" "up w" "k \<noteq> []"
  shows "\<exists>w'. etcd_Delete cl k (slp d w) = (None, w') \<and> up w' \<and> kvs w' = (kvs w)(k := None)"
proof -
  have s: "kvs (slp d w) = kvs w" "up (slp d w)" using assms by (auto simp: sleep_keeps_def)
  obtain w' where "etcd_Delete cl k (slp d w) = (None, w')" "up w'" using del_up [OF s(2) assms(3)] by blast
  then show ?thesis using del_ok s(1) by metis
qed

lemma basic_changes_up:
  assumes "sleep_keeps kvs up slp" "up w"
  shows "\<exists>ls w'. basic_changes cl slp w = (ls, w') \<and> length ls = 4 \<and> up w' \<and>
    kvs w' = (kvs w)(''/example/app2'' \<mapsto> ''value2'', ''/example/app1'' := None)"
proof -
  let ?k1 = "example_prefix @ ''app1''" and ?k2 = "example_prefix @ ''app2''"
  have k: "?k1 \<noteq> []" "?k2 \<noteq> []" by simp_all
  obtain w1 where 1: "etcd_Put cl ?k1 ''value1'' (slp (1 * second) w) = (None, w1)" "up w1" "kvs w1 = (kvs w)(?k1 \<mapsto> ''value1'')"
    using put_after_sleep [OF assms k(1)] by blast
  obtain w2 where 2: "etcd_Put cl ?k1 ''value1-updated'' (slp (2 * second) w1) = (None, w2)" "up w2"
    "kvs w2 = (kvs w1)(?k1 \<mapsto> ''value1-updated'')"
    using put_after_sleep [OF assms(1) 1(2) k(1)] by blast
  obtain w3 where 3: "etcd_Put cl ?k2 ''value2'' (slp (2 * second) w2) = (None, w3)" "up w3" "kvs w3 = (kvs w2)(?k2 \<mapsto> ''value2'')"
    using put_after_sleep [OF assms(1) 2(2) k(2)] by blast
  obtain w4 where 4: "etcd_Delete cl ?k1 (slp (2 * second) w3) = (None, w4)" "up w4" "kvs w4 = (kvs w3)(?k1 := None)"
    using delete_after_sleep [OF assms(1) 3(2) k(1)] by blast
  have "kvs w4 = (kvs w)(''/example/app2'' \<mapsto> ''value2'', ''/example/app1'' := None)"
    unfolding 4(3) 3(3) 2(3) 1(3) by (auto simp: example_prefix_def fun_eq_iff)
  then show ?thesis using 1(1) 2(1) 3(1) 4(1,2) by (simp add: basic_changes_def Let_def)
qed

lemma simulate_round_up:
  assumes "sleep_keeps kvs up slp" "up w"
  shows "\<exists>w'. simulate_round cl slp p i w = (True, w') \<and> up w' \<and> kvs w' = (kvs w)(simulate_key p i := None)"
proof -
  let ?k = "simulate_key p i"
  have k: "?k \<noteq> []" by (simp add: simulate_key_def)
  obtain w1 where 1: "etcd_Put cl ?k (''value'' @ show_int i) w = (None, w1)" "up w1" "kvs w1 = (kvs w)(?k \<mapsto> ''value'' @ show_int i)"
    using put_up [OF assms(2) k] put_ok by metis
  obtain w2 where 2: "etcd_Put cl ?k (''value'' @ show_int i @ ''-updated'') (slp (2 * second) w1) = (None, w2)" "up w2"
    "kvs w2 = (kvs w1)(?k \<mapsto> ''value'' @ show_int i @ ''-updated'')"
    using put_after_sleep [OF assms(1) 1(2) k] by blast
  obtain w3 where 3: "etcd_Delete cl ?k (slp (2 * second) w2) = (None, w3)" "up w3" "kvs w3 = (kvs w2)(?k := None)"
    using delete_after_sleep [OF assms(1) 2(2) k] by blast
  have "up (slp (2 * second) w3)" "kvs (slp (2 * second) w3) = kvs w3"
    using assms(1) 3(2) by (auto simp: sleep_keeps_def)
  moreover have "kvs w3 = (kvs w)(?k := None)" unfolding 3(3) 2(3) 1(3) by simp
  ultimately show ?thesis using 1(1) 2(1) 3(1) by (simp add: simulate_round_def)
qed

lemma simulate_from_down:
  assumes "sleep_keeps kvs up slp" "simulate_from cl slp p i w = Some w'"
  shows "\<not> up w"
proof -
  have "c = cl \<longrightarrow> s = slp \<longrightarrow> \<not> up w0" if "simulate_from c s q n w0 = Some y" for c s q n w0 y
    using that
  proof (rule simulate_from.raw_induct [where P = "\<lambda>c s q n w0 y. c = cl \<longrightarrow> s = slp \<longrightarrow> \<not> up w0", rotated])
    fix f c s q n w0 y
    assume IH: "\<And>c s q n w0 y. f c s q n w0 = Some y \<Longrightarrow> c = cl \<longrightarrow> s = slp \<longrightarrow> \<not> up w0"
      and r: "(case simulate_round c s q n w0 of (again, w1) \<Rightarrow> if again then f c s q (n + 1) w1 else Some w1) = Some y"
    show "c = cl \<longrightarrow> s = slp \<longrightarrow> \<not> up w0"
      using simulate_round_up [OF assms(1), of w0 q n] IH r by fastforce
  qed
  then show ?thesis using assms(2) by blast
qed

end

text \<open>The simulated changes go on for ever while etcd is up.\<close>

lemma simulateDataChanges_endless:
  assumes "etcd_kv cl kvs up" "sleep_keeps kvs up slp" "up w"
  shows "simulateDataChanges cl slp p w = None"
  using etcd_kv.simulate_from_down [OF assms(1,2)] assms(3) unfolding simulateDataChanges_def
  by (cases "simulate_from cl slp p 0 w") blast+

subsection \<open>How examples/basic ends\<close>



end
