(* ===== verification/Metrics.thy ===== *)
theory Metrics
  imports Listwatch
begin

text \<open>
  \<open>pkg/listwatch/metrics.go\<close>: the metrics of the process. Prometheus is code outside the repository: \<open>reg\<close> is
  its \<open>Register\<close> on the collector of a name, over the state \<open>'r\<close> of the default registry. The two variables of
  the package are a record; a panic is a flag of the result.
\<close>

definition metric_names :: "string list" where
  "metric_names =
     [''listwatch_watch_failures_total'', ''listwatch_list_duration_seconds'',
      ''listwatch_watch_event_duration_seconds'', ''listwatch_events_processed_total'',
      ''listwatch_retry_attempts_total'', ''listwatch_events_by_type_total'', ''listwatch_connection_state'',
      ''listwatch_watch_session_duration_seconds'', ''listwatch_errors_by_type_total'']"

text \<open>\<open>metricsOnce\<close> is whether its function was called.\<close>

record metrics_vars =
  defaultMetrics :: "metrics option"
  metricsOnce :: bool

text \<open>\<open>prometheus.MustRegister\<close> panics at the first collector that \<open>Register\<close> refuses.\<close>

fun MustRegister :: "(string \<Rightarrow> 'r \<Rightarrow> error option \<times> 'r) \<Rightarrow> string list \<Rightarrow> 'r \<Rightarrow> bool \<times> 'r" where
  "MustRegister reg [] R = (False, R)"
| "MustRegister reg (n # ns) R =
     (case reg n R of
        (Some err, R1) \<Rightarrow> (True, R1)
      | (None, R1) \<Rightarrow> MustRegister reg ns R1)"

text \<open>The pointer that is returned, whether the call panicked, the variables and the registry. A function that
  panics counts as called for \<open>sync.Once\<close>.\<close>

definition newMetrics ::
  "(string \<Rightarrow> 'r \<Rightarrow> error option \<times> 'r) \<Rightarrow> metrics_vars \<Rightarrow> 'r \<Rightarrow> (metrics option \<times> bool) \<times> metrics_vars \<times> 'r" where
  "newMetrics reg v R =
     (if metricsOnce v then ((defaultMetrics v, False), v, R)
      else (let v1 = v\<lparr>defaultMetrics := Some zero_metrics, metricsOnce := True\<rparr>
            in case MustRegister reg metric_names R of (p, R1) \<Rightarrow> ((defaultMetrics v1, p), v1, R1)))"

subsection \<open>One registration per process\<close>

text \<open>What Prometheus documents: a collector whose name is free is accepted, and only its name is taken then.\<close>

definition registers_fresh :: "(string \<Rightarrow> 'r \<Rightarrow> error option \<times> 'r) \<Rightarrow> ('r \<Rightarrow> string set) \<Rightarrow> bool" where
  "registers_fresh reg taken \<longleftrightarrow>
     (\<forall>n R. n \<notin> taken R \<longrightarrow> (\<exists>R1. reg n R = (None, R1) \<and> taken R1 = insert n (taken R)))"

lemma MustRegister_fresh:
  assumes "registers_fresh reg taken" "distinct ns" "set ns \<inter> taken R = {}"
  shows "\<exists>R1. MustRegister reg ns R = (False, R1) \<and> taken R1 = taken R \<union> set ns"
  using assms(2,3)
proof (induction ns arbitrary: R)
  case Nil
  then show ?case by simp
next
  case (Cons n ns)
  then have "n \<notin> taken R" by simp
  then obtain R1 where 1: "reg n R = (None, R1)" "taken R1 = insert n (taken R)"
    using assms(1) unfolding registers_fresh_def by blast
  moreover obtain R2 where "MustRegister reg ns R1 = (False, R2)" "taken R2 = taken R1 \<union> set ns"
    using Cons.IH [of R1] Cons.prems 1(2) by auto
  ultimately show ?case by simp
qed

lemma metric_names_distinct: "distinct metric_names"
  by (simp add: metric_names_def)

lemma newMetrics_later: "metricsOnce v \<Longrightarrow> newMetrics reg v R = ((defaultMetrics v, False), v, R)"
  by (simp add: newMetrics_def)

lemma newMetrics_sets_once: "newMetrics reg v R = (r, v', R') \<Longrightarrow> metricsOnce v'"
  by (auto simp: newMetrics_def Let_def split: if_splits prod.splits)

text \<open>The metrics are registered once. On a registry where none of the nine names is taken the first call of
  \<open>newMetrics\<close> does not panic, registers exactly these names and returns metrics at zero; every later call
  returns the object of the first, at its current value, and does not touch the registry.\<close>

lemma newMetrics_registers_once:
  assumes "registers_fresh reg taken" "set metric_names \<inter> taken R = {}" "\<not> metricsOnce v"
    and "newMetrics reg v R = (r, v1, R1)"
  shows "r = (Some zero_metrics, False) \<and> taken R1 = taken R \<union> set metric_names \<and>
    newMetrics reg (v1\<lparr>defaultMetrics := Some m\<rparr>) R2 = ((Some m, False), v1\<lparr>defaultMetrics := Some m\<rparr>, R2)"
proof -
  have "metricsOnce v1" by (rule newMetrics_sets_once [OF assms(4)])
  then show ?thesis
    using assms(3,4) MustRegister_fresh [OF assms(1) metric_names_distinct assms(2)]
    by (auto simp: newMetrics_later) (auto simp: newMetrics_def Let_def)
qed

text \<open>A registry that is the list of its names and refuses a name it has.\<close>

definition list_registry :: "string \<Rightarrow> string list \<Rightarrow> error option \<times> string list" where
  "list_registry n R =
     (if n \<in> set R then (Some (External ''duplicate metrics collector registration attempted''), R) else (None, R @ [n]))"

lemma list_registry_fresh: "registers_fresh list_registry set"
  by (auto simp: registers_fresh_def list_registry_def)

lemma newMetrics_registers_once_instance:
  "\<exists>v1 R1. newMetrics list_registry \<lparr>defaultMetrics = None, metricsOnce = False\<rparr> [''go_goroutines''] =
      ((Some zero_metrics, False), v1, R1) \<and> set R1 = insert ''go_goroutines'' (set metric_names) \<and>
    snd (newMetrics list_registry (v1\<lparr>defaultMetrics := Some (zero_metrics\<lparr>retryCount := 2\<rparr>)\<rparr>) R1) =
      (v1\<lparr>defaultMetrics := Some (zero_metrics\<lparr>retryCount := 2\<rparr>)\<rparr>, R1)"
proof -
  obtain r v1 R1 where n: "newMetrics list_registry \<lparr>defaultMetrics = None, metricsOnce = False\<rparr> [''go_goroutines''] = (r, v1, R1)"
    by (cases "newMetrics list_registry \<lparr>defaultMetrics = None, metricsOnce = False\<rparr> [''go_goroutines'']")
  have "set metric_names \<inter> set [''go_goroutines''] = {}" by (simp add: metric_names_def)
  from newMetrics_registers_once [OF list_registry_fresh this _ n, of "zero_metrics\<lparr>retryCount := 2\<rparr>" R1]
  show ?thesis using n by simp
qed

end
