(* ===== verification/Spec2Isabelle.thy ===== *)
theory Spec2Isabelle
  imports Cluster Kubelet_Properties Kubelet_API Listwatch_Examples Metrics
begin

text \<open>
  A verification development for gokube, a small container orchestrator written in Go.

  \<^bold>\<open>The program.\<close> An API server (\<open>cmd/apiserver\<close>, \<open>pkg/api\<close>) keeps pods, nodes and replica sets in etcd,
  which it starts itself (\<open>pkg/storage/etcd.go\<close>). Its HTTP handlers (\<open>pkg/api/handlers\<close>) call three registries
  (\<open>pkg/registry\<close>), which validate objects, choose their keys and use a \<open>Storage\<close> (\<open>pkg/storage\<close>) that encodes
  them as JSON (\<open>pkg/runtime\<close>). A scheduler (\<open>pkg/scheduler\<close>) and a replica set controller
  (\<open>pkg/controller\<close>, with the name generator \<open>pkg/registry/names\<close>) run beside it on the same etcd through the
  same registries. A kubelet on each node (\<open>pkg/kubelet\<close>) talks HTTP to the API server and drives Docker.
  \<open>pkg/listwatch\<close> and \<open>pkg/retry\<close> list and watch a prefix of etcd with reconnection; two example programs show
  their use.

  \<^bold>\<open>How Go is rendered.\<close> A struct is a record, a pair of a value and an error is \<open>error + 'a\<close>, and the type
  \<open>error\<close> (theory \<open>Goerror\<close>) keeps the chain that \<open>errors.Is\<close> sees. Whatever an operation can change outside
  its arguments is a world \<open>'w\<close>, passed and returned. A Go interface, and a client of code outside the
  repository, is a record of functions. A loop that may not end is \<open>partial_function (option)\<close>: \<open>None\<close> is a call
  that does not return, and returning is proved. Loops driven by a ticker take the list of the cases
  their \<open>select\<close> chose; the two goroutines of the kubelet take the sequence of their polls and ticks. A random source is the stream of its
  values. \<open>int32\<close> fields are \<open>32 word\<close>, durations and \<open>int\<close> are \<open>int\<close>. A panic and the end of the process are
  values or flags. The only fuel is that of \<open>first_value\<close>, the search for the first JSON value of a body: it
  is the length of the body, and every step takes a character.

  \<^bold>\<open>Theories and the code they model.\<close>
  \<^item> \<open>Prelude\<close>: the collections of rules and lemmas the components share. \<open>Goerror\<close>, \<open>Gostring\<close>, \<open>Jsonstring\<close>, \<open>Json\<close>,
    \<open>Gotime\<close>, \<open>Gorand\<close>: what the sources use of \<open>errors\<close>, \<open>strings\<close>, \<open>path\<close>, \<open>strconv\<close>, \<open>encoding/json\<close>, \<open>time\<close> and
    \<open>math/rand\<close>.
  \<^item> \<open>Api\<close>: \<open>pkg/api/types.go\<close>, \<open>pod.go\<close>, \<open>node.go\<close>; the validator library is the parameter \<open>V\<close> with the contract
    \<open>struct_validator\<close>. \<open>Runtime\<close>: \<open>Encode\<close> and \<open>Decode\<close>.
  \<^item> \<open>Storage\<close>: \<open>EtcdStorage\<close> over a record of the etcd client. The locale \<open>etcd_kv\<close> states what etcd documents of
    its client, faults included: a request that failed may or may not have taken effect. The locale
    \<open>object_store\<close> is what the registries rely on. \<open>Etcd_Mem\<close>: an in-memory etcd with revisions and injected
    faults that satisfies \<open>etcd_kv\<close>; it serves the instances of the theorems. \<open>Watch\<close>: the watch of
    \<open>etcd_storage.go\<close>.
  \<^item> \<open>Registry\<close>: keys, typed views of the store (\<open>pods\<close>, \<open>nodes\<close>, \<open>replicasets\<close>), the invariant \<open>store_inv\<close> and the
    locale \<open>registry\<close> the clients of a store and a validator are proved in. \<open>Pod_Registry\<close>, \<open>Node_Registry\<close>,
    \<open>ReplicaSet_Registry\<close>: the three registries.
  \<^item> \<open>Names\<close>, \<open>Scheduler\<close>, \<open>Controller\<close>: \<open>generate.go\<close>, \<open>scheduler.go\<close>, \<open>replica_set_controller.go\<close>.
  \<^item> \<open>Handlers\<close>: \<open>response.go\<close>, the handlers, the route tables and the server.
  \<^item> \<open>Kubelet\<close>: \<open>kubelet.go\<close>. \<open>Retry\<close>: \<open>retry.go\<close>. \<open>Listwatch\<close>: \<open>listwatch.go\<close>, with a flag for a panic, also that of a call on
    a nil logger. \<open>Metrics\<close>: \<open>metrics.go\<close>. \<open>Commands\<close>: \<open>cmd/\<close> with the flags, the embedded etcd and
    \<open>storage/helper.go\<close>. \<open>Listwatch_Examples\<close>: \<open>listwatch/examples\<close>.

  \<^bold>\<open>What is shown.\<close>
  \<^item> Storage and registries (\<open>Registry_Properties\<close>): objects survive encoding; \<open>EtcdStorage\<close> implements the
    abstract store over every client that satisfies \<open>etcd_kv\<close>; creating a pod has exactly the documented
    outcomes; a decode keeps the kind. Also two flaws: a failed lookup is taken for absence, and the name
    of a node can address the entry of a pod.
  \<^item> Scheduler, names, controller (\<open>Control_Properties\<close>): a pass changes only pending pods and completes
    while etcd is up; the bit-caching name generator equals a plain description; what \<open>Reconcile\<close> does to
    the store, when it converges and when it does not.
  \<^item> The control plane (\<open>Cluster\<close>): the operations of all clients of the store as a transition system; its
    invariant, its listings, and that the controller and the scheduler together bring the pods of a set
    onto nodes.
  \<^item> HTTP (\<open>Handler_Properties\<close>): one response per request, with one exception, and the status and effect of
    the pod routes. \<open>Kubelet_API\<close> joins the kubelet's registration and its status updates with the
    handlers that serve them.
  \<^item> Kubelet (\<open>Kubelet_Properties\<close>): each pod is started once, however the goroutines interleave; statuses against container states; lost
    updates and the confusion of container names.
  \<^item> Watching (\<open>Watch\<close>, \<open>Retry\<close>, \<open>Listwatch_Properties\<close>): replaying the events gives the store; delays, bounds
    and termination of the retries; what holds when \<open>ListAndWatch\<close> has ended, that it ends with its context
    and panics exactly without a logger (\<open>Listwatch_Termination\<close>), and which changes and errors it does not
    deliver; the metrics are registered once (\<open>Metrics\<close>).
  \<^item> Programs (\<open>Commands\<close>, \<open>Listwatch_Examples\<close>): what the API server acquires and gives back, how the basic
    example ends, and what the examples leave in etcd.

  \<^bold>\<open>Hypotheses.\<close> \<open>storable\<close> is what JSON can hold (valid UTF-8, representable times). \<open>fair\<close> and \<open>proper_source\<close> say
  that a random source does not give unusable values for ever; \<open>lw_bounded\<close> says that only so many events
  and timers come before a context is done. \<open>up\<close> is a world in which etcd answers.
  The number of nodes is below \<open>2^63\<close>, the range of \<open>rand.Intn\<close>.

  \<^bold>\<open>Not modelled.\<close> The text of logs; reading the command line (cobra), serving HTTP and matching routes
  (net/http, go-restful) and the registry of prometheus, which are parameters; the help texts, labels and
  buckets of the metrics and the durations they observe; the mutex of the name generator and the
  unsynchronised access of the kubelet's two goroutines to its map, since the model runs each of their
  ticks alone; the main function of \<open>examples/with_metrics\<close>, which serves metrics and logs events for ever;
  the generated mock and the set-up of the handlers' tests.
\<close>

end
